(* ===== verification/Prelude.thy ===== *)
theory Prelude
  imports Main "HOL-Library.Word" "HOL-Library.AList" "HOL-Library.Option_ord"
    "HOL-Library.Multiset" "HOL-Library.Sublist"
begin

text \<open>
  Shared vocabulary of the development: Rust strings as lists of Unicode scalar values,
  instants as nanoseconds, hash maps as association lists with distinct keys, Rust's
  \<open>std::cmp::Reverse\<close> as a type with the dual order, and programs that read and write a
  state and may return early with an error. The last part is a small calculus for such
  programs: \<open>sat\<close> follows a program through an abstraction of its state.
\<close>

named_theorems hm_simps "hash map operations seen through \<open>map_of\<close>"
named_theorems sat_intros "symbolic execution of programs over an abstract state"

section \<open>Strings\<close>

text \<open>
  A Rust \<open>String\<close> is a list of Unicode scalar values: \<open>chars().count()\<close> is the length of
  the list, \<open>len()\<close> counts the bytes of the UTF-8 encoding. Literals of the source are ASCII
  and are written \<open>lit ''...''\<close>.
\<close>

type_synonym rstr = "nat list"

definition lit :: "string \<Rightarrow> rstr" where
  "lit s = map of_char s"

lemma lit_Nil [simp]: "lit [] = []"
  by (simp add: lit_def)

lemma lit_eq_iff [simp]: "lit a = lit b \<longleftrightarrow> a = b"
  by (simp add: lit_def inj_map_eq_map inj_def)

text \<open>\<open>char::is_whitespace\<close>, the Unicode property \<open>White_Space\<close>.\<close>

definition is_whitespace :: "nat \<Rightarrow> bool" where
  "is_whitespace c \<longleftrightarrow>
     (9 \<le> c \<and> c \<le> 13) \<or> c = 32 \<or> c = 0x85 \<or> c = 0xA0 \<or> c = 0x1680 \<or>
     (0x2000 \<le> c \<and> c \<le> 0x200A) \<or> c = 0x2028 \<or> c = 0x2029 \<or> c = 0x202F \<or> c = 0x205F \<or>
     c = 0x3000"

text \<open>\<open>str::trim\<close>: drop whitespace at both ends.\<close>

definition trim :: "rstr \<Rightarrow> rstr" where
  "trim s = rev (dropWhile is_whitespace (rev (dropWhile is_whitespace s)))"

lemma dropWhile_idem [simp]: "dropWhile P (dropWhile P xs) = dropWhile P xs"
  by (induction xs) auto

lemma hd_trim: "trim s \<noteq> [] \<Longrightarrow> \<not> is_whitespace (hd (trim s))"
proof -
  assume ne: "trim s \<noteq> []"
  let ?a = "dropWhile is_whitespace s"
  have "suffix (dropWhile is_whitespace (rev ?a)) (rev ?a)"
    by (rule suffix_dropWhile)
  then have "prefix (trim s) ?a"
    by (simp add: trim_def suffix_to_prefix)
  with ne have "hd (trim s) = hd ?a" and "?a \<noteq> []"
    by (metis hd_append2 prefix_def, metis prefix_bot.extremum_unique)
  then show ?thesis by (metis hd_dropWhile)
qed

lemma last_trim: "trim s \<noteq> [] \<Longrightarrow> \<not> is_whitespace (last (trim s))"
  by (simp add: trim_def last_rev hd_dropWhile)

lemma trim_id: "(s \<noteq> [] \<Longrightarrow> \<not> is_whitespace (hd s) \<and> \<not> is_whitespace (last s)) \<Longrightarrow> trim s = s"
proof (cases "s = []")
  case True
  then show ?thesis by (simp add: trim_def)
next
  case False
  assume "s \<noteq> [] \<Longrightarrow> \<not> is_whitespace (hd s) \<and> \<not> is_whitespace (last s)"
  with False have h: "\<not> is_whitespace (hd s)" and l: "\<not> is_whitespace (last s)" by auto
  from False h have "dropWhile is_whitespace s = s" by (cases s) auto
  moreover have "dropWhile is_whitespace (rev s) = rev s"
    using False l by (cases s rule: rev_cases) auto
  ultimately show ?thesis by (simp add: trim_def)
qed

lemma trim_trim [simp]: "trim (trim s) = trim s"
  by (rule trim_id) (simp add: hd_trim last_trim)

lemma length_trim_le: "length (trim s) \<le> length s"
  by (metis length_dropWhile_le length_rev order_trans trim_def)

text \<open>UTF-8, for \<open>String::len\<close> and \<open>as_bytes\<close>.\<close>

definition utf8_char :: "nat \<Rightarrow> nat list" where
  "utf8_char c =
     (if c < 0x80 then [c]
      else if c < 0x800 then [0xC0 + c div 64, 0x80 + c mod 64]
      else if c < 0x10000 then [0xE0 + c div 4096, 0x80 + (c div 64) mod 64, 0x80 + c mod 64]
      else [0xF0 + c div 262144, 0x80 + (c div 4096) mod 64, 0x80 + (c div 64) mod 64,
            0x80 + c mod 64])"

definition utf8 :: "rstr \<Rightarrow> nat list" where
  "utf8 s = concat (map utf8_char s)"

definition byte_len :: "rstr \<Rightarrow> nat" where
  "byte_len s = length (utf8 s)"

lemma utf8_Nil [simp]: "utf8 [] = []"
  by (simp add: utf8_def)

lemma utf8_Cons [simp]: "utf8 (c # s) = utf8_char c @ utf8 s"
  by (simp add: utf8_def)

lemma utf8_char_nonempty: "1 \<le> length (utf8_char c)"
  by (simp add: utf8_char_def)

lemma byte_len_ge_length: "length s \<le> byte_len s"
proof (induction s)
  case Nil
  then show ?case by (simp add: byte_len_def)
next
  case (Cons c s)
  then show ?case using utf8_char_nonempty [of c] by (simp add: byte_len_def)
qed

text \<open>
  \<open>str::to_lowercase\<close>. On ASCII it is exact; on strings with other characters it is the
  Unicode table of the standard library, the parameter \<open>unicode\<close>.
\<close>

definition ascii_lower :: "nat \<Rightarrow> nat" where
  "ascii_lower c = (if 65 \<le> c \<and> c \<le> 90 then c + 32 else c)"

definition to_lowercase :: "(rstr \<Rightarrow> rstr) \<Rightarrow> rstr \<Rightarrow> rstr" where
  "to_lowercase unicode s =
     (if list_all (\<lambda>c. c < 128) s then map ascii_lower s else unicode s)"

text \<open>\<open>str::split_once\<close> with a character, \<open>str::split\<close> with a character.\<close>

fun split_once :: "nat \<Rightarrow> rstr \<Rightarrow> (rstr \<times> rstr) option" where
  "split_once d [] = None"
| "split_once d (c # cs) =
     (if c = d then Some ([], cs)
      else case split_once d cs of None \<Rightarrow> None | Some (a, b) \<Rightarrow> Some (c # a, b))"

fun split_on :: "nat \<Rightarrow> rstr \<Rightarrow> rstr list" where
  "split_on d [] = [[]]"
| "split_on d (c # cs) =
     (if c = d then [] # split_on d cs
      else case split_on d cs of [] \<Rightarrow> [[c]] | w # ws \<Rightarrow> (c # w) # ws)"

lemma split_once_Some: "split_once d s = Some (a, b) \<longleftrightarrow> s = a @ d # b \<and> d \<notin> set a"
proof (induction s arbitrary: a)
  case Nil
  then show ?case by simp
next
  case (Cons c cs)
  show ?case
  proof (cases a)
    case Nil
    then show ?thesis by (cases "split_once d cs") auto
  next
    case (Cons x a')
    then show ?thesis using Cons.IH [of a'] by (cases "split_once d cs") auto
  qed
qed

text \<open>\<open>{:02x}\<close>: two lowercase hexadecimal digits of a byte.\<close>

definition hex_digit :: "nat \<Rightarrow> nat" where
  "hex_digit n = (if n < 10 then 48 + n else 87 + n)"

definition hex_byte :: "nat \<Rightarrow> rstr" where
  "hex_byte b = [hex_digit (b div 16), hex_digit (b mod 16)]"

lemma hex_digit_inj: "a < 16 \<Longrightarrow> b < 16 \<Longrightarrow> hex_digit a = hex_digit b \<longleftrightarrow> a = b"
  by (auto simp: hex_digit_def)

lemma hex_byte_inj: "a < 256 \<Longrightarrow> b < 256 \<Longrightarrow> hex_byte a = hex_byte b \<longleftrightarrow> a = b"
proof
  assume lt: "a < 256" "b < 256" and eq: "hex_byte a = hex_byte b"
  from lt have d: "a div 16 < 16" "b div 16 < 16" by auto
  from eq have "hex_digit (a div 16) = hex_digit (b div 16)"
    and "hex_digit (a mod 16) = hex_digit (b mod 16)"
    by (simp_all add: hex_byte_def)
  with d have "a div 16 = b div 16" and "a mod 16 = b mod 16"
    by (simp_all add: hex_digit_inj)
  then show "a = b" by (metis div_mult_mod_eq)
qed simp

lemma concat_hex_byte_inj:
  "list_all (\<lambda>b. b < 256) xs \<Longrightarrow> list_all (\<lambda>b. b < 256) ys \<Longrightarrow>
   concat (map hex_byte xs) = concat (map hex_byte ys) \<longleftrightarrow> xs = ys"
proof (induction xs arbitrary: ys)
  case Nil
  then show ?case by (cases ys) (auto simp: hex_byte_def)
next
  case (Cons x xs)
  show ?case
  proof (cases ys)
    case Nil
    then show ?thesis by (simp add: hex_byte_def)
  next
    case (Cons y ys')
    have "hex_byte x @ concat (map hex_byte xs) = hex_byte y @ concat (map hex_byte ys')
        \<longleftrightarrow> hex_byte x = hex_byte y \<and> concat (map hex_byte xs) = concat (map hex_byte ys')"
      by (simp add: hex_byte_def)
    with Cons Cons.IH [of ys'] Cons.prems show ?thesis
      by (auto simp: hex_byte_inj)
  qed
qed

text \<open>Decimal rendering of a natural number, for \<open>format!("{}", n)\<close>.\<close>

fun show_nat :: "nat \<Rightarrow> rstr" where
  "show_nat n = (if n < 10 then [48 + n] else show_nat (n div 10) @ [48 + n mod 10])"

declare show_nat.simps [simp del]

section \<open>Time\<close>

text \<open>
  \<open>DateTime<Utc>\<close> is the number of nanoseconds since the epoch, \<open>chrono::Duration\<close> a
  difference of such instants. \<open>now_utc\<close> truncates to microseconds.
\<close>

type_synonym time = int

definition microsecond :: int where "microsecond = 1000"
definition second :: int where "second = 1000000000"
definition minutes :: "int \<Rightarrow> int" where "minutes n = n * 60 * second"
definition hours :: "int \<Rightarrow> int" where "hours n = n * 3600 * second"
definition days :: "int \<Rightarrow> int" where "days n = n * 86400 * second"

definition now_utc :: "time \<Rightarrow> time" where
  "now_utc t = t - t mod microsecond"

lemma now_utc_le: "now_utc t \<le> t"
  by (simp add: now_utc_def microsecond_def)

lemma now_utc_gt: "t - microsecond < now_utc t"
  by (simp add: now_utc_def microsecond_def)

lemma now_utc_micros: "now_utc t mod microsecond = 0"
  by (simp add: now_utc_def microsecond_def minus_mod_eq_mult_div)

lemma now_utc_idem [simp]: "now_utc (now_utc t) = now_utc t"
  using now_utc_micros [of t] by (simp add: now_utc_def [of "now_utc t"])

lemma now_utc_mono: "s \<le> t \<Longrightarrow> now_utc s \<le> now_utc t"
  by (simp add: now_utc_def microsecond_def minus_mod_eq_mult_div zdiv_mono1)

section \<open>Descending sorts\<close>

text \<open>
  \<open>std::cmp::Reverse\<close> turns an order around; \<open>sort_by_key\<close> of the source is the stable
  \<^const>\<open>sort_key\<close>, and a descending sort is a \<^const>\<open>sort_key\<close> by a \<open>Reverse\<close> key.
\<close>

datatype 'a reverse = Reverse (unreverse: 'a)

instantiation reverse :: (linorder) linorder
begin

definition less_eq_reverse :: "'a reverse \<Rightarrow> 'a reverse \<Rightarrow> bool" where
  "less_eq_reverse a b \<longleftrightarrow> unreverse b \<le> unreverse a"

definition less_reverse :: "'a reverse \<Rightarrow> 'a reverse \<Rightarrow> bool" where
  "less_reverse a b \<longleftrightarrow> unreverse b < unreverse a"

instance
  by standard (auto simp: less_eq_reverse_def less_reverse_def reverse.expand)

end

lemma Reverse_le [simp]: "Reverse a \<le> Reverse b \<longleftrightarrow> b \<le> a"
  by (simp add: less_eq_reverse_def)

lemma Reverse_less [simp]: "Reverse a < Reverse b \<longleftrightarrow> b < a"
  by (simp add: less_reverse_def)

definition sort_desc :: "('a \<Rightarrow> 'k::linorder) \<Rightarrow> 'a list \<Rightarrow> 'a list" where
  "sort_desc f xs = sort_key (\<lambda>x. Reverse (f x)) xs"

lemma set_sort_desc [simp]: "set (sort_desc f xs) = set xs"
  by (simp add: sort_desc_def)

lemma length_sort_desc [simp]: "length (sort_desc f xs) = length xs"
  by (simp add: sort_desc_def)

lemma mset_sort_desc [simp]: "mset (sort_desc f xs) = mset xs"
  by (simp add: sort_desc_def)

lemma distinct_sort_desc [simp]: "distinct (sort_desc f xs) = distinct xs"
  by (simp add: sort_desc_def)

lemma sorted_sort_desc: "sorted_wrt (\<lambda>x y. f y \<le> f x) (sort_desc f xs)"
proof -
  have "sorted (map (\<lambda>x. Reverse (f x)) (sort_desc f xs))"
    by (simp add: sort_desc_def)
  then show ?thesis by (simp add: sorted_map)
qed

lemma sort_desc_stable: "filter (\<lambda>y. f y = k) (sort_desc f xs) = filter (\<lambda>y. f y = k) xs"
  using sort_key_stable [of "\<lambda>x. Reverse (f x)" "Reverse k" xs] by (simp add: sort_desc_def)

section \<open>Hash maps\<close>

text \<open>
  A \<open>std::collections::HashMap\<close> is an association list with distinct keys. The order of
  the list stands for the iteration order, which Rust leaves unspecified; the properties do
  not depend on it. \<open>hm_wf key\<close> adds what every repository of the program maintains: a value
  is stored under its own key.
\<close>

type_synonym ('k, 'v) hashmap = "('k \<times> 'v) list"

definition hm_get :: "('k, 'v) hashmap \<Rightarrow> 'k \<Rightarrow> 'v option" where
  "hm_get m k = map_of m k"

definition hm_insert :: "'k \<Rightarrow> 'v \<Rightarrow> ('k, 'v) hashmap \<Rightarrow> ('k, 'v) hashmap" where
  "hm_insert k v m = AList.update k v m"

definition hm_remove :: "'k \<Rightarrow> ('k, 'v) hashmap \<Rightarrow> ('k, 'v) hashmap" where
  "hm_remove k m = AList.delete k m"

definition hm_modify :: "'k \<Rightarrow> ('v \<Rightarrow> 'v) \<Rightarrow> ('k, 'v) hashmap \<Rightarrow> ('k, 'v) hashmap" where
  "hm_modify k f m = AList.map_entry k f m"

definition hm_retain :: "('k \<Rightarrow> 'v \<Rightarrow> bool) \<Rightarrow> ('k, 'v) hashmap \<Rightarrow> ('k, 'v) hashmap" where
  "hm_retain P m = filter (\<lambda>(k, v). P k v) m"

definition hm_values :: "('k, 'v) hashmap \<Rightarrow> 'v list" where
  "hm_values m = map snd m"

definition hm_wf :: "('v \<Rightarrow> 'k) \<Rightarrow> ('k, 'v) hashmap \<Rightarrow> bool" where
  "hm_wf key m \<longleftrightarrow> distinct (map fst m) \<and> (\<forall>(k, v) \<in> set m. key v = k)"

text \<open>Filtering a finite map by its values, the abstract side of \<^const>\<open>hm_retain\<close>.\<close>

definition map_keep :: "('k \<Rightarrow> 'v \<Rightarrow> bool) \<Rightarrow> ('k \<rightharpoonup> 'v) \<Rightarrow> ('k \<rightharpoonup> 'v)" where
  "map_keep P f k = (case f k of None \<Rightarrow> None | Some v \<Rightarrow> if P k v then Some v else None)"

lemma map_keep_Some [simp]: "map_keep P f k = Some v \<longleftrightarrow> f k = Some v \<and> P k v"
  by (auto simp: map_keep_def split: option.splits)

lemma map_keep_None: "map_keep P f k = None \<longleftrightarrow> (\<forall>v. f k = Some v \<longrightarrow> \<not> P k v)"
  by (auto simp: map_keep_def split: option.splits)

lemma map_keep_keep [simp]: "map_keep P (map_keep Q f) = map_keep (\<lambda>k v. Q k v \<and> P k v) f"
  by (rule ext) (auto simp: map_keep_def split: option.splits)

lemma hm_wf_Nil [simp]: "hm_wf key []"
  by (simp add: hm_wf_def)

lemma hm_wf_Cons:
  "hm_wf key ((k, v) # m) \<longleftrightarrow> key v = k \<and> k \<notin> fst ` set m \<and> hm_wf key m"
  by (auto simp: hm_wf_def)

lemma hm_get_Nil [simp]: "hm_get [] = Map.empty"
  by (rule ext) (simp add: hm_get_def)

lemma hm_get_insert [hm_simps]: "hm_get (hm_insert k v m) = (hm_get m)(k \<mapsto> v)"
  by (simp add: hm_get_def [abs_def] hm_insert_def update_conv')

lemma hm_get_remove [hm_simps]: "hm_get (hm_remove k m) = (hm_get m)(k := None)"
  by (simp add: hm_get_def [abs_def] hm_remove_def delete_conv')

lemma hm_get_modify [hm_simps]:
  "hm_get (hm_modify k f m) =
     (case hm_get m k of None \<Rightarrow> hm_get m | Some v \<Rightarrow> (hm_get m)(k \<mapsto> f v))"
  by (rule ext) (auto simp: hm_get_def hm_modify_def AList.map_of_map_entry split: option.splits)

lemma hm_get_retain [hm_simps]:
  "hm_wf key m \<Longrightarrow> hm_get (hm_retain P m) = map_keep P (hm_get m)"
proof (induction m)
  case Nil
  then show ?case by (auto simp: hm_retain_def map_keep_def)
next
  case (Cons kv m)
  obtain k v where kv: "kv = (k, v)" by (cases kv)
  with Cons.prems have fresh: "k \<notin> fst ` set m" and wf: "hm_wf key m"
    by (auto simp: hm_wf_Cons)
  have IH: "hm_get (hm_retain P m) x = map_keep P (hm_get m) x" for x
    using Cons.IH [OF wf] by simp
  have "map_of m k = None" using fresh by (simp add: map_of_eq_None_iff)
  with IH [of k] have none: "hm_get (hm_retain P m) k = None"
    by (simp add: map_keep_def hm_get_def)
  show ?case
  proof
    fix x
    show "hm_get (hm_retain P (kv # m)) x = map_keep P (hm_get (kv # m)) x"
      using IH [of x] none
      by (cases "x = k") (auto simp: kv hm_retain_def hm_get_def map_keep_def)
  qed
qed

lemma hm_wf_insert [hm_simps]: "hm_wf key m \<Longrightarrow> key v = k \<Longrightarrow> hm_wf key (hm_insert k v m)"
proof (induction m)
  case Nil
  then show ?case by (simp add: hm_insert_def hm_wf_def)
next
  case (Cons kv m)
  obtain k' v' where kv: "kv = (k', v')" by (cases kv)
  from Cons show ?case
    by (cases "k = k'") (simp_all add: kv hm_insert_def hm_wf_Cons dom_update)
qed

lemma hm_wf_remove [hm_simps]: "hm_wf key m \<Longrightarrow> hm_wf key (hm_remove k m)"
  by (auto simp: hm_wf_def hm_remove_def AList.delete_eq distinct_map_filter)

lemma hm_wf_retain [hm_simps]: "hm_wf key m \<Longrightarrow> hm_wf key (hm_retain P m)"
  by (auto simp: hm_wf_def hm_retain_def distinct_map_filter)

lemma hm_wf_modify [hm_simps]:
  "hm_wf key m \<Longrightarrow> (\<And>v. key (f v) = key v) \<Longrightarrow> hm_wf key (hm_modify k f m)"
proof (induction m)
  case Nil
  then show ?case by (simp add: hm_modify_def)
next
  case (Cons kv m)
  then show ?case
    by (cases kv) (auto simp: hm_modify_def hm_wf_Cons dom_map_entry)
qed

lemma hm_get_key: "hm_wf key m \<Longrightarrow> hm_get m k = Some v \<Longrightarrow> key v = k"
  by (auto simp: hm_wf_def hm_get_def dest: map_of_SomeD)

lemma hm_values_iff: "hm_wf key m \<Longrightarrow> v \<in> set (hm_values m) \<longleftrightarrow> hm_get m (key v) = Some v"
  by (force simp: hm_values_def hm_get_def hm_wf_def dest: map_of_SomeD)

lemma distinct_hm_values: "hm_wf key m \<Longrightarrow> distinct (hm_values m)"
  by (induction m) (force simp: hm_values_def hm_wf_def)+

lemma set_hm_values: "hm_wf key m \<Longrightarrow> set (hm_values m) = ran (hm_get m)"
  by (auto simp: hm_values_iff ran_def dest: hm_get_key)

lemma finite_ran_hm_get: "finite (ran (hm_get m))"
  by (simp add: hm_get_def [abs_def] ran_map_of)

lemma hm_count:
  assumes "hm_wf key m"
  shows "length (filter P (hm_values m)) = card {v \<in> ran (hm_get m). P v}"
  using distinct_length_filter [OF distinct_hm_values [OF assms], of P]
  by (simp add: set_hm_values [OF assms] Collect_conj_eq Int_commute)

lemma hm_retain_length:
  assumes wf: "hm_wf key m"
  shows "length m - length (hm_retain (\<lambda>k v. P v) m) = card {v \<in> ran (hm_get m). \<not> P v}"
proof -
  have "length m - length (hm_retain (\<lambda>k v. P v) m) = length (filter (\<lambda>v. \<not> P v) (hm_values m))"
    using sum_length_filter_compl [of "\<lambda>kv. P (snd kv)" m]
    by (simp add: hm_retain_def hm_values_def filter_map comp_def split_def)
  with hm_count [OF wf] show ?thesis by metis
qed

end
