(* ===== verification/Config.thy ===== *)
theory Config
  imports Prelude
begin

text \<open>
  \<open>config.rs\<close>: everything \<open>main\<close> reads from the environment. \<open>lookup\<close> is the environment as a
  function; unset is \<open>None\<close>. Numbers are parsed as \<open>str::parse\<close> does for an unsigned type: an
  optional plus sign, decimal digits, no overflow.
\<close>

section \<open>Numbers\<close>

definition is_digit :: "nat \<Rightarrow> bool" where
  "is_digit c \<longleftrightarrow> 48 \<le> c \<and> c \<le> 57"

definition digits_value :: "rstr \<Rightarrow> nat" where
  "digits_value ds = foldl (\<lambda>acc c. acc * 10 + (c - 48)) 0 ds"

definition parse_uint :: "nat \<Rightarrow> rstr \<Rightarrow> nat option" where
  "parse_uint largest s =
     (let ds = (case s of c # d # rest \<Rightarrow> if c = 43 then d # rest else s | _ \<Rightarrow> s) in
      if ds \<noteq> [] \<and> list_all is_digit ds \<and> digits_value ds \<le> largest then Some (digits_value ds)
      else None)"

lemma digits_value_snoc: "digits_value (ds @ [c]) = digits_value ds * 10 + (c - 48)"
  by (simp add: digits_value_def)

lemma show_nat_digits: "show_nat n \<noteq> [] \<and> list_all is_digit (show_nat n) \<and> digits_value (show_nat n) = n"
proof (induction n rule: show_nat.induct)
  case (1 n)
  show ?case
  proof (cases "n < 10")
    case True
    then show ?thesis by (simp add: show_nat.simps [of n] is_digit_def digits_value_def)
  next
    case False
    then have step: "show_nat n = show_nat (n div 10) @ [48 + n mod 10]"
      by (simp add: show_nat.simps [of n])
    have "is_digit (48 + n mod 10)" by (simp add: is_digit_def)
    with 1 False show ?thesis unfolding step digits_value_snoc by simp
  qed
qed

lemma parse_uint_show: "n \<le> largest \<Longrightarrow> parse_uint largest (show_nat n) = Some n"
proof -
  assume le: "n \<le> largest"
  have "(case show_nat n of c # d # rest \<Rightarrow> if c = 43 then d # rest else show_nat n
      | _ \<Rightarrow> show_nat n) = show_nat n"
    using show_nat_digits [of n] by (auto simp: is_digit_def split: list.splits)
  with le show ?thesis using show_nat_digits [of n] by (simp add: parse_uint_def)
qed

lemma parse_uint_le: "parse_uint largest s = Some n \<Longrightarrow> n \<le> largest"
  by (auto simp: parse_uint_def Let_def split: if_splits)

section \<open>Required variables\<close>

type_synonym env = "rstr \<Rightarrow> rstr option"

definition PLACEHOLDERS :: "rstr list" where
  "PLACEHOLDERS = [lit ''change-me'', lit ''insecure-dev-secret'']"

definition missing_required :: "rstr list \<Rightarrow> env \<Rightarrow> rstr list" where
  "missing_required names lookup =
     filter (\<lambda>name. \<not> (case lookup name of None \<Rightarrow> False
                       | Some v \<Rightarrow> v \<noteq> [] \<and> v \<notin> set PLACEHOLDERS)) names"

definition REQUIRED_IN_PRODUCTION :: "rstr list" where
  "REQUIRED_IN_PRODUCTION =
     [lit ''JWT_SECRET'', lit ''INTERNAL_API_TOKEN'', lit ''DATABASE_URL'', lit ''AGENT_API_URL'']"

section \<open>The configuration\<close>

record smtp_config =
  sm_host :: rstr
  sm_port :: nat
  sm_username :: rstr
  sm_password :: rstr
  sm_from :: rstr

record rate_limit_config =
  rl_auth_per_minute :: nat
  rl_api_per_minute :: nat
  rl_login_per_minute :: nat
  rl_redis_url :: "rstr option"

definition rate_limit_config_default :: rate_limit_config where
  "rate_limit_config_default =
     \<lparr>rl_auth_per_minute = 10, rl_api_per_minute = 120, rl_login_per_minute = 10, rl_redis_url = None\<rparr>"

record app_config =
  ac_jwt_secret :: rstr
  ac_internal_token :: rstr
  ac_agent_api_url :: "rstr option"
  ac_database_url :: "rstr option"
  ac_job_timeout_minutes :: nat
  ac_database_max_connections :: nat
  ac_scheduler_tick_seconds :: nat
  ac_daily_search_quota :: nat
  ac_rate_limits :: rate_limit_config
  ac_refresh_token_days :: int
  ac_bind_addr :: rstr
  ac_digest_signing_secret :: "rstr option"
  ac_digest_allow_private_webhooks :: bool
  ac_security_event_retention_days :: int
  ac_data_retention_days :: int
  ac_smtp :: "smtp_config option"
  ac_warnings :: "rstr list"

definition env_get :: "env \<Rightarrow> rstr \<Rightarrow> rstr option" where
  "env_get lookup name =
     (case lookup name of None \<Rightarrow> None | Some v \<Rightarrow> if v = [] then None else Some v)"

definition u32_max :: nat where "u32_max = 4294967295"
definition u16_max :: nat where "u16_max = 65535"

definition get_u32 :: "env \<Rightarrow> rstr \<Rightarrow> nat \<Rightarrow> nat" where
  "get_u32 lookup name dflt =
     (case Option.bind (env_get lookup name) (parse_uint u32_max) of None \<Rightarrow> dflt | Some n \<Rightarrow> n)"

definition unwrap_or :: "rstr option \<Rightarrow> rstr \<Rightarrow> rstr" where
  "unwrap_or x dflt = (case x of None \<Rightarrow> dflt | Some v \<Rightarrow> v)"

definition too_short :: "rstr \<Rightarrow> bool" where
  "too_short v \<longleftrightarrow> byte_len v < 32 \<and> v \<notin> set PLACEHOLDERS"

definition smtp_of :: "env \<Rightarrow> smtp_config option" where
  "smtp_of lookup =
     (case (env_get lookup (lit ''SMTP_HOST''), env_get lookup (lit ''SMTP_FROM'')) of
        (Some host, Some sender) \<Rightarrow>
          Some \<lparr>sm_host = host,
                sm_port = (case Option.bind (env_get lookup (lit ''SMTP_PORT'')) (parse_uint u16_max) of
                             None \<Rightarrow> 587 | Some p \<Rightarrow> p),
                sm_username = unwrap_or (env_get lookup (lit ''SMTP_USERNAME'')) [],
                sm_password = unwrap_or (env_get lookup (lit ''SMTP_PASSWORD'')) [],
                sm_from = sender\<rparr>
      | _ \<Rightarrow> None)"

text \<open>The warnings are texts of the log; each is represented by the condition that pushes it.\<close>

definition config_warnings :: "env \<Rightarrow> rstr \<Rightarrow> rstr \<Rightarrow> rstr list" where
  "config_warnings lookup jwt_secret internal_token =
     (if env_get lookup (lit ''JWT_SECRET'') = None
      then [lit ''JWT_SECRET not set, using an insecure development default''] else []) @
     (if env_get lookup (lit ''AGENT_API_URL'') = None
      then [lit ''AGENT_API_URL not set, jobs will not be dispatched (noop)''] else []) @
     (if env_get lookup (lit ''DATABASE_URL'') = None
      then [lit ''DATABASE_URL not set, using in-memory persistence (data lost on restart)''] else []) @
     (if too_short jwt_secret
      then [lit ''JWT_SECRET is shorter than 32 characters '' @ [0x2014] @ lit '' use a long, random value'']
      else []) @
     (if too_short internal_token
      then [lit ''INTERNAL_API_TOKEN is shorter than 32 characters '' @ [0x2014] @
            lit '' use a long, random value''] else []) @
     (if env_get lookup (lit ''SMTP_HOST'') \<noteq> None \<and> env_get lookup (lit ''SMTP_FROM'') = None
      then [lit ''SMTP_HOST set but SMTP_FROM missing '' @ [0x2014] @ lit '' email channel disabled'']
      else [])"

definition from_lookup :: "env \<Rightarrow> rstr list + app_config" where
  "from_lookup lookup =
     (let missing = missing_required REQUIRED_IN_PRODUCTION lookup in
      if lookup (lit ''APP_ENV'') = Some (lit ''production'') \<and> missing \<noteq> [] then Inl missing
      else
        let jwt_secret = unwrap_or (env_get lookup (lit ''JWT_SECRET'')) (lit ''insecure-dev-secret'');
            internal_token = unwrap_or (env_get lookup (lit ''INTERNAL_API_TOKEN'')) (lit ''change-me'') in
        Inr
          \<lparr>ac_jwt_secret = jwt_secret,
           ac_internal_token = internal_token,
           ac_agent_api_url = env_get lookup (lit ''AGENT_API_URL''),
           ac_database_url = env_get lookup (lit ''DATABASE_URL''),
           ac_job_timeout_minutes = get_u32 lookup (lit ''JOB_TIMEOUT_MINUTES'') 15,
           ac_database_max_connections = max (get_u32 lookup (lit ''DATABASE_MAX_CONNECTIONS'') 10) 1,
           ac_scheduler_tick_seconds = max (get_u32 lookup (lit ''SCHEDULER_TICK_SECONDS'') 60) 1,
           ac_daily_search_quota = get_u32 lookup (lit ''DAILY_SEARCH_QUOTA'') 20,
           ac_rate_limits =
             \<lparr>rl_auth_per_minute = get_u32 lookup (lit ''RATE_LIMIT_AUTH_PER_MINUTE'') 10,
              rl_api_per_minute = get_u32 lookup (lit ''RATE_LIMIT_API_PER_MINUTE'') 120,
              rl_login_per_minute = get_u32 lookup (lit ''LOGIN_MAX_ATTEMPTS_PER_MINUTE'') 10,
              rl_redis_url = env_get lookup (lit ''RATE_LIMIT_REDIS_URL'')\<rparr>,
           ac_refresh_token_days = int (get_u32 lookup (lit ''REFRESH_TOKEN_DAYS'') 30),
           ac_bind_addr = unwrap_or (env_get lookup (lit ''BIND_ADDR'')) (lit ''0.0.0.0:8000''),
           ac_digest_signing_secret = env_get lookup (lit ''DIGEST_SIGNING_SECRET''),
           ac_digest_allow_private_webhooks =
             (env_get lookup (lit ''DIGEST_ALLOW_PRIVATE_WEBHOOKS'') = Some (lit ''true'')),
           ac_security_event_retention_days =
             int (get_u32 lookup (lit ''SECURITY_EVENT_RETENTION_DAYS'') 90),
           ac_data_retention_days = int (get_u32 lookup (lit ''DATA_RETENTION_DAYS'') 0),
           ac_smtp = smtp_of lookup,
           ac_warnings = config_warnings lookup jwt_secret internal_token\<rparr>)"

section \<open>What a configuration promises\<close>

definition usable :: "env \<Rightarrow> rstr \<Rightarrow> bool" where
  "usable lookup name \<longleftrightarrow> (\<exists>v. lookup name = Some v \<and> v \<noteq> [] \<and> v \<notin> set PLACEHOLDERS)"

lemma missing_required_iff:
  "name \<in> set (missing_required names lookup) \<longleftrightarrow> name \<in> set names \<and> \<not> usable lookup name"
  by (auto simp: missing_required_def usable_def split: option.splits)

lemma get_u32_le: "dflt \<le> u32_max \<Longrightarrow> get_u32 lookup name dflt \<le> u32_max"
  by (auto simp: get_u32_def bind_eq_Some_conv split: option.splits dest: parse_uint_le)

lemma from_lookup_Inl:
  "from_lookup lookup = Inl missing \<longleftrightarrow>
     lookup (lit ''APP_ENV'') = Some (lit ''production'') \<and> missing \<noteq> [] \<and>
     missing = missing_required REQUIRED_IN_PRODUCTION lookup"
  by (auto simp: from_lookup_def Let_def)

lemma from_lookup_production:
  assumes "lookup (lit ''APP_ENV'') = Some (lit ''production'')" and "from_lookup lookup = Inr c"
  shows "\<forall>name \<in> set REQUIRED_IN_PRODUCTION. usable lookup name"
    and "Some (ac_jwt_secret c) = lookup (lit ''JWT_SECRET'')"
    and "Some (ac_internal_token c) = lookup (lit ''INTERNAL_API_TOKEN'')"
    and "ac_database_url c = lookup (lit ''DATABASE_URL'')"
    and "ac_agent_api_url c = lookup (lit ''AGENT_API_URL'')"
proof -
  have none: "missing_required REQUIRED_IN_PRODUCTION lookup = []"
    using assms by (auto simp: from_lookup_def Let_def split: if_splits)
  then show use: "\<forall>name \<in> set REQUIRED_IN_PRODUCTION. usable lookup name"
    using missing_required_iff [of _ REQUIRED_IN_PRODUCTION lookup] by auto
  have get: "env_get lookup name = lookup name" if "name \<in> set REQUIRED_IN_PRODUCTION" for name
    using use that by (auto simp: usable_def env_get_def)
  have c: "ac_jwt_secret c = unwrap_or (env_get lookup (lit ''JWT_SECRET'')) (lit ''insecure-dev-secret'')"
    "ac_internal_token c = unwrap_or (env_get lookup (lit ''INTERNAL_API_TOKEN'')) (lit ''change-me'')"
    "ac_database_url c = env_get lookup (lit ''DATABASE_URL'')"
    "ac_agent_api_url c = env_get lookup (lit ''AGENT_API_URL'')"
    using assms none by (auto simp: from_lookup_def Let_def)
  have req: "lit ''JWT_SECRET'' \<in> set REQUIRED_IN_PRODUCTION"
    "lit ''INTERNAL_API_TOKEN'' \<in> set REQUIRED_IN_PRODUCTION"
    "lit ''DATABASE_URL'' \<in> set REQUIRED_IN_PRODUCTION"
    "lit ''AGENT_API_URL'' \<in> set REQUIRED_IN_PRODUCTION"
    by (simp_all add: REQUIRED_IN_PRODUCTION_def)
  have some: "Some (unwrap_or (env_get lookup name) v) = lookup name"
    if "name \<in> set REQUIRED_IN_PRODUCTION" for name v
  proof -
    from use that obtain x where "lookup name = Some x" by (auto simp: usable_def)
    then show ?thesis unfolding get [OF that] by (simp add: unwrap_or_def)
  qed
  show "Some (ac_jwt_secret c) = lookup (lit ''JWT_SECRET'')" unfolding c(1) by (rule some [OF req(1)])
  show "Some (ac_internal_token c) = lookup (lit ''INTERNAL_API_TOKEN'')"
    unfolding c(2) by (rule some [OF req(2)])
  show "ac_database_url c = lookup (lit ''DATABASE_URL'')" unfolding c(3) by (rule get [OF req(3)])
  show "ac_agent_api_url c = lookup (lit ''AGENT_API_URL'')" unfolding c(4) by (rule get [OF req(4)])
qed

lemma from_lookup_bounds:
  assumes "from_lookup lookup = Inr c"
  shows "1 \<le> ac_database_max_connections c" and "1 \<le> ac_scheduler_tick_seconds c"
    and "ac_daily_search_quota c \<le> u32_max" and "ac_job_timeout_minutes c \<le> u32_max"
    and "0 \<le> ac_data_retention_days c" and "0 \<le> ac_security_event_retention_days c"
  using assms get_u32_le
  by (auto simp: from_lookup_def Let_def u32_max_def split: if_splits)

end
