(* ===== verification/Effects.thy ===== *)
theory Effects
  imports Prelude
begin

text \<open>
  Programs with a state and an error channel. An \<open>async fn\<close> returning \<open>Result<T, E>\<close> is a
  function from the state to a result and the state it leaves behind: what was written before
  an error stays written. \<open>io_bind\<close> is sequencing with the early return of \<open>?\<close>,
  \<open>io_lift From\<close> the conversion \<open>?\<close> applies to the error, and \<open>io_result\<close> hands the
  \<open>Result\<close> itself to the caller, for \<open>match\<close> and \<open>if let Err\<close>.

  \<open>sat invar \<alpha> m w Q\<close>: started in any state that satisfies \<open>invar\<close> and whose abstraction is
  \<open>w\<close>, the program \<open>m\<close> ends in a state that satisfies \<open>invar\<close>, with a result and an
  abstraction that satisfy \<open>Q\<close>. \<open>port_spec\<close> is the form in which an interface promises
  something about one of its operations: on success the relation \<open>R\<close> holds between the
  abstract states, on an error nothing has changed.
\<close>

type_synonym ('s, 'e, 'a) io = "'s \<Rightarrow> ('e + 'a) \<times> 's"

definition io_ret :: "'a \<Rightarrow> ('s, 'e, 'a) io" where
  "io_ret x s = (Inr x, s)"

definition io_throw :: "'e \<Rightarrow> ('s, 'e, 'a) io" where
  "io_throw e s = (Inl e, s)"

definition io_bind :: "('s, 'e, 'a) io \<Rightarrow> ('a \<Rightarrow> ('s, 'e, 'b) io) \<Rightarrow> ('s, 'e, 'b) io" where
  "io_bind m f s = (case m s of (Inl e, s') \<Rightarrow> (Inl e, s') | (Inr x, s') \<Rightarrow> f x s')"

definition io_lift :: "('d \<Rightarrow> 'e) \<Rightarrow> ('s, 'd, 'a) io \<Rightarrow> ('s, 'e, 'a) io" where
  "io_lift conv m s = (case m s of (Inl e, s') \<Rightarrow> (Inl (conv e), s') | (Inr x, s') \<Rightarrow> (Inr x, s'))"

definition io_result :: "('s, 'd, 'a) io \<Rightarrow> ('s, 'e, 'd + 'a) io" where
  "io_result m s = (case m s of (r, s') \<Rightarrow> (Inr r, s'))"

definition io_of :: "'e + 'a \<Rightarrow> ('s, 'e, 'a) io" where
  "io_of r s = (r, s)"

lemmas io_defs = io_ret_def io_throw_def io_bind_def io_lift_def io_result_def io_of_def

lemma io_bind_ret [simp]: "io_bind (io_ret x) f = f x"
  by (rule ext) (simp add: io_defs)

lemma io_bind_throw [simp]: "io_bind (io_throw e) f = io_throw e"
  by (rule ext) (simp add: io_defs)

lemma io_bind_assoc: "io_bind (io_bind m f) g = io_bind m (\<lambda>x. io_bind (f x) g)"
  by (rule ext) (auto simp: io_defs split: prod.splits sum.splits)

definition sat ::
  "('s \<Rightarrow> bool) \<Rightarrow> ('s \<Rightarrow> 'w) \<Rightarrow> ('s, 'e, 'a) io \<Rightarrow> 'w \<Rightarrow> ('e + 'a \<Rightarrow> 'w \<Rightarrow> bool) \<Rightarrow> bool"
  where
  "sat invar \<alpha> m w Q \<longleftrightarrow>
     (\<forall>s. invar s \<longrightarrow> \<alpha> s = w \<longrightarrow> (case m s of (r, s') \<Rightarrow> invar s' \<and> Q r (\<alpha> s')))"

definition port_spec ::
  "('s \<Rightarrow> bool) \<Rightarrow> ('s \<Rightarrow> 'w) \<Rightarrow> ('s, 'e, 'a) io \<Rightarrow> ('w \<Rightarrow> 'a \<Rightarrow> 'w \<Rightarrow> bool) \<Rightarrow> bool" where
  "port_spec invar \<alpha> m R \<longleftrightarrow>
     (\<forall>s. invar s \<longrightarrow>
        (case m s of
           (Inr x, s') \<Rightarrow> invar s' \<and> R (\<alpha> s) x (\<alpha> s')
         | (Inl e, s') \<Rightarrow> invar s' \<and> \<alpha> s' = \<alpha> s))"

lemma satI:
  assumes "\<And>s r s'. invar s \<Longrightarrow> \<alpha> s = w \<Longrightarrow> m s = (r, s') \<Longrightarrow> invar s' \<and> Q r (\<alpha> s')"
  shows "sat invar \<alpha> m w Q"
  unfolding sat_def by (simp add: assms split: prod.splits)

lemma satD:
  assumes "sat invar \<alpha> m w Q" and "invar s" and "\<alpha> s = w" and "m s = (r, s')"
  shows "invar s' \<and> Q r (\<alpha> s')"
  using assms(1) [unfolded sat_def, rule_format, OF assms(2,3)] assms(4) by simp

lemma port_specD:
  assumes "port_spec invar \<alpha> m R" and "invar s" and "m s = (r, s')"
  shows "invar s' \<and> (case r of Inl e \<Rightarrow> \<alpha> s' = \<alpha> s | Inr x \<Rightarrow> R (\<alpha> s) x (\<alpha> s'))"
  using assms(1) [unfolded port_spec_def, rule_format, OF assms(2)] assms(3)
  by (cases r) simp_all

lemma port_spec_conseq:
  assumes "port_spec invar \<alpha> m R" and "\<And>w x w'. R w x w' \<Longrightarrow> R' w x w'"
  shows "port_spec invar \<alpha> m R'"
  unfolding port_spec_def
  using assms by (fastforce simp: port_spec_def split: prod.splits sum.splits)

lemma sat_run:
  assumes "sat invar \<alpha> m (\<alpha> s) Q" and "invar s"
  shows "invar (snd (m s)) \<and> Q (fst (m s)) (\<alpha> (snd (m s)))"
  using satD [OF assms(1,2) refl] by (cases "m s") simp

lemma sat_case:
  "sat invar \<alpha> m (\<alpha> s) Q \<Longrightarrow> invar s \<Longrightarrow> case m s of (r, s') \<Rightarrow> invar s' \<and> Q r (\<alpha> s')"
  by (simp add: sat_def)

lemma sat_conseq:
  assumes "sat invar \<alpha> m w Q" and "\<And>r w'. Q r w' \<Longrightarrow> Q' r w'"
  shows "sat invar \<alpha> m w Q'"
  by (rule satI) (use assms in \<open>blast dest: satD\<close>)

lemma sat_assume: "(\<And>s. invar s \<Longrightarrow> \<alpha> s = w \<Longrightarrow> sat invar \<alpha> m w Q) \<Longrightarrow> sat invar \<alpha> m w Q"
  by (rule satI) (rule satD)

lemma sat_ret [sat_intros]: "Q (Inr x) w \<Longrightarrow> sat invar \<alpha> (io_ret x) w Q"
  by (simp add: sat_def io_ret_def)

lemma sat_throw [sat_intros]: "Q (Inl e) w \<Longrightarrow> sat invar \<alpha> (io_throw e) w Q"
  by (simp add: sat_def io_throw_def)

lemma sat_of [sat_intros]: "Q r w \<Longrightarrow> sat invar \<alpha> (io_of r) w Q"
  by (simp add: sat_def io_of_def)

lemma sat_bind [sat_intros]:
  assumes "sat invar \<alpha> m w
    (\<lambda>r w'. case r of Inl e \<Rightarrow> Q (Inl e) w' | Inr x \<Rightarrow> sat invar \<alpha> (f x) w' Q)"
  shows "sat invar \<alpha> (io_bind m f) w Q"
proof (rule satI)
  fix s r s'
  assume s: "invar s" "\<alpha> s = w" and run: "io_bind m f s = (r, s')"
  obtain r1 s1 where m: "m s = (r1, s1)" by fastforce
  from satD [OF assms s m] run m show "invar s' \<and> Q r (\<alpha> s')"
    by (cases r1) (auto simp: io_bind_def dest: satD)
qed

lemma sat_lift [sat_intros]:
  assumes "sat invar \<alpha> m w (\<lambda>r w'. case r of Inl e \<Rightarrow> Q (Inl (conv e)) w' | Inr x \<Rightarrow> Q (Inr x) w')"
  shows "sat invar \<alpha> (io_lift conv m) w Q"
proof (rule satI)
  fix s r s'
  assume s: "invar s" "\<alpha> s = w" and run: "io_lift conv m s = (r, s')"
  obtain r1 s1 where m: "m s = (r1, s1)" by fastforce
  from satD [OF assms s m] run m show "invar s' \<and> Q r (\<alpha> s')"
    by (cases r1) (auto simp: io_lift_def)
qed

lemma sat_result [sat_intros]:
  fixes m :: "('s, 'd, 'a) io" and Q :: "'e + ('d + 'a) \<Rightarrow> 'w \<Rightarrow> bool"
  assumes "sat invar \<alpha> m w (\<lambda>r w'. Q (Inr r) w')"
  shows "sat invar \<alpha> (io_result m) w Q"
proof (rule satI)
  fix s s' and r :: "'e + ('d + 'a)"
  assume s: "invar s" "\<alpha> s = w" and run: "io_result m s = (r, s')"
  obtain r1 s1 where m: "m s = (r1, s1)" by fastforce
  with run have "r = Inr r1" and "s' = s1" by (simp_all add: io_result_def)
  with satD [OF assms s m] show "invar s' \<and> Q r (\<alpha> s')" by simp
qed

lemma sat_if [sat_intros]:
  "(b \<Longrightarrow> sat invar \<alpha> m w Q) \<Longrightarrow> (\<not> b \<Longrightarrow> sat invar \<alpha> n w Q) \<Longrightarrow>
   sat invar \<alpha> (if b then m else n) w Q"
  by simp

lemma sat_option [sat_intros]:
  "(x = None \<Longrightarrow> sat invar \<alpha> m w Q) \<Longrightarrow> (\<And>y. x = Some y \<Longrightarrow> sat invar \<alpha> (f y) w Q) \<Longrightarrow>
   sat invar \<alpha> (case x of None \<Rightarrow> m | Some y \<Rightarrow> f y) w Q"
  by (cases x) auto

lemma sat_sum [sat_intros]:
  "(\<And>e. x = Inl e \<Longrightarrow> sat invar \<alpha> (g e) w Q) \<Longrightarrow> (\<And>y. x = Inr y \<Longrightarrow> sat invar \<alpha> (f y) w Q) \<Longrightarrow>
   sat invar \<alpha> (case x of Inl e \<Rightarrow> g e | Inr y \<Rightarrow> f y) w Q"
  by (cases x) auto

lemma sat_port:
  assumes "port_spec invar \<alpha> m R"
    and "\<And>x w'. R w x w' \<Longrightarrow> Q (Inr x) w'"
    and "\<And>e. Q (Inl e) w"
  shows "sat invar \<alpha> m w Q"
proof (rule satI)
  fix s r s'
  assume s: "invar s" "\<alpha> s = w" and run: "m s = (r, s')"
  from port_specD [OF assms(1) s(1) run] s(2) assms(2,3) show "invar s' \<and> Q r (\<alpha> s')"
    by (cases r) auto
qed

text \<open>Sequencing steps: one port operation, a fallible pure step, a call whose result is inspected.\<close>

lemma sat_bind_port:
  assumes "port_spec invar \<alpha> m R"
    and "\<And>e. Q (Inl e) w"
    and "\<And>x w'. R w x w' \<Longrightarrow> sat invar \<alpha> (f x) w' Q"
  shows "sat invar \<alpha> (io_bind m f) w Q"
  by (rule sat_bind, rule sat_port [OF assms(1)]) (simp_all add: assms(2,3))

lemma sat_lift_port:
  assumes "port_spec invar \<alpha> m R"
    and "\<And>e. Q (Inl (conv e)) w"
    and "\<And>x w'. R w x w' \<Longrightarrow> Q (Inr x) w'"
  shows "sat invar \<alpha> (io_lift conv m) w Q"
  by (rule sat_lift, rule sat_port [OF assms(1)]) (simp_all add: assms(2,3))

lemma sat_bind_lift_port:
  assumes "port_spec invar \<alpha> m R"
    and "\<And>e. Q (Inl (conv e)) w"
    and "\<And>x w'. R w x w' \<Longrightarrow> sat invar \<alpha> (f x) w' Q"
  shows "sat invar \<alpha> (io_bind (io_lift conv m) f) w Q"
  by (rule sat_bind, rule sat_lift_port [OF assms(1)]) (simp_all add: assms(2,3))

lemma sat_bind_result_port:
  assumes "port_spec invar \<alpha> m R"
    and "\<And>e. sat invar \<alpha> (f (Inl e)) w Q"
    and "\<And>x w'. R w x w' \<Longrightarrow> sat invar \<alpha> (f (Inr x)) w' Q"
  shows "sat invar \<alpha> (io_bind (io_result m) f) w Q"
  by (rule sat_bind, rule sat_result, rule sat_port [OF assms(1)]) (simp_all add: assms(2,3))

lemma sat_bind_lift_of:
  assumes "\<And>e. r = Inl e \<Longrightarrow> Q (Inl (conv e)) w"
    and "\<And>x. r = Inr x \<Longrightarrow> sat invar \<alpha> (f x) w Q"
  shows "sat invar \<alpha> (io_bind (io_lift conv (io_of r)) f) w Q"
  by (rule sat_bind, rule sat_lift, rule sat_of) (cases r; simp add: assms)

lemma sat_bind_of:
  assumes "\<And>e. r = Inl e \<Longrightarrow> Q (Inl e) w"
    and "\<And>x. r = Inr x \<Longrightarrow> sat invar \<alpha> (f x) w Q"
  shows "sat invar \<alpha> (io_bind (io_of r) f) w Q"
  by (rule sat_bind, rule sat_of) (cases r; simp add: assms)

lemmas sat_flow = sat_bind_lift_of sat_bind_of sat_if sat_option sat_sum sat_ret sat_throw

lemma port_specI:
  assumes "\<And>s x s'. invar s \<Longrightarrow> m s = (Inr x, s') \<Longrightarrow> invar s' \<and> R (\<alpha> s) x (\<alpha> s')"
    and "\<And>s e s'. invar s \<Longrightarrow> m s = (Inl e, s') \<Longrightarrow> invar s' \<and> \<alpha> s' = \<alpha> s"
  shows "port_spec invar \<alpha> m R"
  unfolding port_spec_def
proof (intro allI impI)
  fix s
  assume s: "invar s"
  obtain r s' where m: "m s = (r, s')" by fastforce
  show "case m s of (Inl e, s') \<Rightarrow> invar s' \<and> \<alpha> s' = \<alpha> s
      | (Inr x, s') \<Rightarrow> invar s' \<and> R (\<alpha> s) x (\<alpha> s')"
    using assms [OF s] m by (cases r) simp_all
qed

text \<open>The error type of every port.\<close>

datatype port_error = PortError rstr

fun port_error_msg :: "port_error \<Rightarrow> rstr" where
  "port_error_msg (PortError m) = m"

type_synonym ('s, 'a) port = "('s, port_error, 'a) io"

type_synonym uuid = "128 word"

text \<open>
  What the program calls in libraries that are not part of the repository: the Unicode
  lowercase table for strings that are not ASCII, SHA-256 and the two textual forms of a UUID.
\<close>

record runtime =
  rt_lower :: "rstr \<Rightarrow> rstr"
  rt_sha256 :: "nat list \<Rightarrow> nat list"
  rt_uuid_display :: "uuid \<Rightarrow> rstr"
  rt_uuid_simple :: "uuid \<Rightarrow> rstr"

end
