(* ===== verification/Job.thy ===== *)
theory Job
  imports Effects
begin

text \<open>
  \<open>backend/src/domain/job.rs\<close>: a research job, its validation and its lifecycle
  \<open>pending -> running -> awaiting_input -> completed / failed\<close>. Every operation of the source
  is a definition; the lifecycle is also the step relation \<open>job_step\<close>, whose reachable jobs
  satisfy \<open>job_inv\<close>.
\<close>

section \<open>Data\<close>

datatype job_status = Pending | Running | AwaitingInput | Completed | Failed

datatype job_mode = Workflow | Agent

definition default_mode :: job_mode where
  "default_mode = Workflow"

record agent_step =
  step_seq :: int
  step_kind :: rstr
  step_detail :: rstr
  step_reason :: rstr
  step_new_hits :: int

text \<open>
  Spend counters. \<open>i32\<close> and \<open>i64\<close> are words (addition wraps, as in a release build); an
  \<open>f64\<close> is its bit pattern and IEEE addition the parameter \<open>fadd\<close>.
\<close>

type_synonym f64 = "64 word"

record job_usage =
  llm_calls :: "32 word"
  llm_input_tokens :: "64 word"
  llm_output_tokens :: "64 word"
  search_calls :: "32 word"
  cost_usd :: f64

definition job_usage_default :: job_usage where
  "job_usage_default =
     \<lparr>llm_calls = 0, llm_input_tokens = 0, llm_output_tokens = 0, search_calls = 0, cost_usd = 0\<rparr>"

definition job_usage_add :: "(f64 \<Rightarrow> f64 \<Rightarrow> f64) \<Rightarrow> job_usage \<Rightarrow> job_usage \<Rightarrow> job_usage" where
  "job_usage_add fadd u v =
     \<lparr>llm_calls = llm_calls u + llm_calls v,
      llm_input_tokens = llm_input_tokens u + llm_input_tokens v,
      llm_output_tokens = llm_output_tokens u + llm_output_tokens v,
      search_calls = search_calls u + search_calls v,
      cost_usd = fadd (cost_usd u) (cost_usd v)\<rparr>"

definition MAX_KEYWORD_LEN :: nat where "MAX_KEYWORD_LEN = 200"
definition MAX_ANSWER_LEN :: nat where "MAX_ANSWER_LEN = 2000"

datatype job_error =
    EmptyKeyword
  | KeywordTooLong
  | InvalidInterval
  | InvalidWebhookUrl
  | WebhookUrlTooLong
  | EmptyQuestion
  | EmptyAnswer
  | AnswerTooLong
  | NotAwaitingInput

fun job_error_msg :: "job_error \<Rightarrow> rstr" where
  "job_error_msg EmptyKeyword = lit ''keyword must not be empty''"
| "job_error_msg KeywordTooLong = lit ''keyword must be at most 200 characters''"
| "job_error_msg InvalidInterval = lit ''interval must be between 1 minute and 7 days''"
| "job_error_msg InvalidWebhookUrl = lit ''webhook url must start with http:// or https://''"
| "job_error_msg WebhookUrlTooLong = lit ''webhook url must be at most 2048 characters''"
| "job_error_msg EmptyQuestion = lit ''question must not be empty''"
| "job_error_msg EmptyAnswer = lit ''answer must not be empty''"
| "job_error_msg AnswerTooLong = lit ''answer must be at most 2000 characters''"
| "job_error_msg NotAwaitingInput = lit ''job is not awaiting input''"

record research_job =
  job_id :: uuid
  job_user_id :: uuid
  job_keyword :: rstr
  job_mode :: job_mode
  job_status :: job_status
  job_error :: "rstr option"
  job_question :: "rstr option"
  job_answer :: "rstr option"
  job_recurring_search_id :: "uuid option"
  job_usage :: job_usage
  job_created_at :: time
  job_completed_at :: "time option"

section \<open>Operations\<close>

text \<open>The fresh id and the instant \<open>Utc::now()\<close> returns are arguments.\<close>

definition research_job_new :: "uuid \<Rightarrow> time \<Rightarrow> uuid \<Rightarrow> rstr \<Rightarrow> job_error + research_job" where
  "research_job_new new_id now user_id keyword =
     (let keyword = trim keyword in
      if keyword = [] then Inl EmptyKeyword
      else if MAX_KEYWORD_LEN < length keyword then Inl KeywordTooLong
      else Inr
        \<lparr>job_id = new_id, job_user_id = user_id, job_keyword = keyword, job_mode = default_mode,
         job_status = Pending, job_error = None, job_question = None, job_answer = None,
         job_recurring_search_id = None, job_usage = job_usage_default,
         job_created_at = now_utc now, job_completed_at = None\<rparr>)"

definition with_mode :: "job_mode \<Rightarrow> research_job \<Rightarrow> research_job" where
  "with_mode m job = job\<lparr>job_mode := m\<rparr>"

definition with_recurring :: "uuid \<Rightarrow> research_job \<Rightarrow> research_job" where
  "with_recurring rs_id job = job\<lparr>job_recurring_search_id := Some rs_id\<rparr>"

definition job_start :: "research_job \<Rightarrow> research_job" where
  "job_start job = (if job_status job = Pending then job\<lparr>job_status := Running\<rparr> else job)"

definition job_complete :: "time \<Rightarrow> research_job \<Rightarrow> research_job" where
  "job_complete now job =
     job\<lparr>job_status := Completed, job_error := None, job_completed_at := Some (now_utc now)\<rparr>"

definition job_fail :: "time \<Rightarrow> rstr \<Rightarrow> research_job \<Rightarrow> research_job" where
  "job_fail now err job =
     (if job_status job = Completed then job
      else job\<lparr>job_status := Failed, job_error := Some err,
               job_completed_at := Some (now_utc now)\<rparr>)"

definition job_request_input :: "rstr \<Rightarrow> research_job \<Rightarrow> job_error + research_job" where
  "job_request_input question job =
     (let question = trim question in
      if question = [] then Inl EmptyQuestion
      else if job_status job = Running \<or> job_status job = Pending
      then Inr (job\<lparr>job_status := AwaitingInput, job_question := Some question\<rparr>)
      else Inr job)"

definition job_provide_answer :: "rstr \<Rightarrow> research_job \<Rightarrow> job_error + research_job" where
  "job_provide_answer answer job =
     (let answer = trim answer in
      if answer = [] then Inl EmptyAnswer
      else if MAX_ANSWER_LEN < length answer then Inl AnswerTooLong
      else if job_status job \<noteq> AwaitingInput then Inl NotAwaitingInput
      else Inr (job\<lparr>job_answer := Some answer, job_status := Pending\<rparr>))"

definition job_is_finished :: "research_job \<Rightarrow> bool" where
  "job_is_finished job \<longleftrightarrow> job_status job = Completed \<or> job_status job = Failed"

lemmas job_op_defs = research_job_new_def with_mode_def with_recurring_def job_start_def
  job_complete_def job_fail_def job_request_input_def job_provide_answer_def job_is_finished_def

section \<open>Validation\<close>

definition valid_keyword :: "rstr \<Rightarrow> bool" where
  "valid_keyword k \<longleftrightarrow> k \<noteq> [] \<and> length k \<le> MAX_KEYWORD_LEN \<and> trim k = k"

lemma research_job_new_Inr:
  "research_job_new i t u k = Inr job \<Longrightarrow>
   valid_keyword (trim k) \<and> job_id job = i \<and> job_user_id job = u \<and> job_keyword job = trim k \<and>
   job_mode job = Workflow \<and> job_status job = Pending \<and> job_error job = None \<and>
   job_question job = None \<and> job_answer job = None \<and> job_recurring_search_id job = None \<and>
   job_usage job = job_usage_default \<and> job_created_at job = now_utc t \<and>
   job_completed_at job = None"
  by (auto simp: research_job_new_def Let_def valid_keyword_def default_mode_def split: if_splits)

text \<open>
  A keyword is accepted exactly when its trimmed form has between 1 and 200 characters; a
  refusal says which bound was missed, and a saved keyword is accepted again unchanged.
\<close>

lemma research_job_new_accepts:
  "(\<exists>job. research_job_new i t u k = Inr job) \<longleftrightarrow> 1 \<le> length (trim k) \<and> length (trim k) \<le> 200"
  by (auto simp: research_job_new_def Let_def MAX_KEYWORD_LEN_def Suc_le_eq)

lemma research_job_new_again: "valid_keyword k \<Longrightarrow> \<exists>job. research_job_new i t u k = Inr job"
  by (simp add: research_job_new_def Let_def valid_keyword_def)

lemma research_job_new_errors:
  "research_job_new i t u k = Inl e \<Longrightarrow> e = EmptyKeyword \<or> e = KeywordTooLong"
  by (auto simp: research_job_new_def Let_def split: if_splits)

section \<open>Lifecycle\<close>

lemma job_request_input_Inr:
  "job_request_input q job = Inr job' \<longleftrightarrow>
   trim q \<noteq> [] \<and>
   job' = (if job_status job = Running \<or> job_status job = Pending
           then job\<lparr>job_status := AwaitingInput, job_question := Some (trim q)\<rparr> else job)"
  by (auto simp: job_request_input_def Let_def)

lemma job_provide_answer_Inr:
  "job_provide_answer a job = Inr job' \<longleftrightarrow>
   trim a \<noteq> [] \<and> length (trim a) \<le> MAX_ANSWER_LEN \<and> job_status job = AwaitingInput \<and>
   job' = job\<lparr>job_answer := Some (trim a), job_status := Pending\<rparr>"
  by (auto simp: job_provide_answer_def Let_def)

lemmas job_op_simps = job_request_input_Inr job_provide_answer_Inr job_start_def
  job_complete_def job_fail_def job_is_finished_def

text \<open>
  One rule per operation that changes a stored job. \<open>provide_answer\<close> and \<open>request_input\<close>
  contribute their successful runs only: on an error the caller keeps the old job.
\<close>

inductive job_step :: "research_job \<Rightarrow> research_job \<Rightarrow> bool" where
  start: "job_step job (job_start job)"
| complete: "job_step job (job_complete now job)"
| fail: "job_step job (job_fail now err job)"
| request: "job_request_input q job = Inr job' \<Longrightarrow> job_step job job'"
| answer: "job_provide_answer a job = Inr job' \<Longrightarrow> job_step job job'"
| usage: "job_step job (job\<lparr>job_usage := job_usage_add fadd (job_usage job) u\<rparr>)"

inductive_cases job_stepE: "job_step job job'"

inductive job_reachable :: "research_job \<Rightarrow> bool" where
  new: "research_job_new i t u k = Inr job \<Longrightarrow> job_reachable (with_mode m job)"
| new_recurring: "research_job_new i t u k = Inr job \<Longrightarrow>
     job_reachable (with_recurring rs (with_mode m job))"
| step: "job_reachable job \<Longrightarrow> job_step job job' \<Longrightarrow> job_reachable job'"

definition job_inv :: "research_job \<Rightarrow> bool" where
  "job_inv job \<longleftrightarrow>
     valid_keyword (job_keyword job) \<and>
     (job_completed_at job \<noteq> None \<longleftrightarrow> job_is_finished job) \<and>
     (job_error job \<noteq> None \<longleftrightarrow> job_status job = Failed) \<and>
     (job_status job = AwaitingInput \<longrightarrow> job_question job \<noteq> None) \<and>
     (job_answer job \<noteq> None \<longrightarrow> job_question job \<noteq> None) \<and>
     (\<forall>q. job_question job = Some q \<longrightarrow> q \<noteq> [] \<and> trim q = q) \<and>
     (\<forall>a. job_answer job = Some a \<longrightarrow> a \<noteq> [] \<and> trim a = a \<and> length a \<le> MAX_ANSWER_LEN)"

lemma job_inv_new:
  assumes "research_job_new i t u k = Inr job"
  shows "job_inv (with_mode m job)" and "job_inv (with_recurring rs (with_mode m job))"
  using research_job_new_Inr [OF assms]
  by (auto simp: job_inv_def with_mode_def with_recurring_def job_is_finished_def)

lemma job_start_inv: "job_inv job \<Longrightarrow> job_inv (job_start job)"
  by (simp add: job_inv_def job_start_def job_is_finished_def)

lemma job_complete_inv: "job_inv job \<Longrightarrow> job_inv (job_complete now job)"
  by (simp add: job_inv_def job_complete_def job_is_finished_def)

lemma job_fail_inv: "job_inv job \<Longrightarrow> job_inv (job_fail now err job)"
  by (simp add: job_inv_def job_fail_def job_is_finished_def)

lemma job_request_input_inv:
  "job_inv job \<Longrightarrow> job_request_input q job = Inr job' \<Longrightarrow> job_inv job'"
  by (simp add: job_inv_def job_op_simps split: if_splits)

lemma job_provide_answer_inv:
  "job_inv job \<Longrightarrow> job_provide_answer a job = Inr job' \<Longrightarrow> job_inv job'"
  by (simp add: job_inv_def job_op_simps)

lemma job_usage_inv: "job_inv job \<Longrightarrow> job_inv (job\<lparr>job_usage := v\<rparr>)"
  by (simp add: job_inv_def job_is_finished_def)

lemmas job_op_inv = job_usage_inv job_start_inv job_complete_inv job_fail_inv job_request_input_inv
  job_provide_answer_inv

lemma job_step_inv: "job_step job job' \<Longrightarrow> job_inv job \<Longrightarrow> job_inv job'"
  by (induction rule: job_step.induct) (blast intro: job_op_inv)+

lemma job_reachable_inv: "job_reachable job \<Longrightarrow> job_inv job"
  by (induction rule: job_reachable.induct) (blast intro: job_inv_new job_step_inv)+

text \<open>What no step changes, and what a step can do to the status.\<close>

lemma job_step_frame:
  "job_step job job' \<Longrightarrow>
   job_id job' = job_id job \<and> job_user_id job' = job_user_id job \<and>
   job_keyword job' = job_keyword job \<and> job_mode job' = job_mode job \<and>
   job_created_at job' = job_created_at job \<and>
   job_recurring_search_id job' = job_recurring_search_id job"
  by (induction rule: job_step.induct) (simp_all add: job_op_simps)

lemma job_step_status:
  "job_step job job' \<Longrightarrow>
   (job_status job, job_status job') \<in>
     {(s, s) | s. True} \<union> {(s, Completed) | s. True} \<union> {(s, Failed) | s. s \<noteq> Completed} \<union>
     {(Pending, Running), (Pending, AwaitingInput), (Running, AwaitingInput),
      (AwaitingInput, Pending)}"
  by (induction rule: job_step.induct) (simp_all add: job_op_simps)

lemma job_step_completed:
  "job_step job job' \<Longrightarrow> job_status job = Completed \<Longrightarrow> job_status job' = Completed"
  by (induction rule: job_step.induct) (simp_all add: job_op_simps)

lemma job_steps_completed:
  "job_step\<^sup>*\<^sup>* job job' \<Longrightarrow> job_status job = Completed \<Longrightarrow> job_status job' = Completed"
  by (induction rule: rtranclp_induct) (auto dest: job_step_completed)

lemma job_step_failed:
  "job_step job job' \<Longrightarrow> job_status job = Failed \<Longrightarrow> job_status job' = Failed \<or> job_status job' = Completed"
  by (induction rule: job_step.induct) (simp_all add: job_op_simps)

lemma job_steps_finished:
  "job_step\<^sup>*\<^sup>* job job' \<Longrightarrow> job_is_finished job \<Longrightarrow> job_is_finished job'"
  by (induction rule: rtranclp_induct)
    (auto simp: job_is_finished_def dest: job_step_completed job_step_failed)

lemma job_steps_reachable: "job_step\<^sup>*\<^sup>* job job' \<Longrightarrow> job_reachable job \<Longrightarrow> job_reachable job'"
  by (induction rule: rtranclp_induct) (auto intro: job_reachable.step)

end
