(* ===== verification/Search_Result.thy ===== *)
theory Search_Result
  imports Job
begin

text \<open>
  \<open>backend/src/domain/search_result.rs\<close>: what a run delivers and the timeline order. The raw
  provider payload is a \<open>serde_json::Value\<close>.
\<close>

datatype json =
    JNull
  | JBool bool
  | JInt int
  | JFloat f64
  | JString rstr
  | JArray "json list"
  | JObject "(rstr \<times> json) list"

datatype date_confidence = High | Medium | Unknown

datatype event_type =
    Announcement | Release | Funding | Legal | Incident | Research | Opinion | Other

record search_result =
  sr_title :: rstr
  sr_url :: rstr
  sr_snippet :: rstr
  sr_published_at :: "time option"
  sr_date_confidence :: date_confidence
  sr_event_type :: event_type
  sr_summary :: "rstr option"
  sr_is_new :: bool
  sr_raw :: json

definition default_true :: bool where
  "default_true = True"

definition sort_by_publication_date :: "search_result list \<Rightarrow> search_result list" where
  "sort_by_publication_date results = sort_key (\<lambda>r. Reverse (sr_published_at r)) results"

lemma sort_by_publication_date_desc:
  "sort_by_publication_date results = sort_desc sr_published_at results"
  by (simp add: sort_by_publication_date_def sort_desc_def)

definition dated :: "search_result \<Rightarrow> bool" where
  "dated r \<longleftrightarrow> sr_published_at r \<noteq> None"

text \<open>A list that is sorted newest first has its dated part in front.\<close>

lemma desc_dated_first:
  "sorted_wrt (\<lambda>x y. sr_published_at y \<le> sr_published_at x) xs \<Longrightarrow>
   xs = filter dated xs @ filter (\<lambda>r. \<not> dated r) xs"
proof (induction xs)
  case Nil
  then show ?case by simp
next
  case (Cons x xs)
  show ?case
  proof (cases "dated x")
    case True
    with Cons show ?thesis by simp
  next
    case False
    with Cons.prems have "\<forall>y \<in> set xs. \<not> dated y"
      by (auto simp: dated_def dest: less_eq_option_None_is_None)
    with False show ?thesis by (simp add: filter_empty_conv filter_id_conv)
  qed
qed

lemma sort_by_publication_date_split:
  "sort_by_publication_date rs =
     filter dated (sort_by_publication_date rs) @ filter (\<lambda>r. \<not> dated r) rs"
proof -
  let ?s = "sort_by_publication_date rs"
  have "?s = filter dated ?s @ filter (\<lambda>r. \<not> dated r) ?s"
    by (rule desc_dated_first) (simp add: sort_by_publication_date_desc sorted_sort_desc)
  moreover have "filter (\<lambda>r. \<not> dated r) ?s = filter (\<lambda>r. \<not> dated r) rs"
    using sort_desc_stable [of sr_published_at None rs]
    by (simp add: sort_by_publication_date_desc dated_def)
  ultimately show ?thesis by simp
qed

lemma sort_by_publication_date_idem [simp]:
  "sort_by_publication_date (sort_by_publication_date rs) = sort_by_publication_date rs"
  unfolding sort_by_publication_date_def by (rule sort_key_id_if_sorted) simp

end
