(* ===== verification/Accounts.thy ===== *)
theory Accounts
  imports Effects
begin

text \<open>
  \<open>domain/user.rs\<close>, \<open>domain/refresh_token.rs\<close> and \<open>domain/security_event.rs\<close>: accounts, the
  rotating refresh tokens of a login and the security audit events.
\<close>

section \<open>Users\<close>

record user =
  user_id :: uuid
  user_email :: rstr
  user_password_hash :: rstr
  user_created_at :: time

definition user_new :: "uuid \<Rightarrow> time \<Rightarrow> rstr \<Rightarrow> rstr \<Rightarrow> user" where
  "user_new new_id now email password_hash =
     \<lparr>user_id = new_id, user_email = email, user_password_hash = password_hash,
      user_created_at = now_utc now\<rparr>"

section \<open>Refresh tokens\<close>

record refresh_token =
  rt_id :: uuid
  rt_user_id :: uuid
  rt_family_id :: uuid
  rt_token_hash :: rstr
  rt_expires_at :: time
  rt_created_at :: time
  rt_consumed_at :: "time option"

text \<open>Lowercase hexadecimal of the SHA-256 digest of the UTF-8 bytes.\<close>

definition token_hash :: "runtime \<Rightarrow> rstr \<Rightarrow> rstr" where
  "token_hash R plaintext = concat (map hex_byte (rt_sha256 R (utf8 plaintext)))"

text \<open>
  Every \<open>Uuid::new_v4()\<close> and the clock reading that issuing a token makes, in the order of
  the source: the two halves of the plaintext, then the record's id.
\<close>

record token_draw =
  td_first :: uuid
  td_second :: uuid
  td_now :: time
  td_id :: uuid

definition token_plaintext :: "runtime \<Rightarrow> token_draw \<Rightarrow> rstr" where
  "token_plaintext R d = rt_uuid_simple R (td_first d) @ rt_uuid_simple R (td_second d)"

definition issue_in_family ::
  "runtime \<Rightarrow> token_draw \<Rightarrow> uuid \<Rightarrow> uuid \<Rightarrow> int \<Rightarrow> refresh_token \<times> rstr" where
  "issue_in_family R d user family ttl_days =
     (let plaintext = token_plaintext R d; now = now_utc (td_now d) in
      (\<lparr>rt_id = td_id d, rt_user_id = user, rt_family_id = family,
        rt_token_hash = token_hash R plaintext, rt_expires_at = now + days ttl_days,
        rt_created_at = now, rt_consumed_at = None\<rparr>, plaintext))"

definition issue :: "runtime \<Rightarrow> uuid \<Rightarrow> token_draw \<Rightarrow> uuid \<Rightarrow> int \<Rightarrow> refresh_token \<times> rstr" where
  "issue R new_family d user ttl_days = issue_in_family R d user new_family ttl_days"

definition is_consumed :: "refresh_token \<Rightarrow> bool" where
  "is_consumed t \<longleftrightarrow> rt_consumed_at t \<noteq> None"

definition is_expired :: "time \<Rightarrow> refresh_token \<Rightarrow> bool" where
  "is_expired now t \<longleftrightarrow> rt_expires_at t \<le> now"

lemma issue_in_family_fields:
  "issue_in_family R d u f ttl = (t, p) \<Longrightarrow>
   rt_id t = td_id d \<and> rt_user_id t = u \<and> rt_family_id t = f \<and> rt_token_hash t = token_hash R p \<and>
   p = token_plaintext R d \<and> \<not> is_consumed t \<and>
   (is_expired now t \<longleftrightarrow> now_utc (td_now d) + days ttl \<le> now)"
  by (auto simp: issue_in_family_def Let_def is_consumed_def is_expired_def)

text \<open>
  The stored hash identifies the plaintext as far as SHA-256 does: the hexadecimal rendering
  loses nothing.
\<close>

lemma token_hash_eq_iff:
  assumes "\<And>x. list_all (\<lambda>b. b < 256) (rt_sha256 R x)"
  shows "token_hash R p = token_hash R q \<longleftrightarrow> rt_sha256 R (utf8 p) = rt_sha256 R (utf8 q)"
  by (simp add: token_hash_def concat_hex_byte_inj assms)

section \<open>Security events\<close>

datatype security_event_kind = LoginFailed | LoginThrottled | RefreshReuseDetected | QuotaExceededEvent

fun security_kind_as_str :: "security_event_kind \<Rightarrow> rstr" where
  "security_kind_as_str LoginFailed = lit ''login_failed''"
| "security_kind_as_str LoginThrottled = lit ''login_throttled''"
| "security_kind_as_str RefreshReuseDetected = lit ''refresh_reuse_detected''"
| "security_kind_as_str QuotaExceededEvent = lit ''quota_exceeded''"

record security_event =
  se_id :: uuid
  se_kind :: rstr
  se_user_id :: "uuid option"
  se_client_ip :: "rstr option"
  se_detail :: rstr
  se_created_at :: time

definition security_event_new ::
  "uuid \<Rightarrow> time \<Rightarrow> security_event_kind \<Rightarrow> uuid option \<Rightarrow> rstr option \<Rightarrow> rstr \<Rightarrow> security_event" where
  "security_event_new new_id now kind user client_ip detail =
     \<lparr>se_id = new_id, se_kind = security_kind_as_str kind, se_user_id = user,
      se_client_ip = client_ip, se_detail = detail, se_created_at = now_utc now\<rparr>"

lemma security_kind_as_str_inj: "security_kind_as_str a = security_kind_as_str b \<longleftrightarrow> a = b"
  by (cases a; cases b) simp_all

end
