(* ===== verification/Recurring.thy ===== *)
theory Recurring
  imports Job
begin

text \<open>
  \<open>domain/recurring.rs\<close>: a saved keyword that the scheduler re-runs on an interval, with its
  optional digest webhook.
\<close>

definition MIN_INTERVAL_MINUTES :: nat where "MIN_INTERVAL_MINUTES = 1"
definition MAX_INTERVAL_MINUTES :: nat where "MAX_INTERVAL_MINUTES = 7 * 24 * 60"
definition MAX_WEBHOOK_URL_LEN :: nat where "MAX_WEBHOOK_URL_LEN = 2048"

record recurring_search =
  rs_id :: uuid
  rs_user_id :: uuid
  rs_keyword :: rstr
  rs_mode :: job_mode
  rs_interval_minutes :: "32 word"
  rs_webhook_url :: "rstr option"
  rs_created_at :: time
  rs_last_run_at :: "time option"

text \<open>The optional free text of a request: trimmed, and absent when nothing is left.\<close>

definition trimmed_option :: "rstr option \<Rightarrow> rstr option" where
  "trimmed_option x = (case x of None \<Rightarrow> None | Some s \<Rightarrow> if trim s = [] then None else Some (trim s))"

lemma trimmed_option_Some:
  "trimmed_option x = Some t \<longleftrightarrow> (\<exists>s. x = Some s \<and> t = trim s \<and> t \<noteq> [])"
  by (auto simp: trimmed_option_def split: option.splits)

definition webhook_of :: "rstr option \<Rightarrow> job_error + rstr option" where
  "webhook_of webhook_url =
     (case trimmed_option webhook_url of
        None \<Rightarrow> Inr None
      | Some url \<Rightarrow>
          if MAX_WEBHOOK_URL_LEN < length url then Inl WebhookUrlTooLong
          else if prefix (lit ''https://'') url \<or> prefix (lit ''http://'') url
          then Inr (Some url)
          else Inl InvalidWebhookUrl)"

definition recurring_search_new ::
  "uuid \<Rightarrow> time \<Rightarrow> uuid \<Rightarrow> rstr \<Rightarrow> job_mode \<Rightarrow> 32 word \<Rightarrow> rstr option \<Rightarrow> job_error + recurring_search"
  where
  "recurring_search_new new_id now user keyword mode interval webhook_url =
     (let keyword = trim keyword in
      if keyword = [] then Inl EmptyKeyword
      else if MAX_KEYWORD_LEN < length keyword then Inl KeywordTooLong
      else if \<not> (MIN_INTERVAL_MINUTES \<le> unat interval \<and> unat interval \<le> MAX_INTERVAL_MINUTES)
      then Inl InvalidInterval
      else case webhook_of webhook_url of
          Inl e \<Rightarrow> Inl e
        | Inr hook \<Rightarrow> Inr
            \<lparr>rs_id = new_id, rs_user_id = user, rs_keyword = keyword, rs_mode = mode,
             rs_interval_minutes = interval, rs_webhook_url = hook,
             rs_created_at = now_utc now, rs_last_run_at = None\<rparr>)"

definition is_due :: "time \<Rightarrow> recurring_search \<Rightarrow> bool" where
  "is_due now rs =
     (case rs_last_run_at rs of
        None \<Rightarrow> True
      | Some prev \<Rightarrow> prev + minutes (int (unat (rs_interval_minutes rs))) \<le> now)"

definition mark_ran :: "time \<Rightarrow> recurring_search \<Rightarrow> recurring_search" where
  "mark_ran at rs = rs\<lparr>rs_last_run_at := Some at\<rparr>"

definition valid_webhook :: "rstr \<Rightarrow> bool" where
  "valid_webhook u \<longleftrightarrow> trim u = u \<and> length u \<le> MAX_WEBHOOK_URL_LEN \<and>
     (prefix (lit ''https://'') u \<or> prefix (lit ''http://'') u)"

definition recurring_wf :: "recurring_search \<Rightarrow> bool" where
  "recurring_wf rs \<longleftrightarrow> valid_keyword (rs_keyword rs) \<and>
     1 \<le> unat (rs_interval_minutes rs) \<and> unat (rs_interval_minutes rs) \<le> 10080 \<and>
     (\<forall>u. rs_webhook_url rs = Some u \<longrightarrow> valid_webhook u)"

lemma webhook_of_Inr:
  "webhook_of w = Inr h \<Longrightarrow> (\<forall>u. h = Some u \<longrightarrow> valid_webhook u)"
  by (auto simp: webhook_of_def valid_webhook_def trimmed_option_Some
      split: option.splits if_splits)

lemma recurring_search_new_Inr:
  assumes "recurring_search_new i t u k m n w = Inr rs"
  shows "recurring_wf rs" and "rs_id rs = i" and "rs_user_id rs = u" and "rs_keyword rs = trim k"
    and "rs_mode rs = m" and "rs_interval_minutes rs = n" and "rs_last_run_at rs = None"
    and "rs_created_at rs = now_utc t"
  using assms
  by (auto simp: recurring_search_new_def Let_def recurring_wf_def valid_keyword_def
      MIN_INTERVAL_MINUTES_def MAX_INTERVAL_MINUTES_def split: if_splits sum.splits
      dest: webhook_of_Inr)

lemma mark_ran_wf: "recurring_wf rs \<Longrightarrow> recurring_wf (mark_ran t rs)"
  by (simp add: recurring_wf_def mark_ran_def)

lemma is_due_mark_ran:
  "is_due now (mark_ran t rs) \<longleftrightarrow> t + minutes (int (unat (rs_interval_minutes rs))) \<le> now"
  by (simp add: is_due_def mark_ran_def)

lemma is_due_mono: "is_due now rs \<Longrightarrow> now \<le> later \<Longrightarrow> is_due later rs"
  by (auto simp: is_due_def split: option.splits)

lemma minutes_pos: "1 \<le> n \<Longrightarrow> 0 < minutes (int n)"
  by (simp add: minutes_def second_def)

lemma not_due_after_mark_ran: "recurring_wf rs \<Longrightarrow> \<not> is_due t (mark_ran t rs)"
  using minutes_pos [of "unat (rs_interval_minutes rs)"]
  by (simp only: is_due_mark_ran recurring_wf_def) simp

end
