(* ===== verification/Channel.thy ===== *)
theory Channel
  imports Recurring
begin

text \<open>\<open>domain/notification_channel.rs\<close>: where a user receives digests.\<close>

definition MAX_TARGET_LEN :: nat where "MAX_TARGET_LEN = 2048"
definition MAX_SECRET_LEN :: nat where "MAX_SECRET_LEN = 512"

datatype channel_kind = Slack | Telegram | Email

fun channel_kind_as_str :: "channel_kind \<Rightarrow> rstr" where
  "channel_kind_as_str Slack = lit ''slack''"
| "channel_kind_as_str Telegram = lit ''telegram''"
| "channel_kind_as_str Email = lit ''email''"

definition channel_kind_parse :: "rstr \<Rightarrow> channel_kind option" where
  "channel_kind_parse v =
     (if v = lit ''slack'' then Some Slack
      else if v = lit ''telegram'' then Some Telegram
      else if v = lit ''email'' then Some Email
      else None)"

datatype channel_error =
    UnknownKind
  | EmptyTarget
  | TargetTooLong
  | SecretTooLong
  | InvalidSlackUrl
  | MissingTelegramToken
  | InvalidEmailTarget

fun channel_error_msg :: "channel_error \<Rightarrow> rstr" where
  "channel_error_msg UnknownKind = lit ''unknown channel kind''"
| "channel_error_msg EmptyTarget = lit ''target must not be empty''"
| "channel_error_msg TargetTooLong = lit ''target is too long''"
| "channel_error_msg SecretTooLong = lit ''secret is too long''"
| "channel_error_msg InvalidSlackUrl = lit ''slack target must be an https:// incoming webhook URL''"
| "channel_error_msg MissingTelegramToken = lit ''telegram requires a bot token''"
| "channel_error_msg InvalidEmailTarget = lit ''email target must be a valid address''"

record notification_channel =
  ch_id :: uuid
  ch_user_id :: uuid
  ch_kind :: channel_kind
  ch_target :: rstr
  ch_secret :: "rstr option"
  ch_created_at :: time

text \<open>The sanity check of an address: \<open>'@'\<close> is 64 and \<open>'.'\<close> is 46.\<close>

definition email_target_ok :: "rstr \<Rightarrow> bool" where
  "email_target_ok target =
     (case split_once 64 target of
        None \<Rightarrow> False
      | Some (local_part, domain) \<Rightarrow>
          local_part \<noteq> [] \<and> 46 \<in> set domain \<and> \<not> prefix [46] domain)"

definition kind_check :: "channel_kind \<Rightarrow> rstr \<Rightarrow> rstr option \<Rightarrow> channel_error option" where
  "kind_check kind target secret =
     (case kind of
        Slack \<Rightarrow> if \<not> prefix (lit ''https://'') target then Some InvalidSlackUrl else None
      | Telegram \<Rightarrow> if secret = None then Some MissingTelegramToken else None
      | Email \<Rightarrow> if \<not> email_target_ok target then Some InvalidEmailTarget else None)"

definition notification_channel_new ::
  "uuid \<Rightarrow> time \<Rightarrow> uuid \<Rightarrow> channel_kind \<Rightarrow> rstr \<Rightarrow> rstr option \<Rightarrow>
   channel_error + notification_channel" where
  "notification_channel_new new_id now user kind target secret =
     (let target = trim target in
      if target = [] then Inl EmptyTarget
      else if MAX_TARGET_LEN < length target then Inl TargetTooLong
      else
        let secret = trimmed_option secret in
        if (case secret of None \<Rightarrow> False | Some s \<Rightarrow> MAX_SECRET_LEN < length s)
        then Inl SecretTooLong
        else case kind_check kind target secret of
            Some e \<Rightarrow> Inl e
          | None \<Rightarrow> Inr
              \<lparr>ch_id = new_id, ch_user_id = user, ch_kind = kind, ch_target = target,
               ch_secret = secret, ch_created_at = now_utc now\<rparr>)"

lemma channel_kind_parse_as_str: "channel_kind_parse (channel_kind_as_str k) = Some k"
  by (cases k) (simp_all add: channel_kind_parse_def)

lemma channel_kind_parse_Some: "channel_kind_parse v = Some k \<longleftrightarrow> v = channel_kind_as_str k"
  by (cases k) (auto simp: channel_kind_parse_def)

definition channel_wf :: "notification_channel \<Rightarrow> bool" where
  "channel_wf c \<longleftrightarrow>
     ch_target c \<noteq> [] \<and> trim (ch_target c) = ch_target c \<and> length (ch_target c) \<le> 2048 \<and>
     (\<forall>s. ch_secret c = Some s \<longrightarrow> s \<noteq> [] \<and> trim s = s \<and> length s \<le> 512) \<and>
     (case ch_kind c of
        Slack \<Rightarrow> prefix (lit ''https://'') (ch_target c)
      | Telegram \<Rightarrow> ch_secret c \<noteq> None
      | Email \<Rightarrow> email_target_ok (ch_target c))"

lemma notification_channel_new_shape:
  "notification_channel_new i t u k target secret = Inr c \<longleftrightarrow>
     trim target \<noteq> [] \<and> length (trim target) \<le> MAX_TARGET_LEN \<and>
     (\<forall>s. trimmed_option secret = Some s \<longrightarrow> length s \<le> MAX_SECRET_LEN) \<and>
     kind_check k (trim target) (trimmed_option secret) = None \<and>
     c = \<lparr>ch_id = i, ch_user_id = u, ch_kind = k, ch_target = trim target,
          ch_secret = trimmed_option secret, ch_created_at = now_utc t\<rparr>"
  by (cases "trimmed_option secret"; cases "kind_check k (trim target) (trimmed_option secret)")
    (auto simp: notification_channel_new_def Let_def)

lemma kind_check_None:
  "kind_check k target secret = None \<longleftrightarrow>
     (case k of
        Slack \<Rightarrow> prefix (lit ''https://'') target
      | Telegram \<Rightarrow> secret \<noteq> None
      | Email \<Rightarrow> email_target_ok target)"
  by (cases k) (simp_all add: kind_check_def)

lemma notification_channel_new_Inr:
  assumes "notification_channel_new i t u k target secret = Inr c"
  shows "channel_wf c" and "ch_id c = i" and "ch_user_id c = u" and "ch_kind c = k"
    and "ch_target c = trim target" and "ch_secret c = trimmed_option secret"
    and "ch_created_at c = now_utc t"
proof -
  note shape = assms [unfolded notification_channel_new_shape]
  show "ch_id c = i" "ch_user_id c = u" "ch_kind c = k" "ch_target c = trim target"
    "ch_secret c = trimmed_option secret" "ch_created_at c = now_utc t"
    using shape by simp_all
  have "\<forall>s. trimmed_option secret = Some s \<longrightarrow> s \<noteq> [] \<and> trim s = s"
    by (auto simp: trimmed_option_Some)
  then show "channel_wf c"
    using shape
    by (cases k) (simp_all add: channel_wf_def kind_check_None MAX_TARGET_LEN_def MAX_SECRET_LEN_def)
qed

lemma email_target_ok_iff:
  "email_target_ok t \<longleftrightarrow>
     (\<exists>a d. t = a @ 64 # d \<and> 64 \<notin> set a \<and> a \<noteq> [] \<and> 46 \<in> set d \<and> hd d \<noteq> 46)"
proof
  assume "email_target_ok t"
  then obtain a d where s: "split_once 64 t = Some (a, d)"
    and c: "a \<noteq> []" "46 \<in> set d" "\<not> prefix [46] d"
    by (auto simp: email_target_ok_def split: option.splits)
  from c have "hd d \<noteq> 46" by (cases d) auto
  with s c show "\<exists>a d. t = a @ 64 # d \<and> 64 \<notin> set a \<and> a \<noteq> [] \<and> 46 \<in> set d \<and> hd d \<noteq> 46"
    by (auto simp: split_once_Some)
next
  assume "\<exists>a d. t = a @ 64 # d \<and> 64 \<notin> set a \<and> a \<noteq> [] \<and> 46 \<in> set d \<and> hd d \<noteq> 46"
  then obtain a d where "t = a @ 64 # d" "64 \<notin> set a" and c: "a \<noteq> []" "46 \<in> set d" "hd d \<noteq> 46"
    by blast
  then have "split_once 64 t = Some (a, d)" by (simp add: split_once_Some)
  moreover from c have "\<not> prefix [46] d" by (cases d) auto
  ultimately show "email_target_ok t" using c by (simp add: email_target_ok_def)
qed

end
