(* ===== verification/Document.thy ===== *)
theory Document
  imports Effects
begin

text \<open>
  \<open>domain/document.rs\<close>: knowledge-base documents and their chunks. An \<open>f32\<close> is its bit
  pattern.
\<close>

definition MAX_DOCUMENT_NAME_LEN :: nat where "MAX_DOCUMENT_NAME_LEN = 200"
definition MAX_DOCUMENT_CONTENT_LEN :: nat where "MAX_DOCUMENT_CONTENT_LEN = 100000"

datatype document_status = DocPending | DocReady | DocFailed

fun document_status_as_str :: "document_status \<Rightarrow> rstr" where
  "document_status_as_str DocPending = lit ''pending''"
| "document_status_as_str DocReady = lit ''ready''"
| "document_status_as_str DocFailed = lit ''failed''"

datatype document_error = EmptyName | NameTooLong | EmptyContent | ContentTooLong

fun document_error_msg :: "document_error \<Rightarrow> rstr" where
  "document_error_msg EmptyName = lit ''document name must not be empty''"
| "document_error_msg NameTooLong = lit ''document name must be at most 200 characters''"
| "document_error_msg EmptyContent = lit ''document content must not be empty''"
| "document_error_msg ContentTooLong = lit ''document content must be at most 100000 characters''"

definition validate_content :: "rstr \<Rightarrow> document_error + unit" where
  "validate_content content =
     (if trim content = [] then Inl EmptyContent
      else if MAX_DOCUMENT_CONTENT_LEN < length content then Inl ContentTooLong
      else Inr ())"

record document =
  doc_id :: uuid
  doc_user_id :: uuid
  doc_name :: rstr
  doc_status :: document_status
  doc_error :: "rstr option"
  doc_created_at :: time

definition document_new :: "uuid \<Rightarrow> time \<Rightarrow> uuid \<Rightarrow> rstr \<Rightarrow> document_error + document" where
  "document_new new_id now user name =
     (let name = trim name in
      if name = [] then Inl EmptyName
      else if MAX_DOCUMENT_NAME_LEN < length name then Inl NameTooLong
      else Inr
        \<lparr>doc_id = new_id, doc_user_id = user, doc_name = name, doc_status = DocPending,
         doc_error = None, doc_created_at = now_utc now\<rparr>)"

type_synonym f32 = "32 word"

record new_chunk =
  nc_seq :: int
  nc_content :: rstr
  nc_embedding :: "f32 list"

record retrieved_chunk =
  rc_content :: rstr
  rc_document_name :: rstr

definition document_wf :: "document \<Rightarrow> bool" where
  "document_wf d \<longleftrightarrow> doc_name d \<noteq> [] \<and> trim (doc_name d) = doc_name d \<and>
     length (doc_name d) \<le> 200 \<and> (doc_error d \<noteq> None \<longleftrightarrow> doc_status d = DocFailed)"

lemma document_new_Inr:
  assumes "document_new i t u n = Inr d"
  shows "document_wf d" and "doc_id d = i" and "doc_user_id d = u" and "doc_name d = trim n"
    and "doc_status d = DocPending" and "doc_error d = None" and "doc_created_at d = now_utc t"
  using assms
  by (auto simp: document_new_def Let_def document_wf_def MAX_DOCUMENT_NAME_LEN_def
      split: if_splits)

lemma validate_content_Inr:
  "validate_content c = Inr () \<longleftrightarrow> trim c \<noteq> [] \<and> length c \<le> 100000"
  by (auto simp: validate_content_def MAX_DOCUMENT_CONTENT_LEN_def)

end
