(* ===== verification/Ports.thy ===== *)
theory Ports
  imports Search_Result Accounts Recurring Channel Document
begin

text \<open>
  \<open>domain/ports.rs\<close>: the interfaces between the use cases and the adapters. A trait is a
  record of operations over the adapter's state type. What the traits promise, their doc
  comments included, is stated over an abstract world of finite maps, in one locale per trait:
  a successful operation relates the abstract worlds before and after, a failed one leaves the
  world unchanged. Requests that leave the process are the only effect a failed call may have
  had; they are a log of the abstract world.
\<close>

section \<open>Digests and outgoing traffic\<close>

record digest_entry =
  de_title :: rstr
  de_url :: rstr
  de_published_at :: "time option"

record digest =
  dg_recurring_search_id :: uuid
  dg_job_id :: uuid
  dg_keyword :: rstr
  dg_new_count :: nat
  dg_new_results :: "digest_entry list"

datatype ip_addr = V4 "32 word" | V6 "128 word"

record http_request =
  rq_url :: rstr
  rq_headers :: "(rstr \<times> rstr) list"
  rq_body :: json

datatype outcall =
    DnsLookup rstr
  | HttpCall "ip_addr list" http_request
  | MailCall rstr rstr rstr

fun http_of :: "outcall \<Rightarrow> http_request option" where
  "http_of (HttpCall addrs rq) = Some rq"
| "http_of _ = None"

definition https :: "outcall list \<Rightarrow> http_request list" where
  "https cs = List.map_filter http_of cs"

lemma https_simps [simp]:
  "https [] = []"
  "https (c # cs) = (case http_of c of None \<Rightarrow> https cs | Some rq \<Rightarrow> rq # https cs)"
  "https (cs @ ds) = https cs @ https ds"
  by (simp_all add: https_def map_filter_def split: option.splits)

section \<open>The abstract world\<close>

record stored_chunk =
  sc_document_id :: uuid
  sc_user_id :: uuid
  sc_content :: rstr
  sc_embedding :: "f32 list"
  sc_document_name :: rstr

record aworld =
  aw_users :: "uuid \<rightharpoonup> user"
  aw_channels :: "uuid \<rightharpoonup> notification_channel"
  aw_tokens :: "uuid \<rightharpoonup> refresh_token"
  aw_jobs :: "uuid \<rightharpoonup> research_job"
  aw_results :: "uuid \<Rightarrow> search_result list"
  aw_steps :: "uuid \<Rightarrow> agent_step list"
  aw_recurring :: "uuid \<rightharpoonup> recurring_search"
  aw_events :: "security_event list"
  aw_documents :: "uuid \<rightharpoonup> document"
  aw_chunks :: "stored_chunk multiset"
  aw_calls :: "outcall list"

definition log_calls :: "outcall list \<Rightarrow> aworld \<Rightarrow> aworld" where
  "log_calls cs w = w\<lparr>aw_calls := aw_calls w @ cs\<rparr>"

lemma log_calls_simps [simp]:
  "aw_users (log_calls cs w) = aw_users w" "aw_channels (log_calls cs w) = aw_channels w"
  "aw_tokens (log_calls cs w) = aw_tokens w" "aw_jobs (log_calls cs w) = aw_jobs w"
  "aw_results (log_calls cs w) = aw_results w" "aw_steps (log_calls cs w) = aw_steps w"
  "aw_recurring (log_calls cs w) = aw_recurring w" "aw_events (log_calls cs w) = aw_events w"
  "aw_documents (log_calls cs w) = aw_documents w" "aw_chunks (log_calls cs w) = aw_chunks w"
  "aw_calls (log_calls cs w) = aw_calls w @ cs"
  "log_calls [] w = w" "log_calls ds (log_calls cs w) = log_calls (cs @ ds) w"
  by (simp_all add: log_calls_def)

lemma log_calls_none [simp]: "\<exists>cs. w = log_calls cs w"
  by (rule exI [of _ "[]"]) simp

lemma log_calls_some [simp]: "\<exists>ds. log_calls cs w = log_calls ds w"
  by blast

text \<open>A table: finitely many rows, each under its own id.\<close>

definition keyed :: "('v \<Rightarrow> uuid) \<Rightarrow> (uuid \<rightharpoonup> 'v) \<Rightarrow> bool" where
  "keyed key m \<longleftrightarrow> finite (dom m) \<and> (\<forall>i v. m i = Some v \<longrightarrow> key v = i)"

lemma keyed_finite [simp]: "keyed key m \<Longrightarrow> finite (ran m)"
  by (simp add: keyed_def finite_ran)

lemma keyedD: "keyed key m \<Longrightarrow> m i = Some v \<Longrightarrow> key v = i"
  by (simp add: keyed_def)

lemma keyed_ran: "keyed key m \<Longrightarrow> v \<in> ran m \<longleftrightarrow> m (key v) = Some v"
  by (auto simp: keyed_def ran_def)

lemma keyed_update: "keyed key m \<Longrightarrow> key v = i \<Longrightarrow> keyed key (m(i \<mapsto> v))"
  by (simp add: keyed_def)

lemma keyed_fresh: "keyed key m \<Longrightarrow> key v \<notin> dom m \<Longrightarrow> v \<notin> ran m"
  by (auto simp: keyed_ran)

section \<open>The precision of a store\<close>

text \<open>
  What a store makes of an instant: \<open>prec\<close> rounds down to what it can keep, at least whole
  microseconds. In memory it is the identity.
\<close>

locale instants =
  fixes prec :: "time \<Rightarrow> time"
  assumes prec_le: "prec t \<le> t" and prec_zero: "prec 0 = 0"
    and prec_shift: "prec (t + k * microsecond) = prec t + k * microsecond"
begin

lemma prec_micros: "t mod microsecond = 0 \<Longrightarrow> prec t = t"
  using prec_shift [of 0 "t div microsecond"] prec_zero by (metis add.left_neutral mult_div_mod_eq mult.commute add.right_neutral)

lemma prec_now: "prec (now_utc t) = now_utc t"
  by (rule prec_micros) (rule now_utc_micros)

lemma prec_whole: "d mod microsecond = 0 \<Longrightarrow> prec (t - d) = prec t - d"
  using prec_shift [of t "- (d div microsecond)"]
  by (metis add.right_neutral diff_conv_add_uminus minus_mult_left mult_div_mod_eq mult.commute)

lemma prec_units: "prec (t - hours n) = prec t - hours n" "prec (t - days n) = prec t - days n"
  by (rule prec_whole; simp add: hours_def days_def second_def microsecond_def)+

lemma prec_expiry: "prec (now_utc t + days n) = now_utc t + days n"
  using prec_units(2) [of "now_utc t" "- n"] by (simp add: prec_now days_def)

lemma prec_now_opt: "map_option prec (Some (now_utc t)) = Some (now_utc t)"
  by (simp add: prec_now)

lemmas prec_simps = prec_now prec_units

end

interpretation exact_instants: instants "\<lambda>t. t"
  by unfold_locales simp_all

interpretation micro_instants: instants now_utc
proof
  fix t k
  show "now_utc t \<le> t" by (rule now_utc_le)
  show "now_utc 0 = 0" by (simp add: now_utc_def)
  show "now_utc (t + k * microsecond) = now_utc t + k * microsecond"
    unfolding now_utc_def mod_mult_self1 by simp
qed

text \<open>What a store keeps exactly.\<close>

definition exact_user :: "(time \<Rightarrow> time) \<Rightarrow> user \<Rightarrow> bool" where
  "exact_user prec u \<longleftrightarrow> prec (user_created_at u) = user_created_at u"

definition exact_channel :: "(time \<Rightarrow> time) \<Rightarrow> notification_channel \<Rightarrow> bool" where
  "exact_channel prec c \<longleftrightarrow> prec (ch_created_at c) = ch_created_at c"

definition exact_token :: "(time \<Rightarrow> time) \<Rightarrow> refresh_token \<Rightarrow> bool" where
  "exact_token prec t \<longleftrightarrow> prec (rt_expires_at t) = rt_expires_at t \<and>
     prec (rt_created_at t) = rt_created_at t \<and> map_option prec (rt_consumed_at t) = rt_consumed_at t"

definition exact_job :: "(time \<Rightarrow> time) \<Rightarrow> research_job \<Rightarrow> bool" where
  "exact_job prec j \<longleftrightarrow> prec (job_created_at j) = job_created_at j \<and>
     map_option prec (job_completed_at j) = job_completed_at j"

definition exact_search :: "(time \<Rightarrow> time) \<Rightarrow> recurring_search \<Rightarrow> bool" where
  "exact_search prec x \<longleftrightarrow> prec (rs_created_at x) = rs_created_at x \<and>
     map_option prec (rs_last_run_at x) = rs_last_run_at x"

definition exact_event :: "(time \<Rightarrow> time) \<Rightarrow> security_event \<Rightarrow> bool" where
  "exact_event prec e \<longleftrightarrow> prec (se_created_at e) = se_created_at e"

definition exact_document :: "(time \<Rightarrow> time) \<Rightarrow> document \<Rightarrow> bool" where
  "exact_document prec d \<longleftrightarrow> prec (doc_created_at d) = doc_created_at d"

lemmas exact_defs = exact_user_def exact_channel_def exact_token_def exact_job_def exact_search_def
  exact_event_def exact_document_def

section \<open>Users\<close>

text \<open>
  Deleting a user who owns nothing any more. The events of the audit trail that name the user
  may lose the name.
\<close>

definition owns_nothing :: "uuid \<Rightarrow> aworld \<Rightarrow> bool" where
  "owns_nothing u w \<longleftrightarrow>
     (\<forall>c \<in> ran (aw_channels w). ch_user_id c \<noteq> u) \<and> (\<forall>t \<in> ran (aw_tokens w). rt_user_id t \<noteq> u) \<and>
     (\<forall>j \<in> ran (aw_jobs w). job_user_id j \<noteq> u) \<and> (\<forall>x \<in> ran (aw_recurring w). rs_user_id x \<noteq> u) \<and>
     (\<forall>d \<in> ran (aw_documents w). doc_user_id d \<noteq> u) \<and> (\<forall>c. c \<in># aw_chunks w \<longrightarrow> sc_user_id c \<noteq> u)"

definition anonymised :: "uuid \<Rightarrow> security_event list \<Rightarrow> security_event list \<Rightarrow> bool" where
  "anonymised u es es' \<longleftrightarrow>
     list_all2 (\<lambda>e e'. e' = e \<or> (se_user_id e = Some u \<and> e' = e\<lparr>se_user_id := None\<rparr>)) es es'"

lemma anonymised_refl [simp]: "anonymised u es es"
  by (simp add: anonymised_def list_all2_same)

record 's user_repo =
  ur_insert :: "user \<Rightarrow> ('s, unit) port"
  ur_find_by_email :: "rstr \<Rightarrow> ('s, user option) port"
  ur_find_by_id :: "uuid \<Rightarrow> ('s, user option) port"
  ur_delete :: "uuid \<Rightarrow> ('s, unit) port"

locale user_port = instants prec for prec :: "time \<Rightarrow> time" +
  fixes U :: "'s user_repo" and invar :: "'s \<Rightarrow> bool" and \<alpha> :: "'s \<Rightarrow> aworld"
  assumes user_keyed: "invar s \<Longrightarrow> keyed user_id (aw_users (\<alpha> s))"
    and user_insert: "port_spec invar \<alpha> (ur_insert U u)
      (\<lambda>w _ w'. user_id u \<notin> dom (aw_users w) \<longrightarrow> exact_user prec u \<longrightarrow>
                w' = w\<lparr>aw_users := (aw_users w)(user_id u \<mapsto> u)\<rparr>)"
    and user_find_by_email: "port_spec invar \<alpha> (ur_find_by_email U e)
      (\<lambda>w r w'. w' = w \<and>
        (case r of None \<Rightarrow> \<forall>u \<in> ran (aw_users w). user_email u \<noteq> e
         | Some u \<Rightarrow> aw_users w (user_id u) = Some u \<and> user_email u = e))"
    and user_find_by_id: "port_spec invar \<alpha> (ur_find_by_id U i) (\<lambda>w r w'. w' = w \<and> r = aw_users w i)"
    and user_delete: "port_spec invar \<alpha> (ur_delete U i)
      (\<lambda>w _ w'. owns_nothing i w \<longrightarrow>
         (\<exists>es. anonymised i (aw_events w) es \<and>
               w' = w\<lparr>aw_users := (aw_users w)(i := None), aw_events := es\<rparr>))"

section \<open>Notification channels\<close>

record 's channel_repo =
  cr_insert :: "notification_channel \<Rightarrow> ('s, unit) port"
  cr_list_for_user :: "uuid \<Rightarrow> ('s, notification_channel list) port"
  cr_delete :: "uuid \<Rightarrow> uuid \<Rightarrow> ('s, bool) port"
  cr_delete_all_for_user :: "uuid \<Rightarrow> ('s, nat) port"

text \<open>
  What a listing of a user's items promises: exactly the user's items, each once, in the
  order of a key.
\<close>

definition listing :: "('v \<Rightarrow> bool) \<Rightarrow> ('v \<Rightarrow> 'k::linorder) \<Rightarrow> (uuid \<rightharpoonup> 'v) \<Rightarrow> 'v list \<Rightarrow> bool" where
  "listing P key m xs \<longleftrightarrow>
     distinct xs \<and> set xs = {v \<in> ran m. P v} \<and> sorted_wrt (\<lambda>x y. key x \<le> key y) xs"

locale channel_port = instants prec for prec :: "time \<Rightarrow> time" +
  fixes C :: "'s channel_repo" and invar :: "'s \<Rightarrow> bool" and \<alpha> :: "'s \<Rightarrow> aworld"
  assumes channel_keyed: "invar s \<Longrightarrow> keyed ch_id (aw_channels (\<alpha> s))"
    and channel_insert: "port_spec invar \<alpha> (cr_insert C c)
      (\<lambda>w _ w'. ch_id c \<notin> dom (aw_channels w) \<longrightarrow> exact_channel prec c \<longrightarrow>
                w' = w\<lparr>aw_channels := (aw_channels w)(ch_id c \<mapsto> c)\<rparr>)"
    and channel_list: "port_spec invar \<alpha> (cr_list_for_user C u)
      (\<lambda>w r w'. w' = w \<and> listing (\<lambda>c. ch_user_id c = u) ch_created_at (aw_channels w) r)"
    and channel_delete: "port_spec invar \<alpha> (cr_delete C u i)
      (\<lambda>w r w'. (r \<longleftrightarrow> (\<exists>c. aw_channels w i = Some c \<and> ch_user_id c = u)) \<and>
        w' = (if r then w\<lparr>aw_channels := (aw_channels w)(i := None)\<rparr> else w))"
    and channel_delete_all: "port_spec invar \<alpha> (cr_delete_all_for_user C u)
      (\<lambda>w n w'. n = card {c \<in> ran (aw_channels w). ch_user_id c = u} \<and>
        w' = w\<lparr>aw_channels := map_keep (\<lambda>_ c. ch_user_id c \<noteq> u) (aw_channels w)\<rparr>)"

section \<open>Refresh tokens\<close>

record 's token_repo =
  tr_insert :: "refresh_token \<Rightarrow> ('s, unit) port"
  tr_find_by_hash :: "rstr \<Rightarrow> ('s, refresh_token option) port"
  tr_mark_consumed :: "uuid \<Rightarrow> time \<Rightarrow> ('s, unit) port"
  tr_delete :: "uuid \<Rightarrow> ('s, unit) port"
  tr_delete_family :: "uuid \<Rightarrow> ('s, unit) port"
  tr_delete_all_for_user :: "uuid \<Rightarrow> ('s, nat) port"
  tr_delete_expired :: "time \<Rightarrow> ('s, nat) port"

definition consume :: "time \<Rightarrow> refresh_token \<Rightarrow> refresh_token" where
  "consume at t = t\<lparr>rt_consumed_at := Some at\<rparr>"

definition map_modify :: "'k \<Rightarrow> ('v \<Rightarrow> 'v) \<Rightarrow> ('k \<rightharpoonup> 'v) \<Rightarrow> ('k \<rightharpoonup> 'v)" where
  "map_modify k f m = (case m k of None \<Rightarrow> m | Some v \<Rightarrow> m(k \<mapsto> f v))"

lemma map_modify_Some [simp]: "m k = Some v \<Longrightarrow> map_modify k f m = m(k \<mapsto> f v)"
  by (simp add: map_modify_def)

lemma map_modify_None [simp]: "m k = None \<Longrightarrow> map_modify k f m = m"
  by (simp add: map_modify_def)

locale token_port = instants prec for prec :: "time \<Rightarrow> time" +
  fixes T :: "'s token_repo" and invar :: "'s \<Rightarrow> bool" and \<alpha> :: "'s \<Rightarrow> aworld"
  assumes token_keyed: "invar s \<Longrightarrow> keyed rt_id (aw_tokens (\<alpha> s))"
    and token_insert: "port_spec invar \<alpha> (tr_insert T t)
      (\<lambda>w _ w'. rt_id t \<notin> dom (aw_tokens w) \<longrightarrow> exact_token prec t \<longrightarrow>
                w' = w\<lparr>aw_tokens := (aw_tokens w)(rt_id t \<mapsto> t)\<rparr>)"
    and token_find: "port_spec invar \<alpha> (tr_find_by_hash T h)
      (\<lambda>w r w'. w' = w \<and>
        (case r of None \<Rightarrow> \<forall>t \<in> ran (aw_tokens w). rt_token_hash t \<noteq> h
         | Some t \<Rightarrow> aw_tokens w (rt_id t) = Some t \<and> rt_token_hash t = h))"
    and token_mark_consumed: "port_spec invar \<alpha> (tr_mark_consumed T i at)
      (\<lambda>w _ w'. w' = w\<lparr>aw_tokens := map_modify i (consume (prec at)) (aw_tokens w)\<rparr>)"
    and token_delete: "port_spec invar \<alpha> (tr_delete T i)
      (\<lambda>w _ w'. w' = w\<lparr>aw_tokens := (aw_tokens w)(i := None)\<rparr>)"
    and token_delete_family: "port_spec invar \<alpha> (tr_delete_family T f)
      (\<lambda>w _ w'. w' = w\<lparr>aw_tokens := map_keep (\<lambda>_ t. rt_family_id t \<noteq> f) (aw_tokens w)\<rparr>)"
    and token_delete_all: "port_spec invar \<alpha> (tr_delete_all_for_user T u)
      (\<lambda>w n w'. n = card {t \<in> ran (aw_tokens w). rt_user_id t = u} \<and>
        w' = w\<lparr>aw_tokens := map_keep (\<lambda>_ t. rt_user_id t \<noteq> u) (aw_tokens w)\<rparr>)"
    and token_delete_expired: "port_spec invar \<alpha> (tr_delete_expired T now)
      (\<lambda>w n w'. n = card {t \<in> ran (aw_tokens w). is_expired (prec now) t} \<and>
        w' = w\<lparr>aw_tokens := map_keep (\<lambda>_ t. \<not> is_expired (prec now) t) (aw_tokens w)\<rparr>)"

section \<open>Jobs\<close>

record 's job_repo =
  jr_insert :: "research_job \<Rightarrow> ('s, unit) port"
  jr_update :: "research_job \<Rightarrow> ('s, unit) port"
  jr_find :: "uuid \<Rightarrow> ('s, research_job option) port"
  jr_list_for_user :: "uuid \<Rightarrow> ('s, research_job list) port"
  jr_count_created_since :: "uuid \<Rightarrow> time \<Rightarrow> ('s, nat) port"
  jr_list_unfinished_older_than :: "time \<Rightarrow> ('s, research_job list) port"
  jr_delete_finished_before :: "time \<Rightarrow> ('s, nat) port"
  jr_delete_all_for_user :: "uuid \<Rightarrow> ('s, nat) port"
  jr_store_results :: "uuid \<Rightarrow> search_result list \<Rightarrow> ('s, unit) port"
  jr_results_for :: "uuid \<Rightarrow> ('s, search_result list) port"
  jr_append_step :: "uuid \<Rightarrow> agent_step \<Rightarrow> ('s, unit) port"
  jr_steps_for :: "uuid \<Rightarrow> ('s, agent_step list) port"
  jr_clear_steps :: "uuid \<Rightarrow> ('s, unit) port"
  jr_add_usage :: "uuid \<Rightarrow> job_usage \<Rightarrow> ('s, unit) port"
  jr_recent_urls_for_recurring :: "uuid \<Rightarrow> 32 word \<Rightarrow> ('s, rstr list) port"

text \<open>What the reaper lists and what the retention purge deletes.\<close>

definition stale :: "time \<Rightarrow> research_job \<Rightarrow> bool" where
  "stale cutoff j \<longleftrightarrow> (job_status j = Pending \<or> job_status j = Running) \<and> job_created_at j < cutoff"

definition purgeable :: "time \<Rightarrow> research_job \<Rightarrow> bool" where
  "purgeable cutoff j \<longleftrightarrow>
     job_recurring_search_id j = None \<and> job_is_finished j \<and> job_created_at j < cutoff"

text \<open>A journal is kept in the order of \<open>seq\<close>, with one entry per number.\<close>

definition journal_insert :: "agent_step \<Rightarrow> agent_step list \<Rightarrow> agent_step list" where
  "journal_insert s js =
     (if step_seq s \<in> step_seq ` set js then js else sort_key step_seq (js @ [s]))"

definition journal_ok :: "agent_step list \<Rightarrow> bool" where
  "journal_ok js \<longleftrightarrow> sorted (map step_seq js) \<and> distinct (map step_seq js)"

lemma journal_insert_ok: "journal_ok js \<Longrightarrow> journal_ok (journal_insert s js)"
proof (cases "step_seq s \<in> step_seq ` set js")
  case False
  assume ok: "journal_ok js"
  let ?js = "sort_key step_seq (js @ [s])"
  have "mset (map step_seq ?js) = mset (map step_seq (js @ [s]))"
    by simp
  then have "distinct (map step_seq ?js) \<longleftrightarrow> distinct (map step_seq (js @ [s]))"
    by (rule mset_eq_imp_distinct_iff)
  with ok False have "distinct (map step_seq ?js)"
    by (simp add: journal_ok_def)
  moreover have "sorted (map step_seq ?js)" by (rule sorted_sort_key)
  ultimately show ?thesis using False by (simp add: journal_insert_def journal_ok_def)
qed (simp add: journal_insert_def)

lemma journal_insert_again: "journal_insert s (journal_insert s js) = journal_insert s js"
  by (simp add: journal_insert_def)

text \<open>Deleting the jobs with a property takes their results and journals along.\<close>

definition drop_jobs :: "(research_job \<Rightarrow> bool) \<Rightarrow> aworld \<Rightarrow> aworld" where
  "drop_jobs P w =
     w\<lparr>aw_jobs := map_keep (\<lambda>_ j. \<not> P j) (aw_jobs w),
       aw_results := (\<lambda>i. if \<exists>j. aw_jobs w i = Some j \<and> P j then [] else aw_results w i),
       aw_steps := (\<lambda>i. if \<exists>j. aw_jobs w i = Some j \<and> P j then [] else aw_steps w i)\<rparr>"

definition delivered_urls :: "aworld \<Rightarrow> uuid \<Rightarrow> rstr set" where
  "delivered_urls w rs =
     {sr_url r | r i j. aw_jobs w i = Some j \<and> job_recurring_search_id j = Some rs \<and>
                        r \<in> set (aw_results w i)}"

definition jobs_since :: "aworld \<Rightarrow> uuid \<Rightarrow> time \<Rightarrow> research_job set" where
  "jobs_since w u since = {j \<in> ran (aw_jobs w). job_user_id j = u \<and> since \<le> job_created_at j}"

definition keep_usage :: "research_job \<Rightarrow> research_job \<Rightarrow> research_job" where
  "keep_usage old new = new\<lparr>job_usage := job_usage old\<rparr>"

lemma keep_usage_same [simp]: "job_usage new = job_usage old \<Longrightarrow> keep_usage old new = new"
  by (simp add: keep_usage_def)

text \<open>Inserting a job, and writing back a job that is there: the spend counters stay.\<close>

definition add_job :: "research_job \<Rightarrow> aworld \<Rightarrow> aworld" where
  "add_job j w = w\<lparr>aw_jobs := (aw_jobs w)(job_id j \<mapsto> j)\<rparr>"

definition put_job :: "research_job \<Rightarrow> aworld \<Rightarrow> aworld" where
  "put_job j w = w\<lparr>aw_jobs := map_modify (job_id j) (\<lambda>old. keep_usage old j) (aw_jobs w)\<rparr>"

lemma add_job_jobs [simp]: "aw_jobs (add_job j w) = (aw_jobs w)(job_id j \<mapsto> j)"
  by (simp add: add_job_def)

lemma put_job_known: "aw_jobs w (job_id j) = Some old \<Longrightarrow> put_job j w = add_job (keep_usage old j) w"
  by (simp add: put_job_def add_job_def keep_usage_def)

lemma add_job_frame [simp]:
  "aw_users (add_job j w) = aw_users w" "aw_channels (add_job j w) = aw_channels w"
  "aw_tokens (add_job j w) = aw_tokens w" "aw_results (add_job j w) = aw_results w"
  "aw_steps (add_job j w) = aw_steps w" "aw_recurring (add_job j w) = aw_recurring w"
  "aw_events (add_job j w) = aw_events w" "aw_documents (add_job j w) = aw_documents w"
  "aw_chunks (add_job j w) = aw_chunks w" "aw_calls (add_job j w) = aw_calls w"
  by (simp_all add: add_job_def)

lemma put_job_frame [simp]:
  "aw_users (put_job j w) = aw_users w" "aw_channels (put_job j w) = aw_channels w"
  "aw_tokens (put_job j w) = aw_tokens w" "aw_results (put_job j w) = aw_results w"
  "aw_steps (put_job j w) = aw_steps w" "aw_recurring (put_job j w) = aw_recurring w"
  "aw_events (put_job j w) = aw_events w" "aw_documents (put_job j w) = aw_documents w"
  "aw_chunks (put_job j w) = aw_chunks w" "aw_calls (put_job j w) = aw_calls w"
  by (simp_all add: put_job_def)

lemma put_job_jobs [simp]:
  "aw_jobs (put_job j w) = map_modify (job_id j) (\<lambda>old. keep_usage old j) (aw_jobs w)"
  by (simp add: put_job_def)

lemma add_job_overwrite [simp]: "job_id j' = job_id j \<Longrightarrow> add_job j' (add_job j w) = add_job j' w"
  by (simp add: add_job_def)

lemma add_job_log [simp]: "add_job j (log_calls cs w) = log_calls cs (add_job j w)"
  by (simp add: add_job_def log_calls_def)

lemma put_job_add [simp]: "job_id j' = job_id j \<Longrightarrow> put_job j' (add_job j w) = add_job (keep_usage j j') w"
  by (subst put_job_known [where old = j]) (simp_all add: keep_usage_def)

lemma put_job_log [simp]: "put_job j (log_calls cs w) = log_calls cs (put_job j w)"
  by (simp add: put_job_def log_calls_def)

definition forget_steps :: "uuid \<Rightarrow> aworld \<Rightarrow> aworld" where
  "forget_steps i w = w\<lparr>aw_steps := (aw_steps w)(i := [])\<rparr>"

definition set_results :: "uuid \<Rightarrow> search_result list \<Rightarrow> aworld \<Rightarrow> aworld" where
  "set_results i xs w = w\<lparr>aw_results := (aw_results w)(i := xs)\<rparr>"

lemma forget_steps_simps [simp]:
  "aw_jobs (forget_steps i w) = aw_jobs w" "aw_results (forget_steps i w) = aw_results w"
  "aw_steps (forget_steps i w) = (aw_steps w)(i := [])"
  "aw_recurring (forget_steps i w) = aw_recurring w" "aw_calls (forget_steps i w) = aw_calls w"
  by (simp_all add: forget_steps_def)

lemma set_results_simps [simp]:
  "aw_jobs (set_results i xs w) = aw_jobs w" "aw_steps (set_results i xs w) = aw_steps w"
  "aw_results (set_results i xs w) = (aw_results w)(i := xs)"
  "aw_recurring (set_results i xs w) = aw_recurring w" "aw_calls (set_results i xs w) = aw_calls w"
  "aw_channels (set_results i xs w) = aw_channels w"
  by (simp_all add: set_results_def)

lemma delivered_urls_cong:
  assumes "aw_results w' = aw_results w"
    and "\<And>i. map_option job_recurring_search_id (aw_jobs w' i) =
             map_option job_recurring_search_id (aw_jobs w i)"
  shows "delivered_urls w' rs = delivered_urls w rs"
proof -
  have "(\<exists>j. aw_jobs w' i = Some j \<and> job_recurring_search_id j = Some rs) \<longleftrightarrow>
        (\<exists>j. aw_jobs w i = Some j \<and> job_recurring_search_id j = Some rs)" for i
    using assms(2) [of i] by (cases "aw_jobs w i"; cases "aw_jobs w' i") auto
  then show ?thesis unfolding delivered_urls_def assms(1) by blast
qed

text \<open>
  The parameter \<open>stored\<close> of the port is what it makes of a result: publication dates and raw
  payloads come from outside, at any precision. An update writes what may change in a job's life: a port need not look at the other fields,
  nor at the spend counters, which are only ever added to.
\<close>

definition writes_back :: "(time \<Rightarrow> time) \<Rightarrow> research_job \<Rightarrow> research_job \<Rightarrow> bool" where
  "writes_back prec old j \<longleftrightarrow>
     job_user_id j = job_user_id old \<and> job_keyword j = job_keyword old \<and> job_mode j = job_mode old \<and>
     job_recurring_search_id j = job_recurring_search_id old \<and> job_created_at j = job_created_at old \<and>
     (job_completed_at j = job_completed_at old \<or> map_option prec (job_completed_at j) = job_completed_at j)"

locale job_port = instants prec for prec :: "time \<Rightarrow> time" +
  fixes J :: "'s job_repo" and invar :: "'s \<Rightarrow> bool" and \<alpha> :: "'s \<Rightarrow> aworld"
    and fadd :: "f64 \<Rightarrow> f64 \<Rightarrow> f64" and stored :: "search_result \<Rightarrow> search_result"
  assumes job_keyed: "invar s \<Longrightarrow> keyed job_id (aw_jobs (\<alpha> s))"
    and job_insert: "port_spec invar \<alpha> (jr_insert J j)
      (\<lambda>w _ w'. job_id j \<notin> dom (aw_jobs w) \<longrightarrow> job_usage j = job_usage_default \<longrightarrow> exact_job prec j \<longrightarrow>
                w' = add_job j w)"
    and job_update: "port_spec invar \<alpha> (jr_update J j)
      (\<lambda>w _ w'. \<forall>old. aw_jobs w (job_id j) = Some old \<longrightarrow> writes_back prec old j \<longrightarrow> w' = put_job j w)"
    and job_find: "port_spec invar \<alpha> (jr_find J i)
      (\<lambda>w r w'. w' = w \<and> r = aw_jobs w i)"
    and job_list: "port_spec invar \<alpha> (jr_list_for_user J u)
      (\<lambda>w r w'. w' = w \<and>
         listing (\<lambda>j. job_user_id j = u) (\<lambda>j. Reverse (job_created_at j)) (aw_jobs w) r)"
    and job_count: "port_spec invar \<alpha> (jr_count_created_since J u since)
      (\<lambda>w n w'. w' = w \<and> n = card (jobs_since w u (prec since)))"
    and job_stale: "port_spec invar \<alpha> (jr_list_unfinished_older_than J cutoff)
      (\<lambda>w r w'. w' = w \<and> distinct (map job_id r) \<and>
         (\<forall>j. j \<in> set r \<longleftrightarrow> aw_jobs w (job_id j) = Some j \<and> stale (prec cutoff) j))"
    and job_purge: "port_spec invar \<alpha> (jr_delete_finished_before J cutoff)
      (\<lambda>w n w'. n = card {j \<in> ran (aw_jobs w). purgeable (prec cutoff) j} \<and>
         w' = drop_jobs (purgeable (prec cutoff)) w)"
    and job_delete_all: "port_spec invar \<alpha> (jr_delete_all_for_user J u)
      (\<lambda>w n w'. n = card {j \<in> ran (aw_jobs w). job_user_id j = u} \<and>
         w' = drop_jobs (\<lambda>j. job_user_id j = u) w)"
    and job_store_results: "port_spec invar \<alpha> (jr_store_results J i xs)
      (\<lambda>w _ w'. w' = set_results i (map stored xs) w)"
    and job_results: "port_spec invar \<alpha> (jr_results_for J i)
      (\<lambda>w r w'. w' = w \<and> mset r = mset (aw_results w i))"
    and job_append_step: "port_spec invar \<alpha> (jr_append_step J i st)
      (\<lambda>w _ w'. w' = w\<lparr>aw_steps := (aw_steps w)(i := journal_insert st (aw_steps w i))\<rparr>)"
    and job_steps: "port_spec invar \<alpha> (jr_steps_for J i) (\<lambda>w r w'. w' = w \<and> r = aw_steps w i)"
    and job_clear_steps: "port_spec invar \<alpha> (jr_clear_steps J i)
      (\<lambda>w _ w'. w' = forget_steps i w)"
    and job_add_usage: "port_spec invar \<alpha> (jr_add_usage J i d)
      (\<lambda>w _ w'. w' = w\<lparr>aw_jobs :=
         map_modify i (\<lambda>j. j\<lparr>job_usage := job_usage_add fadd (job_usage j) d\<rparr>) (aw_jobs w)\<rparr>)"
    and job_recent_urls: "port_spec invar \<alpha> (jr_recent_urls_for_recurring J rs limit)
      (\<lambda>w r w'. w' = w \<and> distinct r \<and> set r \<subseteq> delivered_urls w rs \<and>
         (0 < limit \<longrightarrow> length r \<le> unat limit) \<and>
         (length r < unat limit \<longrightarrow> set r = delivered_urls w rs))"

context job_port begin

lemma writes_back_ops [simp]:
  "writes_back prec j (job_start j)" "writes_back prec j (job_complete t j)"
  "writes_back prec j (job_fail t e j)"
  by (simp_all add: writes_back_def job_start_def job_complete_def job_fail_def prec_now)

lemma writes_back_request: "job_request_input q j = Inr j' \<Longrightarrow> writes_back prec j j'"
  by (auto simp: writes_back_def job_request_input_Inr)

lemma writes_back_answer: "job_provide_answer a j = Inr j' \<Longrightarrow> writes_back prec j j'"
  by (auto simp: writes_back_def job_provide_answer_Inr)

lemma writes_back_trans:
  "writes_back prec j j1 \<Longrightarrow> writes_back prec j1 j2 \<Longrightarrow> writes_back prec j j2"
  by (auto simp: writes_back_def)

lemma sat_job_count:
  assumes "\<And>e. Q (Inl (conv e)) w" and "sat invar \<alpha> (f (card (jobs_since w u (prec since)))) w Q"
  shows "sat invar \<alpha> (io_bind (io_lift conv (jr_count_created_since J u since)) f) w Q"
  by (rule sat_bind_lift_port [OF job_count]) (use assms in simp_all)

lemma sat_job_find:
  assumes "\<And>e. Q (Inl (conv e)) w" and "sat invar \<alpha> (f (aw_jobs w i)) w Q"
  shows "sat invar \<alpha> (io_bind (io_lift conv (jr_find J i)) f) w Q"
  by (rule sat_bind_lift_port [OF job_find]) (use assms in simp_all)

lemma sat_job_insert:
  assumes "job_id j \<notin> dom (aw_jobs w)" and "job_usage j = job_usage_default" and "exact_job prec j"
    and "\<And>e. Q (Inl (conv e)) w" and "sat invar \<alpha> (f ()) (add_job j w) Q"
  shows "sat invar \<alpha> (io_bind (io_lift conv (jr_insert J j)) f) w Q"
  by (rule sat_bind_lift_port [OF job_insert]) (use assms in simp_all)

lemma sat_job_update:
  assumes "\<exists>old. aw_jobs w (job_id j) = Some old \<and> writes_back prec old j"
    and "\<And>e. Q (Inl (conv e)) w"
    and "sat invar \<alpha> (f ()) (put_job j w) Q"
  shows "sat invar \<alpha> (io_bind (io_lift conv (jr_update J j)) f) w Q"
  by (rule sat_bind_lift_port [OF job_update]) (use assms in auto)

lemma sat_job_clear_steps:
  assumes "\<And>e. Q (Inl (conv e)) w"
    and "sat invar \<alpha> (f ()) (forget_steps i w) Q"
  shows "sat invar \<alpha> (io_bind (io_lift conv (jr_clear_steps J i)) f) w Q"
  by (rule sat_bind_lift_port [OF job_clear_steps]) (use assms in simp_all)

lemma sat_job_store_results:
  assumes "\<And>e. Q (Inl (conv e)) w"
    and "sat invar \<alpha> (f ()) (set_results i (map stored xs) w) Q"
  shows "sat invar \<alpha> (io_bind (io_lift conv (jr_store_results J i xs)) f) w Q"
  by (rule sat_bind_lift_port [OF job_store_results]) (use assms in simp_all)

lemma sat_port_count:
  assumes "\<And>e. Q (Inl e) w" and "sat invar \<alpha> (f (card (jobs_since w u (prec since)))) w Q"
  shows "sat invar \<alpha> (io_bind (jr_count_created_since J u since) f) w Q"
  by (rule sat_bind_port [OF job_count]) (use assms in simp_all)

lemma sat_port_insert:
  assumes "job_id j \<notin> dom (aw_jobs w)" and "job_usage j = job_usage_default" and "exact_job prec j"
    and "\<And>e. Q (Inl e) w" and "sat invar \<alpha> (f ()) (add_job j w) Q"
  shows "sat invar \<alpha> (io_bind (jr_insert J j) f) w Q"
  by (rule sat_bind_port [OF job_insert]) (use assms in simp_all)

lemma sat_port_update:
  assumes "\<exists>old. aw_jobs w (job_id j) = Some old \<and> writes_back prec old j"
    and "\<And>e. Q (Inl e) w"
    and "sat invar \<alpha> (f ()) (put_job j w) Q"
  shows "sat invar \<alpha> (io_bind (jr_update J j) f) w Q"
  by (rule sat_bind_port [OF job_update]) (use assms in auto)

lemmas sat_job = sat_job_count sat_job_find sat_job_insert sat_job_update sat_job_clear_steps
  sat_job_store_results

end

section \<open>Recurring searches\<close>

record 's recurring_repo =
  rr_insert :: "recurring_search \<Rightarrow> ('s, unit) port"
  rr_find :: "uuid \<Rightarrow> ('s, recurring_search option) port"
  rr_list_for_user :: "uuid \<Rightarrow> ('s, recurring_search list) port"
  rr_delete :: "uuid \<Rightarrow> uuid \<Rightarrow> ('s, bool) port"
  rr_delete_all_for_user :: "uuid \<Rightarrow> ('s, nat) port"
  rr_list_due :: "time \<Rightarrow> ('s, recurring_search list) port"
  rr_mark_ran :: "uuid \<Rightarrow> time \<Rightarrow> ('s, unit) port"

text \<open>
  Deleting recurring searches keeps the jobs they launched; a repository may clear the jobs'
  reference to a search that is gone.
\<close>

definition unlinked :: "uuid set \<Rightarrow> (uuid \<rightharpoonup> research_job) \<Rightarrow> (uuid \<rightharpoonup> research_job) \<Rightarrow> bool" where
  "unlinked gone m m' \<longleftrightarrow>
     dom m' = dom m \<and>
     (\<forall>i j. m i = Some j \<longrightarrow>
        m' i = Some j \<or>
        (\<exists>r \<in> gone. job_recurring_search_id j = Some r \<and>
                    m' i = Some (j\<lparr>job_recurring_search_id := None\<rparr>)))"

lemma unlinked_refl [simp]: "unlinked gone m m"
  by (simp add: unlinked_def)

locale recurring_port = instants prec for prec :: "time \<Rightarrow> time" +
  fixes R :: "'s recurring_repo" and invar :: "'s \<Rightarrow> bool" and \<alpha> :: "'s \<Rightarrow> aworld"
  assumes recurring_keyed: "invar s \<Longrightarrow> keyed rs_id (aw_recurring (\<alpha> s))"
    and recurring_insert: "port_spec invar \<alpha> (rr_insert R x)
      (\<lambda>w _ w'. rs_id x \<notin> dom (aw_recurring w) \<longrightarrow> exact_search prec x \<longrightarrow>
                w' = w\<lparr>aw_recurring := (aw_recurring w)(rs_id x \<mapsto> x)\<rparr>)"
    and recurring_find: "port_spec invar \<alpha> (rr_find R i) (\<lambda>w r w'. w' = w \<and> r = aw_recurring w i)"
    and recurring_list: "port_spec invar \<alpha> (rr_list_for_user R u)
      (\<lambda>w r w'. w' = w \<and>
         listing (\<lambda>x. rs_user_id x = u) (\<lambda>x. Reverse (rs_created_at x)) (aw_recurring w) r)"
    and recurring_delete: "port_spec invar \<alpha> (rr_delete R u i)
      (\<lambda>w r w'. (r \<longleftrightarrow> (\<exists>x. aw_recurring w i = Some x \<and> rs_user_id x = u)) \<and>
         (if r then \<exists>m. w' = w\<lparr>aw_recurring := (aw_recurring w)(i := None), aw_jobs := m\<rparr> \<and>
                        unlinked {i} (aw_jobs w) m
          else w' = w))"
    and recurring_delete_all: "port_spec invar \<alpha> (rr_delete_all_for_user R u)
      (\<lambda>w n w'. n = card {x \<in> ran (aw_recurring w). rs_user_id x = u} \<and>
         (\<exists>m. w' = w\<lparr>aw_recurring := map_keep (\<lambda>_ x. rs_user_id x \<noteq> u) (aw_recurring w),
                     aw_jobs := m\<rparr> \<and>
              unlinked {i. \<exists>x. aw_recurring w i = Some x \<and> rs_user_id x = u} (aw_jobs w) m))"
    and recurring_due: "port_spec invar \<alpha> (rr_list_due R now)
      (\<lambda>w r w'. w' = w \<and> distinct (map rs_id r) \<and>
         (\<forall>x. x \<in> set r \<longleftrightarrow> aw_recurring w (rs_id x) = Some x \<and> is_due (prec now) x))"
    and recurring_mark_ran: "port_spec invar \<alpha> (rr_mark_ran R i at)
      (\<lambda>w _ w'. w' = w\<lparr>aw_recurring := map_modify i (mark_ran (prec at)) (aw_recurring w)\<rparr>)"

section \<open>Security audit\<close>

record 's audit_port =
  au_record :: "security_event \<Rightarrow> ('s, unit) port"
  au_list_recent :: "int \<Rightarrow> ('s, security_event list) port"
  au_delete_before :: "time \<Rightarrow> ('s, nat) port"

locale audit_log = instants prec for prec :: "time \<Rightarrow> time" +
  fixes A :: "'s audit_port" and invar :: "'s \<Rightarrow> bool" and \<alpha> :: "'s \<Rightarrow> aworld"
  assumes audit_record: "port_spec invar \<alpha> (au_record A e)
      (\<lambda>w _ w'. exact_event prec e \<longrightarrow> w' = w\<lparr>aw_events := aw_events w @ [e]\<rparr>)"
    and audit_list: "port_spec invar \<alpha> (au_list_recent A limit)
      (\<lambda>w r w'. w' = w \<and> mset r \<subseteq># mset (aw_events w) \<and>
         length r = min (nat limit) (length (aw_events w)))"
    and audit_purge: "port_spec invar \<alpha> (au_delete_before A cutoff)
      (\<lambda>w n w'. w' = w\<lparr>aw_events := filter (\<lambda>e. prec cutoff \<le> se_created_at e) (aw_events w)\<rparr> \<and>
         n = length (filter (\<lambda>e. se_created_at e < prec cutoff) (aw_events w)))"

section \<open>Documents\<close>

record 's document_repo =
  dr_insert :: "document \<Rightarrow> ('s, unit) port"
  dr_list_for_user :: "uuid \<Rightarrow> ('s, document list) port"
  dr_find :: "uuid \<Rightarrow> ('s, document option) port"
  dr_delete :: "uuid \<Rightarrow> uuid \<Rightarrow> ('s, bool) port"
  dr_store_chunks :: "document \<Rightarrow> new_chunk list \<Rightarrow> ('s, unit) port"
  dr_mark_failed :: "uuid \<Rightarrow> rstr \<Rightarrow> ('s, unit) port"
  dr_retrieve :: "uuid \<Rightarrow> f32 list \<Rightarrow> int \<Rightarrow> ('s, retrieved_chunk list) port"
  dr_delete_all_for_user :: "uuid \<Rightarrow> ('s, nat) port"

definition document_ready :: "document \<Rightarrow> document" where
  "document_ready d = d\<lparr>doc_status := DocReady, doc_error := None\<rparr>"

definition document_failed :: "rstr \<Rightarrow> document \<Rightarrow> document" where
  "document_failed err d = d\<lparr>doc_status := DocFailed, doc_error := Some err\<rparr>"

definition stored_chunk_of :: "document \<Rightarrow> new_chunk \<Rightarrow> stored_chunk" where
  "stored_chunk_of d n =
     \<lparr>sc_document_id = doc_id d, sc_user_id = doc_user_id d, sc_content = nc_content n,
      sc_embedding = nc_embedding n, sc_document_name = doc_name d\<rparr>"

definition retrieved_of :: "stored_chunk \<Rightarrow> retrieved_chunk" where
  "retrieved_of c = \<lparr>rc_content = sc_content c, rc_document_name = sc_document_name c\<rparr>"

text \<open>
  Storing chunks adds the new ones and leaves other documents alone. What happens to chunks
  stored before for the same document is left open: the repositories differ there. They agree on
  what deleting a user's documents does to the chunks when every chunk belongs to a stored
  document of its user.
\<close>

definition chunks_ok :: "aworld \<Rightarrow> bool" where
  "chunks_ok w \<longleftrightarrow>
     (\<forall>c. c \<in># aw_chunks w \<longrightarrow>
        (\<exists>d. aw_documents w (sc_document_id c) = Some d \<and> doc_user_id d = sc_user_id c \<and>
             doc_name d = sc_document_name c))"

locale document_port = instants prec for prec :: "time \<Rightarrow> time" +
  fixes D :: "'s document_repo" and invar :: "'s \<Rightarrow> bool" and \<alpha> :: "'s \<Rightarrow> aworld"
  assumes document_keyed: "invar s \<Longrightarrow> keyed doc_id (aw_documents (\<alpha> s))"
    and document_insert: "port_spec invar \<alpha> (dr_insert D d)
      (\<lambda>w _ w'. doc_id d \<notin> dom (aw_documents w) \<longrightarrow> exact_document prec d \<longrightarrow>
                w' = w\<lparr>aw_documents := (aw_documents w)(doc_id d \<mapsto> d)\<rparr>)"
    and document_list: "port_spec invar \<alpha> (dr_list_for_user D u)
      (\<lambda>w r w'. w' = w \<and>
         listing (\<lambda>d. doc_user_id d = u) (\<lambda>d. Reverse (doc_created_at d)) (aw_documents w) r)"
    and document_find: "port_spec invar \<alpha> (dr_find D i)
      (\<lambda>w r w'. w' = w \<and> r = aw_documents w i)"
    and document_delete: "port_spec invar \<alpha> (dr_delete D u i)
      (\<lambda>w r w'. (r \<longleftrightarrow> (\<exists>d. aw_documents w i = Some d \<and> doc_user_id d = u)) \<and>
         w' = (if r then w\<lparr>aw_documents := (aw_documents w)(i := None),
                           aw_chunks := {#c \<in># aw_chunks w. sc_document_id c \<noteq> i#}\<rparr>
               else w))"
    and document_store_chunks: "port_spec invar \<alpha> (dr_store_chunks D d ns)
      (\<lambda>w _ w'. aw_documents w (doc_id d) = Some d \<longrightarrow>
         (\<exists>kept. kept \<subseteq># {#c \<in># aw_chunks w. sc_document_id c = doc_id d#} \<and>
            w' = w\<lparr>aw_documents := (aw_documents w)(doc_id d \<mapsto> document_ready d),
                   aw_chunks := {#c \<in># aw_chunks w. sc_document_id c \<noteq> doc_id d#} + kept +
                                mset (map (stored_chunk_of d) ns)\<rparr>))"
    and document_mark_failed: "port_spec invar \<alpha> (dr_mark_failed D i err)
      (\<lambda>w _ w'. w' = w\<lparr>aw_documents := map_modify i (document_failed err) (aw_documents w)\<rparr>)"
    and document_retrieve: "port_spec invar \<alpha> (dr_retrieve D u emb k)
      (\<lambda>w r w'. w' = w \<and>
         (\<exists>cs. mset cs \<subseteq># {#c \<in># aw_chunks w. sc_user_id c = u#} \<and>
            length cs \<le> nat k \<and>
            r = map retrieved_of cs))"
    and document_delete_all: "port_spec invar \<alpha> (dr_delete_all_for_user D u)
      (\<lambda>w n w'. n = card {d \<in> ran (aw_documents w). doc_user_id d = u} \<and>
         (chunks_ok w \<longrightarrow> w' = w\<lparr>aw_documents := map_keep (\<lambda>_ d. doc_user_id d \<noteq> u) (aw_documents w),
                aw_chunks := {#c \<in># aw_chunks w. sc_user_id c \<noteq> u#}\<rparr>))"

section \<open>Outgoing ports\<close>

text \<open>
  A call that leaves the process touches nothing of the world but the log of outgoing traffic,
  whether it succeeds or fails. The parameter \<open>sent\<close> of a locale is what the adapter promises
  about that traffic, per call and result.
\<close>

type_synonym 's job_dispatcher = "research_job \<Rightarrow> rstr list \<Rightarrow> ('s, unit) port"
type_synonym 's embed_dispatcher = "uuid \<Rightarrow> rstr \<Rightarrow> rstr \<Rightarrow> ('s, unit) port"
type_synonym 's digest_sender = "rstr \<Rightarrow> digest \<Rightarrow> ('s, unit) port"
type_synonym 's channel_notifier = "notification_channel \<Rightarrow> digest \<Rightarrow> ('s, unit) port"
type_synonym 's email_transport = "rstr \<Rightarrow> rstr \<Rightarrow> rstr \<Rightarrow> ('s, unit) port"

definition call_spec ::
  "('s \<Rightarrow> bool) \<Rightarrow> ('s \<Rightarrow> aworld) \<Rightarrow> ('s, 'a) port \<Rightarrow> (port_error + 'a \<Rightarrow> outcall list \<Rightarrow> bool) \<Rightarrow> bool"
  where
  "call_spec invar \<alpha> m P \<longleftrightarrow>
     (\<forall>s. invar s \<longrightarrow>
        (case m s of (r, s') \<Rightarrow> invar s' \<and> (\<exists>cs. \<alpha> s' = log_calls cs (\<alpha> s) \<and> P r cs)))"

lemma sat_call:
  assumes "call_spec invar \<alpha> m P"
    and "\<And>r cs. P r cs \<Longrightarrow> Q r (log_calls cs w)"
  shows "sat invar \<alpha> m w Q"
proof (rule satI)
  fix s r s'
  assume s: "invar s" "\<alpha> s = w" and run: "m s = (r, s')"
  from assms(1) [unfolded call_spec_def, rule_format, OF s(1)] run
  obtain cs where "invar s'" "\<alpha> s' = log_calls cs (\<alpha> s)" "P r cs" by auto
  with s assms(2) [OF \<open>P r cs\<close>] show "invar s' \<and> Q r (\<alpha> s')" by simp
qed

lemma sat_bind_result_call:
  assumes "call_spec invar \<alpha> m P"
    and "\<And>r cs. P r cs \<Longrightarrow> sat invar \<alpha> (f r) (log_calls cs w) Q"
  shows "sat invar \<alpha> (io_bind (io_result m) f) w Q"
  by (rule sat_bind, rule sat_result, rule sat_call [OF assms(1)]) (simp add: assms(2))

lemma call_spec_conseq:
  "call_spec invar \<alpha> m P \<Longrightarrow> (\<And>r cs. P r cs \<Longrightarrow> P' r cs) \<Longrightarrow> call_spec invar \<alpha> m P'"
  by (fastforce simp: call_spec_def)

locale job_dispatch_port =
  fixes disp :: "'s job_dispatcher" and invar :: "'s \<Rightarrow> bool" and \<alpha> :: "'s \<Rightarrow> aworld"
    and sent :: "research_job \<Rightarrow> rstr list \<Rightarrow> port_error + unit \<Rightarrow> outcall list \<Rightarrow> bool"
  assumes dispatch: "call_spec invar \<alpha> (disp j urls) (sent j urls)"

locale embed_dispatch_port =
  fixes emb :: "'s embed_dispatcher" and invar :: "'s \<Rightarrow> bool" and \<alpha> :: "'s \<Rightarrow> aworld"
    and sent :: "uuid \<Rightarrow> rstr \<Rightarrow> rstr \<Rightarrow> port_error + unit \<Rightarrow> outcall list \<Rightarrow> bool"
  assumes dispatch_embed: "call_spec invar \<alpha> (emb i name content) (sent i name content)"

locale digest_port =
  fixes dsend :: "'s digest_sender" and invar :: "'s \<Rightarrow> bool" and \<alpha> :: "'s \<Rightarrow> aworld"
    and sent :: "rstr \<Rightarrow> digest \<Rightarrow> port_error + unit \<Rightarrow> outcall list \<Rightarrow> bool"
  assumes send_digest: "call_spec invar \<alpha> (dsend url dg) (sent url dg)"

locale notifier_port =
  fixes notify :: "'s channel_notifier" and invar :: "'s \<Rightarrow> bool" and \<alpha> :: "'s \<Rightarrow> aworld"
    and sent :: "notification_channel \<Rightarrow> digest \<Rightarrow> port_error + unit \<Rightarrow> outcall list \<Rightarrow> bool"
  assumes notify: "call_spec invar \<alpha> (notify c dg) (sent c dg)"

section \<open>Authentication services\<close>

text \<open>
  \<open>PasswordHasher\<close> and \<open>TokenService\<close> are implemented by Argon2 and a JWT library. Both draw
  on something outside the arguments, a random salt and the clock, which is the first argument
  here.
\<close>

record password_hasher =
  ph_hash :: "nat list \<Rightarrow> rstr \<Rightarrow> port_error + rstr"
  ph_verify :: "rstr \<Rightarrow> rstr \<Rightarrow> bool"

record token_service =
  ts_issue :: "time \<Rightarrow> uuid \<Rightarrow> port_error + rstr"
  ts_verify :: "time \<Rightarrow> rstr \<Rightarrow> uuid option"

end
