(* ===== verification/Launch.thy ===== *)
theory Launch
  imports Ports
begin

text \<open>
  \<open>application/launch_search.rs\<close>, \<open>answer_clarification.rs\<close> and \<open>fail_stale_jobs.rs\<close>: how a
  job enters the agent's pipeline, re-enters it with an answer, and is given up. The ids and
  clock readings of a call are the fields of its \<open>draw\<close> argument.
\<close>

section \<open>Launching a search\<close>

datatype launch_error =
    LaunchInvalidJob job_error
  | LaunchQuotaExceeded "32 word"
  | LaunchDispatchFailed
  | LaunchInfrastructure port_error

record launch_draw =
  ld_now :: time
  ld_job_id :: uuid
  ld_created :: time
  ld_failed :: time

definition dispatch_failed :: "port_error \<Rightarrow> rstr" where
  "dispatch_failed err = lit ''dispatch failed: '' @ port_error_msg err"

definition launch_search ::
  "'s job_repo \<Rightarrow> 's job_dispatcher \<Rightarrow> 32 word \<Rightarrow> launch_draw \<Rightarrow> uuid \<Rightarrow> rstr \<Rightarrow> job_mode \<Rightarrow>
   ('s, launch_error, research_job) io" where
  "launch_search J disp daily_quota d user keyword mode =
     io_bind (io_lift LaunchInfrastructure
               (jr_count_created_since J user (ld_now d - hours 24))) (\<lambda>used.
     if unat daily_quota \<le> used then io_throw (LaunchQuotaExceeded daily_quota)
     else
       io_bind (io_lift LaunchInvalidJob
                 (io_of (research_job_new (ld_job_id d) (ld_created d) user keyword))) (\<lambda>new_job.
       let job = with_mode mode new_job in
       io_bind (io_lift LaunchInfrastructure (jr_insert J job)) (\<lambda>_.
       io_bind (io_result (disp job [])) (\<lambda>sent.
       case sent of
         Inl err \<Rightarrow>
           io_bind (io_lift LaunchInfrastructure
                     (jr_update J (job_fail (ld_failed d) (dispatch_failed err) job))) (\<lambda>_.
           io_throw LaunchDispatchFailed)
       | Inr _ \<Rightarrow> io_ret job))))"

section \<open>Answering a clarification\<close>

datatype answer_error =
    AnswerNotFound
  | AnswerInvalid job_error
  | AnswerDispatchFailed
  | AnswerInfrastructure port_error

definition owned_by :: "uuid \<Rightarrow> research_job option \<Rightarrow> research_job option" where
  "owned_by user found =
     (case found of None \<Rightarrow> None | Some job \<Rightarrow> if job_user_id job = user then Some job else None)"

definition seen_urls_of :: "'s job_repo \<Rightarrow> research_job \<Rightarrow> ('s, rstr list) port" where
  "seen_urls_of J job =
     (case job_recurring_search_id job of
        Some rs \<Rightarrow> jr_recent_urls_for_recurring J rs 200
      | None \<Rightarrow> io_ret [])"

definition answer_clarification ::
  "'s job_repo \<Rightarrow> 's job_dispatcher \<Rightarrow> time \<Rightarrow> uuid \<Rightarrow> uuid \<Rightarrow> rstr \<Rightarrow>
   ('s, answer_error, research_job) io" where
  "answer_clarification J disp now user i answer =
     io_bind (io_lift AnswerInfrastructure (jr_find J i)) (\<lambda>found.
     case owned_by user found of
       None \<Rightarrow> io_throw AnswerNotFound
     | Some job \<Rightarrow>
         io_bind (io_lift AnswerInvalid (io_of (job_provide_answer answer job))) (\<lambda>job.
         io_bind (io_lift AnswerInfrastructure (jr_clear_steps J i)) (\<lambda>_.
         io_bind (io_lift AnswerInfrastructure (jr_update J job)) (\<lambda>_.
         io_bind (io_lift AnswerInfrastructure (seen_urls_of J job)) (\<lambda>seen_urls.
         io_bind (io_result (disp job seen_urls)) (\<lambda>sent.
         case sent of
           Inl err \<Rightarrow>
             io_bind (io_lift AnswerInfrastructure
                       (jr_update J (job_fail now (dispatch_failed err) job))) (\<lambda>_.
             io_throw AnswerDispatchFailed)
         | Inr _ \<Rightarrow> io_ret job))))))"

section \<open>The reaper\<close>

text \<open>
  \<open>std::time::Duration\<close> is a number of seconds and nanoseconds. The conversion
  \<open>chrono::Duration::from_std\<close>, which refuses durations out of range, is a parameter.
\<close>

record std_duration =
  sd_secs :: nat
  sd_nanos :: nat

definition timeout_error :: "std_duration \<Rightarrow> rstr" where
  "timeout_error timeout =
     lit ''timed out after '' @ show_nat (sd_secs timeout) @ lit ''s without a worker notification''"

fun reap :: "'s job_repo \<Rightarrow> rstr \<Rightarrow> (nat \<Rightarrow> time) \<Rightarrow> nat \<Rightarrow> research_job list \<Rightarrow> ('s, nat) port" where
  "reap J err clock reaped [] = io_ret reaped"
| "reap J err clock reaped (job # jobs) =
     io_bind (jr_update J (job_fail (clock reaped) err job)) (\<lambda>_.
     reap J err clock (reaped + 1) jobs)"

definition fail_stale_jobs ::
  "'s job_repo \<Rightarrow> (std_duration \<Rightarrow> rstr + int) \<Rightarrow> std_duration \<Rightarrow> time \<Rightarrow> (nat \<Rightarrow> time) \<Rightarrow>
   ('s, nat) port" where
  "fail_stale_jobs J from_std timeout now clock =
     (case from_std timeout of
        Inl e \<Rightarrow> io_throw (PortError (lit ''invalid timeout: '' @ e))
      | Inr dur \<Rightarrow>
          io_bind (jr_list_unfinished_older_than J (now - dur)) (\<lambda>stale.
          reap J (timeout_error timeout) clock 0 stale))"

section \<open>What launching promises\<close>

text \<open>
  The job a launch creates, and the outcome of a launch as a relation between the abstract
  worlds before and after: the five branches of the code.
\<close>

definition launched_job :: "launch_draw \<Rightarrow> uuid \<Rightarrow> rstr \<Rightarrow> job_mode \<Rightarrow> research_job \<Rightarrow> bool" where
  "launched_job d user keyword mode job \<longleftrightarrow>
     (\<exists>j. research_job_new (ld_job_id d) (ld_created d) user keyword = Inr j \<and> job = with_mode mode j)"

definition launch_outcome ::
  "(research_job \<Rightarrow> rstr list \<Rightarrow> port_error + unit \<Rightarrow> outcall list \<Rightarrow> bool) \<Rightarrow>
   32 word \<Rightarrow> launch_draw \<Rightarrow> uuid \<Rightarrow> rstr \<Rightarrow> job_mode \<Rightarrow> aworld \<Rightarrow> launch_error + research_job \<Rightarrow>
   aworld \<Rightarrow> bool" where
  "launch_outcome sent quota d user keyword mode w r w' \<longleftrightarrow>
     (let used = card (jobs_since w user (ld_now d - hours 24));
          new = launched_job d user keyword mode;
          failed = (\<lambda>err. job_fail (ld_failed d) (dispatch_failed err)) in
      case r of
        Inl (LaunchQuotaExceeded q) \<Rightarrow> q = quota \<and> unat quota \<le> used \<and> w' = w
      | Inl (LaunchInvalidJob e) \<Rightarrow>
          used < unat quota \<and> w' = w \<and>
          research_job_new (ld_job_id d) (ld_created d) user keyword = Inl e
      | Inl LaunchDispatchFailed \<Rightarrow>
          used < unat quota \<and>
          (\<exists>job err cs. new job \<and> sent job [] (Inl err) cs \<and>
             w' = log_calls cs (add_job (failed err job) w))
      | Inl (LaunchInfrastructure e) \<Rightarrow>
          w' = w \<or>
          (used < unat quota \<and>
             (\<exists>job err cs. new job \<and> sent job [] (Inl err) cs \<and> w' = log_calls cs (add_job job w)))
      | Inr job \<Rightarrow>
          used < unat quota \<and> new job \<and>
          (\<exists>cs. sent job [] (Inr ()) cs \<and> w' = log_calls cs (add_job job w)))"

lemma launched_job_fields:
  "launched_job d user keyword mode job \<Longrightarrow>
   job_id job = ld_job_id d \<and> job_user_id job = user \<and> job_keyword job = trim keyword \<and>
   job_mode job = mode \<and> job_status job = Pending \<and> job_created_at job = now_utc (ld_created d) \<and>
   job_recurring_search_id job = None \<and> job_usage job = job_usage_default \<and> job_inv job"
  unfolding launched_job_def using job_inv_new(1) [of _ _ _ _ _ mode]
  by (auto simp: with_mode_def dest: research_job_new_Inr)

lemma launch_now_same: "d\<lparr>ld_now := ld_now d\<rparr> = d"
  by simp

lemma job_fail_fields [simp]:
  "job_id (job_fail t e j) = job_id j" "job_user_id (job_fail t e j) = job_user_id j"
  "job_created_at (job_fail t e j) = job_created_at j" "job_usage (job_fail t e j) = job_usage j"
  "job_recurring_search_id (job_fail t e j) = job_recurring_search_id j"
  by (simp_all add: job_fail_def)

subsection \<open>The daily quota\<close>

text \<open>
  The quota as a state property: in no window of 24 hours did a user create more than \<open>q\<close>
  jobs. Instants are stored in microseconds while the clock of the quota check is not rounded,
  so the argument needs that every stored instant is a multiple of a microsecond.
\<close>

definition jobs_in_day :: "aworld \<Rightarrow> uuid \<Rightarrow> time \<Rightarrow> research_job set" where
  "jobs_in_day w u t =
     {j \<in> ran (aw_jobs w). job_user_id j = u \<and> t - hours 24 < job_created_at j \<and> job_created_at j \<le> t}"

definition quota_ok :: "nat \<Rightarrow> aworld \<Rightarrow> bool" where
  "quota_ok q w \<longleftrightarrow> (\<forall>u t. card (jobs_in_day w u t) \<le> q)"

definition micros_ok :: "aworld \<Rightarrow> bool" where
  "micros_ok w \<longleftrightarrow> (\<forall>j \<in> ran (aw_jobs w). job_created_at j mod microsecond = 0)"

lemma micros_gap:
  assumes "x mod microsecond = 0" and "now_utc t < x" and "x < t"
  shows False
proof -
  have "now_utc x \<le> now_utc t" using assms(3) by (intro now_utc_mono) simp
  moreover have "now_utc x = x" using assms(1) by (simp add: now_utc_def)
  ultimately show False using assms(2) by simp
qed

lemma jobs_in_day_since:
  assumes micros: "micros_ok w" and clock: "now \<le> created" and c: "now_utc created \<le> t"
  shows "jobs_in_day w u t \<subseteq> jobs_since w u (now - hours 24)"
proof
  fix j
  assume "j \<in> jobs_in_day w u t"
  then have j: "j \<in> ran (aw_jobs w)" "job_user_id j = u" and lo: "t - hours 24 < job_created_at j"
    by (auto simp: jobs_in_day_def)
  have "now - hours 24 \<le> job_created_at j"
  proof (rule ccontr)
    assume lt: "\<not> now - hours 24 \<le> job_created_at j"
    have "job_created_at j mod microsecond = 0" using micros j by (auto simp: micros_ok_def)
    then have "(job_created_at j + hours 24) mod microsecond = 0"
      by (simp add: hours_def second_def microsecond_def mod_add_eq [symmetric])
    moreover have "now_utc now < job_created_at j + hours 24"
      using lo c now_utc_mono [OF clock] by simp
    moreover have "job_created_at j + hours 24 < now" using lt by simp
    ultimately show False by (rule micros_gap)
  qed
  with j show "j \<in> jobs_since w u (now - hours 24)" by (simp add: jobs_since_def)
qed

lemma quota_add:
  assumes key: "keyed job_id (aw_jobs w)" and micros: "micros_ok w" and ok: "quota_ok q w"
    and clock: "now \<le> created" and used: "card (jobs_since w u (now - hours 24)) < q"
    and job: "job_user_id job = u" "job_created_at job = now_utc created"
    and fresh: "job_id job \<notin> dom (aw_jobs w)"
  shows "quota_ok q (add_job job w)" and "micros_ok (add_job job w)"
proof -
  have ran: "ran (aw_jobs (add_job job w)) = insert job (ran (aw_jobs w))"
    using fresh by (simp add: ran_map_upd domIff)
  show "micros_ok (add_job job w)"
    using micros job(2) unfolding micros_ok_def ran by (simp add: now_utc_micros)
  have fin: "finite (jobs_in_day w v t)" "finite (jobs_since w v t)" for v t
    using keyed_finite [OF key] by (simp_all add: jobs_in_day_def jobs_since_def)
  have "card (jobs_in_day (add_job job w) v t) \<le> q" for v t
  proof (cases "v = u \<and> t - hours 24 < now_utc created \<and> now_utc created \<le> t")
    case True
    then have "jobs_in_day (add_job job w) v t = insert job (jobs_in_day w v t)"
      using job unfolding jobs_in_day_def ran by auto
    then have "card (jobs_in_day (add_job job w) v t) \<le> Suc (card (jobs_in_day w v t))"
      by (simp add: card_insert_le_m1 fin card_insert_if)
    also have "card (jobs_in_day w v t) \<le> card (jobs_since w u (now - hours 24))"
      using jobs_in_day_since [OF micros clock, of t u] True fin by (auto intro: card_mono)
    finally show ?thesis using used by simp
  next
    case False
    then have "jobs_in_day (add_job job w) v t = jobs_in_day w v t"
      using job unfolding jobs_in_day_def ran by auto
    then show ?thesis using ok by (simp add: quota_ok_def)
  qed
  then show "quota_ok q (add_job job w)" by (simp add: quota_ok_def)
qed

lemma quota_log [simp]: "quota_ok q (log_calls cs w) \<longleftrightarrow> quota_ok q w"
  by (simp add: quota_ok_def jobs_in_day_def)

lemma micros_log [simp]: "micros_ok (log_calls cs w) \<longleftrightarrow> micros_ok w"
  by (simp add: micros_ok_def)

lemma launch_outcome_quota:
  assumes out: "launch_outcome sent quota d user keyword mode w r w'"
    and key: "keyed job_id (aw_jobs w)" and micros: "micros_ok w" and ok: "quota_ok (unat quota) w"
    and clock: "ld_now d \<le> ld_created d" and fresh: "ld_job_id d \<notin> dom (aw_jobs w)"
  shows "quota_ok (unat quota) w' \<and> micros_ok w'"
proof -
  have "quota_ok (unat quota) (add_job job w) \<and> micros_ok (add_job job w)"
    if "card (jobs_since w user (ld_now d - hours 24)) < unat quota"
      and "job_user_id job = user" "job_created_at job = now_utc (ld_created d)"
        "job_id job = ld_job_id d" for job
    using quota_add [OF key micros ok clock that(1,2,3)] fresh that(4) by simp
  then show ?thesis
    using out micros ok
    by (auto simp: launch_outcome_def Let_def split: sum.splits launch_error.splits
        dest!: launched_job_fields)
qed

text \<open>What answering promises: the memory it sends, and the five ways it ends.\<close>

definition run_memory :: "aworld \<Rightarrow> research_job \<Rightarrow> rstr list \<Rightarrow> bool" where
  "run_memory w job urls \<longleftrightarrow>
     (case job_recurring_search_id job of
        None \<Rightarrow> urls = []
      | Some rs \<Rightarrow> distinct urls \<and> length urls \<le> 200 \<and> set urls \<subseteq> delivered_urls w rs)"

definition answer_outcome ::
  "(research_job \<Rightarrow> rstr list \<Rightarrow> port_error + unit \<Rightarrow> outcall list \<Rightarrow> bool) \<Rightarrow> time \<Rightarrow> uuid \<Rightarrow> uuid \<Rightarrow>
   rstr \<Rightarrow> aworld \<Rightarrow> answer_error + research_job \<Rightarrow> aworld \<Rightarrow> bool" where
  "answer_outcome sent now user i answer w r w' \<longleftrightarrow>
     (let mine = owned_by user (aw_jobs w i);
          answered = (\<lambda>job. \<exists>old. mine = Some old \<and> job_provide_answer answer old = Inr job);
          resumed = (\<lambda>job. add_job job (forget_steps i w)) in
      case r of
        Inl AnswerNotFound \<Rightarrow> mine = None \<and> w' = w
      | Inl (AnswerInvalid e) \<Rightarrow>
          w' = w \<and> (\<exists>old. mine = Some old \<and> job_provide_answer answer old = Inl e)
      | Inl AnswerDispatchFailed \<Rightarrow>
          (\<exists>job urls err cs. answered job \<and> run_memory w job urls \<and> sent job urls (Inl err) cs \<and>
             w' = log_calls cs (resumed (job_fail now (dispatch_failed err) job)))
      | Inl (AnswerInfrastructure e) \<Rightarrow>
          w' = w \<or> (w' = forget_steps i w \<and> mine \<noteq> None) \<or>
          (\<exists>job cs. answered job \<and> w' = log_calls cs (resumed job))
      | Inr job \<Rightarrow>
          answered job \<and>
          (\<exists>urls cs. run_memory w job urls \<and> sent job urls (Inr ()) cs \<and>
             w' = log_calls cs (resumed job)))"

lemma owned_by_Some: "owned_by u x = Some j \<longleftrightarrow> x = Some j \<and> job_user_id j = u"
  by (auto simp: owned_by_def split: option.splits)

lemma provide_answer_fields:
  "job_provide_answer a old = Inr job \<Longrightarrow>
   job_id job = job_id old \<and> job_usage job = job_usage old \<and>
   job_recurring_search_id job = job_recurring_search_id old"
  by (auto simp: job_provide_answer_Inr)

lemma answered_resume:
  assumes key: "keyed job_id (aw_jobs w)" and old: "owned_by u (aw_jobs w i) = Some old"
    and job: "job_provide_answer a old = Inr job"
  shows "aw_jobs w (job_id job) = Some old"
    and "put_job job (forget_steps i w) = add_job job (forget_steps i w)"
    and "run_memory (add_job job (forget_steps i w)) job urls \<longleftrightarrow> run_memory w job urls"
proof -
  show known: "aw_jobs w (job_id job) = Some old"
    using old provide_answer_fields [OF job] keyedD [OF key] by (auto simp: owned_by_Some)
  then show "put_job job (forget_steps i w) = add_job job (forget_steps i w)"
    using provide_answer_fields [OF job] by (subst put_job_known [where old = old]) simp_all
  have "delivered_urls (add_job job (forget_steps i w)) rs = delivered_urls w rs" for rs
    by (rule delivered_urls_cong) (use known provide_answer_fields [OF job] in auto)
  then show "run_memory (add_job job (forget_steps i w)) job urls \<longleftrightarrow> run_memory w job urls"
    by (simp add: run_memory_def split: option.splits)
qed

lemma answer_outcomeI:
  assumes old: "owned_by user (aw_jobs w i) = Some old"
    and job: "job_provide_answer answer old = Inr job"
  shows "answer_outcome sent now user i answer w (Inl (AnswerInfrastructure e)) w"
    and "answer_outcome sent now user i answer w (Inl (AnswerInfrastructure e)) (forget_steps i w)"
    and "answer_outcome sent now user i answer w (Inl (AnswerInfrastructure e))
           (add_job job (forget_steps i w))"
    and "answer_outcome sent now user i answer w (Inl (AnswerInfrastructure e))
           (log_calls cs (add_job job (forget_steps i w)))"
    and "run_memory w job urls \<Longrightarrow> sent job urls (Inl err) cs \<Longrightarrow>
         answer_outcome sent now user i answer w (Inl AnswerDispatchFailed)
           (log_calls cs (add_job (job_fail now (dispatch_failed err) job) (forget_steps i w)))"
    and "run_memory w job urls \<Longrightarrow> sent job urls (Inr ()) cs \<Longrightarrow>
         answer_outcome sent now user i answer w (Inr job)
           (log_calls cs (add_job job (forget_steps i w)))"
  unfolding answer_outcome_def Let_def
  by (simp_all add: old job) (intro exI conjI, assumption, assumption, rule refl)+

text \<open>The reaper: some of the listed jobs are failed, all of them when it returns.\<close>

definition reaped :: "rstr \<Rightarrow> research_job set \<Rightarrow> aworld \<Rightarrow> aworld \<Rightarrow> bool" where
  "reaped err S w w' \<longleftrightarrow>
     w'\<lparr>aw_jobs := aw_jobs w\<rparr> = w \<and>
     (\<forall>i. case aw_jobs w i of
            None \<Rightarrow> aw_jobs w' i = None
          | Some j \<Rightarrow> if j \<in> S then \<exists>t. aw_jobs w' i = Some (job_fail t err j)
                      else aw_jobs w' i = Some j)"

lemma reaped_none [simp]: "reaped err {} w w"
  by (simp add: reaped_def split: option.splits)

lemma reaped_step:
  assumes step: "reaped err S (put_job (job_fail t err j) w) w'"
    and j: "aw_jobs w (job_id j) = Some j"
    and S: "\<forall>x \<in> S. job_id x \<noteq> job_id j"
    and key: "keyed job_id (aw_jobs w)"
  shows "reaped err (insert j S) w w'"
proof -
  let ?w = "put_job (job_fail t err j) w"
  have jobs: "aw_jobs ?w = (aw_jobs w)(job_id j \<mapsto> job_fail t err j)"
    using j by (simp add: map_modify_def)
  have frame: "w'\<lparr>aw_jobs := aw_jobs w\<rparr> = w"
  proof -
    have "w'\<lparr>aw_jobs := aw_jobs ?w\<rparr> = ?w" using step by (simp add: reaped_def)
    then have "w'\<lparr>aw_jobs := aw_jobs w\<rparr> = ?w\<lparr>aw_jobs := aw_jobs w\<rparr>"
      by (metis (no_types, lifting) aworld.update_convs(4) aworld.surjective)
    then show ?thesis by (simp add: put_job_def)
  qed
  have notin: "job_fail t err j \<notin> S" using S by auto
  have "case aw_jobs w i of None \<Rightarrow> aw_jobs w' i = None
      | Some x \<Rightarrow> if x \<in> insert j S then \<exists>t. aw_jobs w' i = Some (job_fail t err x)
                  else aw_jobs w' i = Some x" for i
  proof (cases "i = job_id j")
    case True
    have "aw_jobs w' (job_id j) = Some (job_fail t err j)"
      using step [unfolded reaped_def jobs, THEN conjunct2, rule_format, of "job_id j"] notin
      by simp
    with True j show ?thesis by auto
  next
    case False
    have "aw_jobs w i \<noteq> Some j" using False keyedD [OF key] by blast
    then show ?thesis
      using step [unfolded reaped_def jobs, THEN conjunct2, rule_format, of i] False
      by (cases "aw_jobs w i") simp_all
  qed
  with frame show ?thesis by (simp add: reaped_def)
qed

locale launch_ports = job_port prec J invar \<alpha> fadd stored + job_dispatch_port disp invar \<alpha> sent
  for prec :: "time \<Rightarrow> time" and J :: "'s job_repo" and disp :: "'s job_dispatcher"
    and invar :: "'s \<Rightarrow> bool" and \<alpha> :: "'s \<Rightarrow> aworld" and fadd :: "f64 \<Rightarrow> f64 \<Rightarrow> f64"
    and stored :: "search_result \<Rightarrow> search_result"
    and sent :: "research_job \<Rightarrow> rstr list \<Rightarrow> port_error + unit \<Rightarrow> outcall list \<Rightarrow> bool"
begin

lemmas launch_steps = sat_job sat_bind_result_call [OF dispatch] sat_flow

lemma launch_sat:
  assumes fresh: "ld_job_id d \<notin> dom (aw_jobs w)"
  shows "sat invar \<alpha> (launch_search J disp quota d user keyword mode) w
           (launch_outcome sent quota (d\<lparr>ld_now := prec (ld_now d)\<rparr>) user keyword mode w)"
proof (cases "research_job_new (ld_job_id d) (ld_created d) user keyword")
  case (Inl e)
  then show ?thesis
    unfolding launch_search_def Let_def
    by (intro launch_steps) (auto simp: launch_outcome_def Let_def launched_job_def prec_units)
next
  case (Inr j)
  let ?job = "with_mode mode j"
  have new: "launched_job d user keyword mode ?job"
    using Inr by (simp add: launched_job_def)
  have fields: "job_id ?job = ld_job_id d" "job_usage ?job = job_usage_default" "exact_job prec ?job"
    using research_job_new_Inr [OF Inr] by (simp_all add: with_mode_def exact_job_def prec_now)
  show ?thesis
    unfolding launch_search_def Let_def
    by (intro launch_steps)
      (use fresh new in \<open>auto simp: Inr fields prec_units launch_outcome_def Let_def launched_job_def\<close>)
qed

lemma sat_seen_urls:
  assumes "\<And>e. Q (Inl (conv e)) w" and "\<And>urls. run_memory w job urls \<Longrightarrow> sat invar \<alpha> (f urls) w Q"
  shows "sat invar \<alpha> (io_bind (io_lift conv (seen_urls_of J job)) f) w Q"
proof (rule sat_bind_lift_port [where R = "\<lambda>w r w'. w' = w \<and> run_memory w job r"])
  show "port_spec invar \<alpha> (seen_urls_of J job) (\<lambda>w r w'. w' = w \<and> run_memory w job r)"
  proof (cases "job_recurring_search_id job")
    case None
    then show ?thesis by (simp add: seen_urls_of_def run_memory_def port_spec_def io_ret_def)
  next
    case (Some rs)
    then show ?thesis
      using port_spec_conseq [OF job_recent_urls [of rs 200]]
      by (simp add: seen_urls_of_def run_memory_def)
  qed
qed (use assms in auto)

lemma answer_sat:
  "sat invar \<alpha> (answer_clarification J disp now user i answer) w
     (answer_outcome sent now user i answer w)"
proof (rule sat_assume)
  fix s
  assume "invar s" and "\<alpha> s = w"
  then have key: "keyed job_id (aw_jobs w)" using job_keyed by blast
  show ?thesis
  proof (cases "\<exists>old job. owned_by user (aw_jobs w i) = Some old \<and>
      job_provide_answer answer old = Inr job")
    case False
    then show ?thesis
      unfolding answer_clarification_def
      by (intro launch_steps) (auto simp: answer_outcome_def Let_def)
  next
    case True
    then obtain old job where old: "owned_by user (aw_jobs w i) = Some old"
      and job: "job_provide_answer answer old = Inr job" by blast
    note resume = answered_resume [OF key old job]
    have known: "aw_jobs w (job_id job) = Some old" and wb: "writes_back prec old job"
      using resume(1) writes_back_answer [OF job] by simp_all
    have usage: "keep_usage old job = job" using provide_answer_fields [OF job] by simp
    show ?thesis
      unfolding answer_clarification_def
      by (intro launch_steps sat_seen_urls)
        (auto simp: old job resume wb usage intro: answer_outcomeI(1,2) [OF old job],
          (rule answer_outcomeI [OF old job]; assumption?)+)
  qed
qed

lemma reap_sat:
  "\<forall>j \<in> set js. aw_jobs w (job_id j) = Some j \<Longrightarrow> distinct (map job_id js) \<Longrightarrow>
   keyed job_id (aw_jobs w) \<Longrightarrow>
   sat invar \<alpha> (reap J err clock k js) w
     (\<lambda>r w'. \<exists>S \<subseteq> set js. reaped err S w w' \<and> (\<forall>n. r = Inr n \<longrightarrow> S = set js \<and> n = k + length js))"
proof (induction js arbitrary: k w)
  case Nil
  then show ?case by (auto intro!: sat_ret exI [of _ "{}"])
next
  case (Cons j js)
  let ?w = "put_job (job_fail (clock k) err j) w"
  have j: "aw_jobs w (job_id j) = Some j" and fresh: "job_id j \<notin> job_id ` set js"
    using Cons.prems by auto
  then have jobs: "aw_jobs ?w = (aw_jobs w)(job_id j \<mapsto> job_fail (clock k) err j)"
    by simp
  have known: "\<forall>x \<in> set js. aw_jobs ?w (job_id x) = Some x"
    unfolding jobs using Cons.prems(1) fresh by (simp add: image_iff) metis
  have key: "keyed job_id (aw_jobs ?w)"
    unfolding jobs by (rule keyed_update [OF Cons.prems(3)]) simp
  have IH: "sat invar \<alpha> (reap J err clock (k + 1) js) ?w
     (\<lambda>r w'. \<exists>S \<subseteq> set js. reaped err S ?w w' \<and>
        (\<forall>n. r = Inr n \<longrightarrow> S = set js \<and> n = k + 1 + length js))"
    using Cons.prems(2) by (intro Cons.IH [OF known _ key]) simp
  show ?case
  proof (unfold reap.simps, rule sat_bind_port [OF job_update])
    fix e
    show "\<exists>S \<subseteq> set (j # js). reaped err S w w \<and>
        (\<forall>n. Inl e = Inr n \<longrightarrow> S = set (j # js) \<and> n = k + length (j # js))"
      by (auto intro!: exI [of _ "{}"])
  next
    fix x w'
    assume "\<forall>old. aw_jobs w (job_id (job_fail (clock k) err j)) = Some old \<longrightarrow>
      writes_back prec old (job_fail (clock k) err j) \<longrightarrow> w' = ?w"
    with j have w': "w' = ?w" by simp
    show "sat invar \<alpha> (reap J err clock (k + 1) js) w'
        (\<lambda>r w'. \<exists>S \<subseteq> set (j # js). reaped err S w w' \<and>
           (\<forall>n. r = Inr n \<longrightarrow> S = set (j # js) \<and> n = k + length (j # js)))"
      unfolding w'
    proof (rule sat_conseq [OF IH])
      fix r w'
      assume "\<exists>S \<subseteq> set js. reaped err S ?w w' \<and>
        (\<forall>n. r = Inr n \<longrightarrow> S = set js \<and> n = k + 1 + length js)"
      then obtain S where S: "S \<subseteq> set js" "reaped err S ?w w'"
        and n: "\<And>n. r = Inr n \<Longrightarrow> S = set js \<and> n = k + 1 + length js" by blast
      have "\<forall>x \<in> S. job_id x \<noteq> job_id j"
        using S(1) fresh by (metis image_eqI subset_iff)
      from reaped_step [OF S(2) j this Cons.prems(3)] S(1) n
      show "\<exists>S \<subseteq> set (j # js). reaped err S w w' \<and>
           (\<forall>n. r = Inr n \<longrightarrow> S = set (j # js) \<and> n = k + length (j # js))"
        by (intro exI [of _ "insert j S"]) auto
    qed
  qed
qed

text \<open>One tick of the reaper with a valid timeout.\<close>

lemma fail_stale_sat:
  assumes dur: "from_std timeout = Inr dur"
  shows "sat invar \<alpha> (fail_stale_jobs J from_std timeout now clock) w
     (\<lambda>r w'. \<exists>S \<subseteq> {j \<in> ran (aw_jobs w). stale (prec (now - dur)) j}.
        reaped (timeout_error timeout) S w w' \<and>
        (\<forall>n. r = Inr n \<longrightarrow> S = {j \<in> ran (aw_jobs w). stale (prec (now - dur)) j} \<and> n = card S))"
    (is "sat _ _ _ _ ?Q")
proof (rule sat_assume)
  fix s
  assume "invar s" and "\<alpha> s = w"
  then have key: "keyed job_id (aw_jobs w)" using job_keyed by blast
  let ?stale = "{j \<in> ran (aw_jobs w). stale (prec (now - dur)) j}"
  show "sat invar \<alpha> (fail_stale_jobs J from_std timeout now clock) w ?Q"
    unfolding fail_stale_jobs_def dur sum.case
  proof (rule sat_bind_port [OF job_stale])
    fix e
    show "?Q (Inl e) w" by (auto intro!: exI [of _ "{}"])
  next
    fix js w'
    assume "w' = w \<and> distinct (map job_id js) \<and>
      (\<forall>j. (j \<in> set js) = (aw_jobs w (job_id j) = Some j \<and> stale (prec (now - dur)) j))"
    then have w': "w' = w" and dist: "distinct (map job_id js)"
      and js: "\<And>j. j \<in> set js \<longleftrightarrow> aw_jobs w (job_id j) = Some j \<and> stale (prec (now - dur)) j" by auto
    have known: "\<forall>j \<in> set js. aw_jobs w (job_id j) = Some j" using js by blast
    have set: "set js = ?stale" using js keyed_ran [OF key] by auto
    have card: "card (set js) = length js"
      using dist by (simp add: distinct_card distinct_map)
    show "sat invar \<alpha> (reap J (timeout_error timeout) clock 0 js) w' ?Q"
      unfolding w'
      by (rule sat_conseq [OF reap_sat [OF known dist key]]) (auto simp: set [symmetric] card)
  qed
qed

end

end
