(* ===== verification/Run_Due.thy ===== *)
theory Run_Due
  imports Launch
begin

text \<open>
  \<open>application/run_due_searches.rs\<close>: the scheduler tick, which launches a job for every
  recurring search that is due. \<open>due_runs\<close> is the abstract account of a tick: one \<open>due_step\<close>
  per listed search, each of which marks the search as ran.
\<close>

definition SEEN_URLS_LIMIT :: "32 word" where
  "SEEN_URLS_LIMIT = 200"

record due_draw =
  dd_job_id :: uuid
  dd_created :: time
  dd_failed :: time

definition recurring_job_new :: "due_draw \<Rightarrow> recurring_search \<Rightarrow> port_error + research_job" where
  "recurring_job_new d x =
     (case research_job_new (dd_job_id d) (dd_created d) (rs_user_id x) (rs_keyword x) of
        Inl e \<Rightarrow> Inl (PortError (job_error_msg e))
      | Inr job \<Rightarrow> Inr (with_recurring (rs_id x) (with_mode (rs_mode x) job)))"

text \<open>The body of the loop for one search: whether a job was launched.\<close>

definition run_due_one ::
  "'s recurring_repo \<Rightarrow> 's job_repo \<Rightarrow> 's job_dispatcher \<Rightarrow> 32 word \<Rightarrow> time \<Rightarrow> due_draw \<Rightarrow>
   recurring_search \<Rightarrow> ('s, bool) port" where
  "run_due_one R J disp daily_quota now d x =
     io_bind (jr_count_created_since J (rs_user_id x) (now - hours 24)) (\<lambda>used.
     if unat daily_quota \<le> used then
       io_bind (rr_mark_ran R (rs_id x) now) (\<lambda>_. io_ret False)
     else
       io_bind (jr_recent_urls_for_recurring J (rs_id x) SEEN_URLS_LIMIT) (\<lambda>seen_urls.
       io_bind (io_of (recurring_job_new d x)) (\<lambda>job.
       io_bind (jr_insert J job) (\<lambda>_.
       io_bind (io_result (disp job seen_urls)) (\<lambda>sent.
       case sent of
         Inl err \<Rightarrow>
           io_bind (jr_update J (job_fail (dd_failed d) (dispatch_failed err) job)) (\<lambda>_.
           io_bind (rr_mark_ran R (rs_id x) now) (\<lambda>_. io_ret False))
       | Inr _ \<Rightarrow> io_bind (rr_mark_ran R (rs_id x) now) (\<lambda>_. io_ret True))))))"

fun run_due_loop ::
  "'s recurring_repo \<Rightarrow> 's job_repo \<Rightarrow> 's job_dispatcher \<Rightarrow> 32 word \<Rightarrow> time \<Rightarrow> (nat \<Rightarrow> due_draw) \<Rightarrow>
   nat \<Rightarrow> nat \<Rightarrow> recurring_search list \<Rightarrow> ('s, nat) port" where
  "run_due_loop R J disp daily_quota now draws k launched [] = io_ret launched"
| "run_due_loop R J disp daily_quota now draws k launched (x # xs) =
     io_bind (run_due_one R J disp daily_quota now (draws k) x) (\<lambda>started.
     run_due_loop R J disp daily_quota now draws (k + 1)
       (if started then launched + 1 else launched) xs)"

definition run_due_searches ::
  "'s recurring_repo \<Rightarrow> 's job_repo \<Rightarrow> 's job_dispatcher \<Rightarrow> 32 word \<Rightarrow> time \<Rightarrow> (nat \<Rightarrow> due_draw) \<Rightarrow>
   ('s, nat) port" where
  "run_due_searches R J disp daily_quota now draws =
     io_bind (rr_list_due R now) (\<lambda>due.
     run_due_loop R J disp daily_quota now draws 0 0 due)"

section \<open>The abstract tick\<close>

definition mark_search :: "time \<Rightarrow> recurring_search \<Rightarrow> aworld \<Rightarrow> aworld" where
  "mark_search now x w = w\<lparr>aw_recurring := map_modify (rs_id x) (mark_ran now) (aw_recurring w)\<rparr>"

lemma mark_search_simps [simp]:
  "aw_jobs (mark_search now x w) = aw_jobs w" "aw_results (mark_search now x w) = aw_results w"
  "aw_calls (mark_search now x w) = aw_calls w" "aw_steps (mark_search now x w) = aw_steps w"
  "aw_recurring (mark_search now x w) = map_modify (rs_id x) (mark_ran now) (aw_recurring w)"
  by (simp_all add: mark_search_def)

text \<open>
  What the tick does with one search. The flag tells whether a job was launched; when the
  dispatch fails, the job stays behind as failed.
\<close>

definition due_step ::
  "(research_job \<Rightarrow> rstr list \<Rightarrow> port_error + unit \<Rightarrow> outcall list \<Rightarrow> bool) \<Rightarrow> 32 word \<Rightarrow> time \<Rightarrow>
   due_draw \<Rightarrow> recurring_search \<Rightarrow> aworld \<Rightarrow> bool \<Rightarrow> aworld \<Rightarrow> bool" where
  "due_step sent quota now d x w started w' \<longleftrightarrow>
     (let used = card (jobs_since w (rs_user_id x) (now - hours 24)) in
      if unat quota \<le> used then \<not> started \<and> w' = mark_search now x w
      else \<exists>job urls cs. recurring_job_new d x = Inr job \<and> run_memory w job urls \<and>
        (if started then sent job urls (Inr ()) cs \<and>
                         w' = mark_search now x (log_calls cs (add_job job w))
         else \<exists>err. sent job urls (Inl err) cs \<and>
                w' = mark_search now x
                       (log_calls cs (add_job (job_fail (dd_failed d) (dispatch_failed err) job) w))))"

text \<open>How far one search can have got when the tick is aborted: it is not marked.\<close>

definition due_partial ::
  "32 word \<Rightarrow> time \<Rightarrow> due_draw \<Rightarrow> recurring_search \<Rightarrow> aworld \<Rightarrow> aworld \<Rightarrow> bool" where
  "due_partial quota now d x w w' \<longleftrightarrow>
     w' = w \<or>
     (card (jobs_since w (rs_user_id x) (now - hours 24)) < unat quota \<and>
      (\<exists>job job' cs. recurring_job_new d x = Inr job \<and>
        (job' = job \<or> (\<exists>err. job' = job_fail (dd_failed d) err job)) \<and>
        w' = log_calls cs (add_job job' w)))"

inductive due_runs ::
  "(research_job \<Rightarrow> rstr list \<Rightarrow> port_error + unit \<Rightarrow> outcall list \<Rightarrow> bool) \<Rightarrow> 32 word \<Rightarrow> time \<Rightarrow>
   (nat \<Rightarrow> due_draw) \<Rightarrow> nat \<Rightarrow> recurring_search list \<Rightarrow> aworld \<Rightarrow> nat \<Rightarrow> aworld \<Rightarrow> bool"
  for sent quota now draws where
  nil: "due_runs sent quota now draws k [] w 0 w"
| cons: "due_step sent quota now (draws k) x w started w1 \<Longrightarrow>
         due_runs sent quota now draws (Suc k) xs w1 n w2 \<Longrightarrow>
         due_runs sent quota now draws k (x # xs) w ((if started then 1 else 0) + n) w2"

inductive_cases due_runs_ConsE: "due_runs sent quota now draws k (x # xs) w n w'"

text \<open>The outcome of a tick over the listed searches.\<close>

definition due_outcome ::
  "(research_job \<Rightarrow> rstr list \<Rightarrow> port_error + unit \<Rightarrow> outcall list \<Rightarrow> bool) \<Rightarrow> 32 word \<Rightarrow> time \<Rightarrow>
   (nat \<Rightarrow> due_draw) \<Rightarrow> nat \<Rightarrow> nat \<Rightarrow> recurring_search list \<Rightarrow> aworld \<Rightarrow> port_error + nat \<Rightarrow> aworld \<Rightarrow> bool"
  where
  "due_outcome sent quota now draws k launched xs w r w' \<longleftrightarrow>
     (case r of
        Inr n \<Rightarrow> launched \<le> n \<and> due_runs sent quota now draws k xs w (n - launched) w'
      | Inl e \<Rightarrow> \<exists>done x rest n w1. xs = done @ x # rest \<and>
                   due_runs sent quota now draws k done w n w1 \<and>
                   due_partial quota now (draws (k + length done)) x w1 w')"

lemma due_partialI:
  assumes "\<not> unat quota \<le> card (jobs_since w (rs_user_id x) (now - hours 24))"
    and "recurring_job_new d x = Inr job"
  shows "due_partial quota now d x w (log_calls cs (add_job job w))"
    and "due_partial quota now d x w (add_job job w)"
    and "due_partial quota now d x w (log_calls cs (add_job (job_fail (dd_failed d) err job) w))"
proof -
  have *: "due_partial quota now d x w (log_calls ds (add_job job' w))"
    if "job' = job \<or> (\<exists>err. job' = job_fail (dd_failed d) err job)" for ds job'
    unfolding due_partial_def using assms that by (simp only: not_le) blast
  from * [of job] * [of job "[]"] * [of "job_fail (dd_failed d) err job"]
  show "due_partial quota now d x w (log_calls cs (add_job job w))"
    "due_partial quota now d x w (add_job job w)"
    "due_partial quota now d x w (log_calls cs (add_job (job_fail (dd_failed d) err job) w))"
    by auto
qed

lemma due_partial_refl [simp, intro]: "due_partial quota now d x w w"
  by (simp add: due_partial_def)

lemma due_stepI:
  assumes "\<not> unat quota \<le> card (jobs_since w (rs_user_id x) (now - hours 24))"
    and "recurring_job_new d x = Inr job" and "run_memory w job urls"
  shows "sent job urls (Inr ()) cs \<Longrightarrow>
         due_step sent quota now d x w True (mark_search now x (log_calls cs (add_job job w)))"
    and "sent job urls (Inl err) cs \<Longrightarrow>
         due_step sent quota now d x w False (mark_search now x
           (log_calls cs (add_job (job_fail (dd_failed d) (dispatch_failed err) job) w)))"
  unfolding due_step_def Let_def by (simp_all only: assms(1) if_False if_True) (use assms in blast)+

lemma due_step_skip [intro]:
  "unat quota \<le> card (jobs_since w (rs_user_id x) (now - hours 24)) \<Longrightarrow>
   due_step sent quota now d x w False (mark_search now x w)"
  by (simp add: due_step_def Let_def)

lemma recurring_job_new_fields:
  "recurring_job_new d x = Inr job \<Longrightarrow>
   job_id job = dd_job_id d \<and> job_user_id job = rs_user_id x \<and> job_mode job = rs_mode x \<and>
   job_recurring_search_id job = Some (rs_id x) \<and> job_status job = Pending \<and>
   job_created_at job = now_utc (dd_created d) \<and> job_completed_at job = None \<and>
   job_usage job = job_usage_default \<and> job_inv job"
  unfolding recurring_job_new_def
  by (auto simp: with_recurring_def with_mode_def split: sum.splits
      dest: research_job_new_Inr job_inv_new(2) [of _ _ _ _ _ "rs_id x" "rs_mode x"])

lemma due_outcome_cons:
  assumes step: "due_step sent quota now (draws k) x w started w1"
    and rest: "due_outcome sent quota now draws (k + 1) (if started then l + 1 else l) xs w1 r w'"
  shows "due_outcome sent quota now draws k l (x # xs) w r w'"
proof (cases r)
  case (Inr n)
  with rest have le: "(if started then l + 1 else l) \<le> n"
    and runs: "due_runs sent quota now draws (Suc k) xs w1 (n - (if started then l + 1 else l)) w'"
    by (simp_all add: due_outcome_def)
  from due_runs.cons [where draws = draws and n = "n - (if started then l + 1 else l)", OF step runs] le
  have "due_runs sent quota now draws k (x # xs) w (n - l) w'"
    by (cases started) (simp_all add: Suc_diff_Suc Suc_le_eq)
  with Inr le show ?thesis by (cases started) (simp_all add: due_outcome_def)
next
  case (Inl e)
  with rest obtain "done" y ys n w2 where xs: "xs = done @ y # ys"
    and runs: "due_runs sent quota now draws (Suc k) done w1 n w2"
    and part: "due_partial quota now (draws (Suc k + length done)) y w2 w'"
    by (auto simp: due_outcome_def)
  have "x # xs = (x # done) @ y # ys" by (simp add: xs)
  moreover have "due_partial quota now (draws (k + length (x # done))) y w2 w'" using part by simp
  ultimately show ?thesis
    using due_runs.cons [OF step runs] unfolding due_outcome_def Inl sum.case by blast
qed

text \<open>What a tick did to the tables, read off the abstract account.\<close>

definition due_job :: "due_draw \<Rightarrow> recurring_search \<Rightarrow> bool \<Rightarrow> research_job \<Rightarrow> bool" where
  "due_job d x started j \<longleftrightarrow>
     job_id j = dd_job_id d \<and> job_user_id j = rs_user_id x \<and> job_mode j = rs_mode x \<and>
     job_recurring_search_id j = Some (rs_id x) \<and> job_created_at j = now_utc (dd_created d) \<and>
     job_status j = (if started then Pending else Failed) \<and> job_inv j"

lemma due_step_jobs:
  assumes "due_step sent quota now d x w started w'"
  shows "(\<not> started \<and> aw_jobs w' = aw_jobs w \<and>
            unat quota \<le> card (jobs_since w (rs_user_id x) (now - hours 24))) \<or>
         (card (jobs_since w (rs_user_id x) (now - hours 24)) < unat quota \<and>
            (\<exists>j. due_job d x started j \<and> aw_jobs w' = (aw_jobs w)(dd_job_id d \<mapsto> j)))"
proof (cases "unat quota \<le> card (jobs_since w (rs_user_id x) (now - hours 24))")
  case True
  with assms show ?thesis by (simp add: due_step_def Let_def)
next
  case False
  with assms obtain job urls cs where job: "recurring_job_new d x = Inr job"
    and w': "started \<and> w' = mark_search now x (log_calls cs (add_job job w)) \<or>
      \<not> started \<and> (\<exists>err. w' = mark_search now x
        (log_calls cs (add_job (job_fail (dd_failed d) (dispatch_failed err) job) w)))"
    by (cases started) (auto simp: due_step_def Let_def)
  note fields = recurring_job_new_fields [OF job]
  have failed: "due_job d x False (job_fail (dd_failed d) err job)" for err
    using fields job_fail_inv [of job] by (simp add: due_job_def) (simp add: job_fail_def)
  have started: "due_job d x True job" using fields by (simp add: due_job_def)
  from w' have "\<exists>j. due_job d x started j \<and> aw_jobs w' = (aw_jobs w)(dd_job_id d \<mapsto> j)"
  proof
    assume "started \<and> w' = mark_search now x (log_calls cs (add_job job w))"
    with started fields show ?thesis by (intro exI [of _ job]) simp
  next
    assume "\<not> started \<and> (\<exists>err. w' = mark_search now x
        (log_calls cs (add_job (job_fail (dd_failed d) (dispatch_failed err) job) w)))"
    then obtain err where "\<not> started" and "w' = mark_search now x
        (log_calls cs (add_job (job_fail (dd_failed d) (dispatch_failed err) job) w))" by blast
    with failed fields show ?thesis
      by (intro exI [of _ "job_fail (dd_failed d) (dispatch_failed err) job"]) simp
  qed
  with False show ?thesis by simp
qed

lemma due_step_frame:
  assumes "due_step sent quota now d x w started w'"
  shows "aw_recurring w' = map_modify (rs_id x) (mark_ran now) (aw_recurring w)"
    and "aw_results w' = aw_results w" and "aw_steps w' = aw_steps w"
  using assms by (auto simp: due_step_def Let_def split: if_splits)

definition marked :: "time \<Rightarrow> uuid set \<Rightarrow> (uuid \<rightharpoonup> recurring_search) \<Rightarrow> (uuid \<rightharpoonup> recurring_search)" where
  "marked now S m i = (if i \<in> S then map_option (mark_ran now) (m i) else m i)"

lemma marked_insert: "marked now S (map_modify k (mark_ran now) m) = marked now (insert k S) m"
  by (rule ext) (auto simp: marked_def map_modify_def mark_ran_def split: option.splits)

definition draws_fresh :: "(nat \<Rightarrow> due_draw) \<Rightarrow> nat \<Rightarrow> nat \<Rightarrow> aworld \<Rightarrow> bool" where
  "draws_fresh draws k n w \<longleftrightarrow>
     (\<forall>i j. k \<le> i \<longrightarrow> i < j \<longrightarrow> j < k + n \<longrightarrow> dd_job_id (draws i) \<noteq> dd_job_id (draws j)) \<and>
     (\<forall>i. k \<le> i \<longrightarrow> i < k + n \<longrightarrow> dd_job_id (draws i) \<notin> dom (aw_jobs w))"

lemma draws_fresh_mono: "draws_fresh draws k n w \<Longrightarrow> m \<le> n \<Longrightarrow> draws_fresh draws k m w"
  by (auto simp: draws_fresh_def)

text \<open>The searches a tick lists, and fresh ids for as many jobs as there are searches.\<close>

definition due_list :: "time \<Rightarrow> aworld \<Rightarrow> recurring_search list \<Rightarrow> bool" where
  "due_list now w due \<longleftrightarrow>
     distinct (map rs_id due) \<and>
     (\<forall>x. x \<in> set due \<longleftrightarrow> aw_recurring w (rs_id x) = Some x \<and> is_due now x)"

definition due_draws_fresh :: "(nat \<Rightarrow> due_draw) \<Rightarrow> aworld \<Rightarrow> bool" where
  "due_draws_fresh draws w \<longleftrightarrow> draws_fresh draws 0 (card (ran (aw_recurring w))) w"

lemma due_list_length:
  assumes "due_list now w due" and "keyed rs_id (aw_recurring w)"
  shows "length due \<le> card (ran (aw_recurring w))"
proof -
  have "set due \<subseteq> ran (aw_recurring w)"
    using assms(1) by (auto simp: due_list_def intro: ranI)
  moreover have "distinct due" using assms(1) by (auto simp: due_list_def distinct_map)
  ultimately show ?thesis
    using keyed_finite [OF assms(2)] by (metis card_mono distinct_card)
qed

lemma draws_fresh_step:
  assumes fresh: "draws_fresh draws k (Suc n) w"
    and step: "due_step sent quota now (draws k) x w started w'"
  shows "dd_job_id (draws k) \<notin> dom (aw_jobs w)" and "draws_fresh draws (Suc k) n w'"
proof -
  from fresh show "dd_job_id (draws k) \<notin> dom (aw_jobs w)" by (simp add: draws_fresh_def)
  have "dd_job_id (draws i) \<notin> dom (aw_jobs w')" if "Suc k \<le> i" "i < Suc k + n" for i
  proof -
    have "dd_job_id (draws k) \<noteq> dd_job_id (draws i)"
      using fresh [unfolded draws_fresh_def, THEN conjunct1, rule_format, of k i] that by simp
    moreover have "dd_job_id (draws i) \<notin> dom (aw_jobs w)"
      using fresh that by (simp add: draws_fresh_def)
    ultimately show ?thesis using due_step_jobs [OF step] by auto
  qed
  then show "draws_fresh draws (Suc k) n w'"
    using fresh by (simp add: draws_fresh_def)
qed

text \<open>The ids of the jobs that appeared between two worlds and wait for a worker.\<close>

definition launched_ids :: "aworld \<Rightarrow> aworld \<Rightarrow> uuid set" where
  "launched_ids w w' =
     {i. i \<notin> dom (aw_jobs w) \<and> (\<exists>j. aw_jobs w' i = Some j \<and> job_status j = Pending)}"

definition new_jobs_from :: "(nat \<Rightarrow> due_draw) \<Rightarrow> nat \<Rightarrow> recurring_search list \<Rightarrow> aworld \<Rightarrow> aworld \<Rightarrow> bool" where
  "new_jobs_from draws k xs w w' \<longleftrightarrow>
     (\<forall>i j. aw_jobs w' i = Some j \<longrightarrow> i \<notin> dom (aw_jobs w) \<longrightarrow>
        (\<exists>m < length xs. \<exists>started. due_job (draws (k + m)) (xs ! m) started j))"

lemma due_runs_effect:
  "due_runs sent quota now draws k xs w n w' \<Longrightarrow> draws_fresh draws k (length xs) w \<Longrightarrow>
   aw_recurring w' = marked now (rs_id ` set xs) (aw_recurring w) \<and>
   aw_results w' = aw_results w \<and> aw_steps w' = aw_steps w \<and>
   aw_jobs w \<subseteq>\<^sub>m aw_jobs w' \<and> new_jobs_from draws k xs w w' \<and>
   finite (launched_ids w w') \<and> n = card (launched_ids w w')"
proof (induction rule: due_runs.induct)
  case (nil k w)
  have "launched_ids w w = {}" by (auto simp: launched_ids_def)
  then show ?case by (simp add: marked_def new_jobs_from_def domIff)
next
  case (cons k x w started w1 xs n w2)
  have fresh: "dd_job_id (draws k) \<notin> dom (aw_jobs w)"
    and fresh1: "draws_fresh draws (Suc k) (length xs) w1"
    using draws_fresh_step [where draws = draws and k = k, OF _ cons.hyps(1)] cons.prems by simp_all
  note IH = cons.IH [OF fresh1]
  note frame = due_step_frame [OF cons.hyps(1)]
  have rec: "aw_recurring w2 = marked now (rs_id ` set (x # xs)) (aw_recurring w)"
    using IH frame(1) by (simp add: marked_insert)
  have sub: "aw_jobs w \<subseteq>\<^sub>m aw_jobs w1"
    using due_step_jobs [OF cons.hyps(1)] fresh by (auto simp: map_le_def)
  then have sub2: "aw_jobs w \<subseteq>\<^sub>m aw_jobs w2" using IH map_le_trans by blast
  have new1: "aw_jobs w1 i = Some j \<Longrightarrow> i \<notin> dom (aw_jobs w) \<Longrightarrow>
      i = dd_job_id (draws k) \<and> due_job (draws k) x started j" for i j
    using due_step_jobs [OF cons.hyps(1)] by (auto split: if_splits)
  have new: "new_jobs_from draws k (x # xs) w w2"
    unfolding new_jobs_from_def
  proof (intro allI impI)
    fix i j
    assume j: "aw_jobs w2 i = Some j" and i: "i \<notin> dom (aw_jobs w)"
    show "\<exists>m < length (x # xs). \<exists>started. due_job (draws (k + m)) ((x # xs) ! m) started j"
    proof (cases "i \<in> dom (aw_jobs w1)")
      case True
      then have "aw_jobs w1 i = Some j" using IH j by (auto simp: map_le_def)
      from new1 [OF this i] show ?thesis by (intro exI [of _ 0]) auto
    next
      case False
      then obtain m st where "m < length xs" "due_job (draws (Suc k + m)) (xs ! m) st j"
        using IH j unfolding new_jobs_from_def by blast
      then show ?thesis by (intro exI [of _ "Suc m"]) auto
    qed
  qed
  have ids: "launched_ids w w2 =
      (if started then insert (dd_job_id (draws k)) (launched_ids w1 w2) else launched_ids w1 w2)"
    using due_step_jobs [OF cons.hyps(1)]
  proof (elim disjE conjE exE)
    assume "\<not> started" "aw_jobs w1 = aw_jobs w"
    then show ?thesis by (simp add: launched_ids_def)
  next
    fix j
    assume j: "due_job (draws k) x started j" "aw_jobs w1 = (aw_jobs w)(dd_job_id (draws k) \<mapsto> j)"
    then have w1: "aw_jobs w1 (dd_job_id (draws k)) = Some j" by simp
    have "aw_jobs w1 \<subseteq>\<^sub>m aw_jobs w2" using IH by blast
    with w1 have w2: "aw_jobs w2 (dd_job_id (draws k)) = Some j" by (metis domI map_le_def)
    have "i \<in> launched_ids w w2 \<longleftrightarrow> (started \<and> i = dd_job_id (draws k)) \<or> i \<in> launched_ids w1 w2" for i
      using j w2 fresh
      by (cases "i = dd_job_id (draws k)"; cases started) (auto simp: launched_ids_def due_job_def)
    then show ?thesis by (auto simp: set_eq_iff)
  qed
  have notin: "dd_job_id (draws k) \<notin> launched_ids w1 w2" if started
    using due_step_jobs [OF cons.hyps(1)] that by (auto simp: launched_ids_def)
  show ?case
    using rec frame sub2 new IH ids notin by (cases started) simp_all
qed

text \<open>The quota over a tick, aborted or not.\<close>

lemma quota_ok_jobs: "aw_jobs w' = aw_jobs w \<Longrightarrow> quota_ok q w' \<longleftrightarrow> quota_ok q w"
  by (simp add: quota_ok_def jobs_in_day_def)

lemma micros_ok_jobs: "aw_jobs w' = aw_jobs w \<Longrightarrow> micros_ok w' \<longleftrightarrow> micros_ok w"
  by (simp add: micros_ok_def)

definition quota_inv :: "32 word \<Rightarrow> aworld \<Rightarrow> bool" where
  "quota_inv quota w \<longleftrightarrow> keyed job_id (aw_jobs w) \<and> micros_ok w \<and> quota_ok (unat quota) w"

lemma quota_inv_jobs: "aw_jobs w' = aw_jobs w \<Longrightarrow> quota_inv quota w \<Longrightarrow> quota_inv quota w'"
  unfolding quota_inv_def by (metis quota_ok_jobs micros_ok_jobs)

lemma quota_invD:
  "quota_inv quota w \<Longrightarrow> keyed job_id (aw_jobs w)" "quota_inv quota w \<Longrightarrow> micros_ok w"
  "quota_inv quota w \<Longrightarrow> quota_ok (unat quota) w"
  by (simp_all add: quota_inv_def)

lemma quota_inv_add:
  assumes "quota_inv quota w" and "now \<le> created"
    and "card (jobs_since w u (now - hours 24)) < unat quota"
    and "job_user_id job = u" "job_created_at job = now_utc created"
    and "job_id job \<notin> dom (aw_jobs w)"
  shows "quota_inv quota (add_job job w)"
  unfolding quota_inv_def add_job_jobs
  by (intro conjI keyed_update quota_add [OF quota_invD [OF assms(1)] assms(2-6)] refl
      quota_invD(1) [OF assms(1)])

lemma due_step_quota:
  assumes step: "due_step sent quota now d x w started w'" and ok: "quota_inv quota w"
    and clock: "now \<le> dd_created d" and fresh: "dd_job_id d \<notin> dom (aw_jobs w)"
  shows "quota_inv quota w'"
  using due_step_jobs [OF step]
proof (elim disjE conjE exE)
  assume "aw_jobs w' = aw_jobs w"
  then show ?thesis using ok by (rule quota_inv_jobs)
next
  fix j
  assume used: "card (jobs_since w (rs_user_id x) (now - hours 24)) < unat quota"
    and j: "due_job d x started j" "aw_jobs w' = (aw_jobs w)(dd_job_id d \<mapsto> j)"
  then have "quota_inv quota (add_job j w)"
    using quota_inv_add [OF ok clock used, of j] fresh by (simp add: due_job_def)
  then show ?thesis
    by (rule quota_inv_jobs [rotated]) (use j in \<open>simp add: due_job_def\<close>)
qed

lemma due_partial_quota:
  assumes part: "due_partial quota now d x w w'" and ok: "quota_inv quota w"
    and clock: "now \<le> dd_created d" and fresh: "dd_job_id d \<notin> dom (aw_jobs w)"
  shows "quota_inv quota w'"
proof (cases "w' = w")
  case False
  then obtain job job' cs where used: "card (jobs_since w (rs_user_id x) (now - hours 24)) < unat quota"
    and job: "recurring_job_new d x = Inr job"
    and job': "job' = job \<or> (\<exists>err. job' = job_fail (dd_failed d) err job)"
    and w': "w' = log_calls cs (add_job job' w)"
    using part by (auto simp: due_partial_def)
  have "quota_inv quota (add_job job' w)"
    using recurring_job_new_fields [OF job] job' fresh
    by (intro quota_inv_add [OF ok clock used]) auto
  then show ?thesis by (rule quota_inv_jobs [rotated]) (simp add: w')
qed (use ok in simp)

lemma due_runs_quota:
  "due_runs sent quota now draws k xs w n w' \<Longrightarrow> draws_fresh draws k (length xs) w \<Longrightarrow>
   \<forall>i. now \<le> dd_created (draws i) \<Longrightarrow> quota_inv quota w \<Longrightarrow> quota_inv quota w'"
proof (induction rule: due_runs.induct)
  case (cons k x w started w1 xs n w2)
  have fresh: "dd_job_id (draws k) \<notin> dom (aw_jobs w)"
    and fresh1: "draws_fresh draws (Suc k) (length xs) w1"
    using draws_fresh_step [where draws = draws and k = k, OF _ cons.hyps(1)] cons.prems by simp_all
  have "quota_inv quota w1"
    using due_step_quota [where d = "draws k", OF cons.hyps(1)] cons.prems fresh by blast
  then show ?case using cons.IH fresh1 cons.prems by blast
qed simp

locale run_due_ports = launch_ports prec J disp invar \<alpha> fadd stored sent + recurring_port prec R invar \<alpha>
  for prec :: "time \<Rightarrow> time" and R :: "'s recurring_repo" and J :: "'s job_repo" and disp :: "'s job_dispatcher"
    and invar :: "'s \<Rightarrow> bool" and \<alpha> :: "'s \<Rightarrow> aworld" and fadd :: "f64 \<Rightarrow> f64 \<Rightarrow> f64"
    and stored :: "search_result \<Rightarrow> search_result"
    and sent :: "research_job \<Rightarrow> rstr list \<Rightarrow> port_error + unit \<Rightarrow> outcall list \<Rightarrow> bool"
begin

lemma sat_mark:
  assumes "\<And>e. Q (Inl e) w" and "sat invar \<alpha> (f ()) (mark_search (prec now) x w) Q"
  shows "sat invar \<alpha> (io_bind (rr_mark_ran R (rs_id x) now) f) w Q"
  by (rule sat_bind_port [OF recurring_mark_ran])
    (use assms in \<open>simp_all add: mark_search_def\<close>)

lemma sat_memory:
  assumes "\<And>e. Q (Inl e) w"
    and "\<And>urls. distinct urls \<Longrightarrow> length urls \<le> 200 \<Longrightarrow> set urls \<subseteq> delivered_urls w i \<Longrightarrow>
           sat invar \<alpha> (f urls) w Q"
  shows "sat invar \<alpha> (io_bind (jr_recent_urls_for_recurring J i SEEN_URLS_LIMIT) f) w Q"
  by (rule sat_bind_port [OF job_recent_urls]) (use assms in \<open>simp_all add: SEEN_URLS_LIMIT_def\<close>)

lemma run_due_one_sat:
  assumes fresh: "dd_job_id d \<notin> dom (aw_jobs w)"
  shows "sat invar \<alpha> (run_due_one R J disp quota now d x) w
     (\<lambda>r w'. case r of Inr started \<Rightarrow> due_step sent quota (prec now) d x w started w'
                     | Inl e \<Rightarrow> due_partial quota (prec now) d x w w')"
proof (cases "recurring_job_new d x")
  case (Inl e)
  then show ?thesis
    unfolding run_due_one_def
    by (intro sat_port_count sat_memory sat_mark sat_flow)
      (auto intro: due_partialI due_stepI simp: prec_units)
next
  case (Inr job)
  note job = recurring_job_new_fields [OF Inr]
  show ?thesis
    unfolding run_due_one_def
    by (intro sat_port_count sat_memory sat_mark sat_port_insert sat_port_update
          sat_bind_result_call [OF dispatch] sat_flow)
      (use fresh in \<open>auto simp: Inr job run_memory_def prec_units exact_job_def prec_now
         intro: due_partialI [OF _ Inr] due_stepI [OF _ Inr]\<close>)
qed

lemma run_due_loop_sat:
  "draws_fresh draws k (length xs) w \<Longrightarrow>
   sat invar \<alpha> (run_due_loop R J disp quota now draws k launched xs) w
     (due_outcome sent quota (prec now) draws k launched xs w)"
proof (induction xs arbitrary: k launched w)
  case Nil
  then show ?case by (auto intro!: sat_ret due_runs.nil simp: due_outcome_def)
next
  case (Cons x xs)
  let ?loop = "\<lambda>started. run_due_loop R J disp quota now draws (k + 1)
      (if started then launched + 1 else launched) xs"
  let ?Q = "due_outcome sent quota (prec now) draws k launched (x # xs) w"
  have fresh: "dd_job_id (draws k) \<notin> dom (aw_jobs w)"
    using Cons.prems by (simp add: draws_fresh_def)
  have part: "?Q (Inl e) w'" if "due_partial quota (prec now) (draws k) x w w'" for e w'
    unfolding due_outcome_def sum.case
    by (intro exI [of _ "[]"] exI [of _ x] exI [of _ xs] exI [of _ 0] exI [of _ w])
      (simp add: that due_runs.nil)
  have rest: "sat invar \<alpha> (?loop started) w1 ?Q"
    if step: "due_step sent quota (prec now) (draws k) x w started w1" for started w1
  proof (rule sat_conseq)
    show "sat invar \<alpha> (?loop started) w1
        (due_outcome sent quota (prec now) draws (k + 1) (if started then launched + 1 else launched) xs w1)"
      using draws_fresh_step(2) [where draws = draws and k = k, OF _ step] Cons.prems
      by (intro Cons.IH) simp
  qed (rule due_outcome_cons [where draws = draws and k = k, OF step])
  show ?case
    unfolding run_due_loop.simps
  proof (rule sat_bind, rule sat_conseq [OF run_due_one_sat [OF fresh]])
    fix r :: "port_error + bool" and w1
    assume "case r of Inl e \<Rightarrow> due_partial quota (prec now) (draws k) x w w1
        | Inr started \<Rightarrow> due_step sent quota (prec now) (draws k) x w started w1"
    then show "case r of Inl e \<Rightarrow> ?Q (Inl e) w1 | Inr started \<Rightarrow> sat invar \<alpha> (?loop started) w1 ?Q"
      by (cases r) (simp_all only: sum.case part rest)
  qed
qed

lemma run_due_sat:
  assumes fresh: "due_draws_fresh draws w"
  shows "sat invar \<alpha> (run_due_searches R J disp quota now draws) w
     (\<lambda>r w'. (\<exists>due. due_list (prec now) w due \<and> draws_fresh draws 0 (length due) w \<and>
                due_outcome sent quota (prec now) draws 0 0 due w r w') \<or>
             (\<exists>e. r = Inl e \<and> w' = w))"
proof (rule sat_assume)
  fix s
  assume "invar s" "\<alpha> s = w"
  then have key: "keyed rs_id (aw_recurring w)" using recurring_keyed by blast
  show "sat invar \<alpha> (run_due_searches R J disp quota now draws) w
     (\<lambda>r w'. (\<exists>due. due_list (prec now) w due \<and> draws_fresh draws 0 (length due) w \<and>
                due_outcome sent quota (prec now) draws 0 0 due w r w') \<or>
             (\<exists>e. r = Inl e \<and> w' = w))"
    unfolding run_due_searches_def
  proof (rule sat_bind_port [OF recurring_due])
    fix due w'
    assume "w' = w \<and> distinct (map rs_id due) \<and>
      (\<forall>x. (x \<in> set due) = (aw_recurring w (rs_id x) = Some x \<and> is_due (prec now) x))"
    then have w': "w' = w" and due: "due_list (prec now) w due" by (auto simp: due_list_def)
    have ok: "draws_fresh draws 0 (length due) w"
      using draws_fresh_mono [OF fresh [unfolded due_draws_fresh_def] due_list_length [OF due key]] .
    show "sat invar \<alpha> (run_due_loop R J disp quota now draws 0 0 due) w'
       (\<lambda>r w'. (\<exists>due. due_list (prec now) w due \<and> draws_fresh draws 0 (length due) w \<and>
                  due_outcome sent quota (prec now) draws 0 0 due w r w') \<or>
               (\<exists>e. r = Inl e \<and> w' = w))"
      unfolding w'
      by (rule sat_conseq [OF run_due_loop_sat [OF ok]]) (use due ok in blast)
  qed simp
qed

end

end
