(* ===== verification/Ingest.thy ===== *)
theory Ingest
  imports Launch
begin

text \<open>
  \<open>application/ingest_results.rs\<close>: the callbacks of the agent's worker. Each is a
  read-modify-write of one job; a completion also notifies the owner's destinations when a
  recurring run found something new.
\<close>

datatype ingest_error = JobNotFound | IngestInfrastructure port_error

definition find_job :: "'s job_repo \<Rightarrow> uuid \<Rightarrow> ('s, ingest_error, research_job) io" where
  "find_job J i =
     io_bind (io_lift IngestInfrastructure (jr_find J i)) (\<lambda>found.
     case found of None \<Rightarrow> io_throw JobNotFound | Some job \<Rightarrow> io_ret job)"

definition digest_entry_of :: "search_result \<Rightarrow> digest_entry" where
  "digest_entry_of r =
     \<lparr>de_title = sr_title r, de_url = sr_url r, de_published_at = sr_published_at r\<rparr>"

definition digest_of :: "uuid \<Rightarrow> research_job \<Rightarrow> search_result list \<Rightarrow> digest" where
  "digest_of rs job new_results =
     \<lparr>dg_recurring_search_id = rs, dg_job_id = job_id job, dg_keyword = job_keyword job,
      dg_new_count = length new_results, dg_new_results = map digest_entry_of new_results\<rparr>"

text \<open>Failed deliveries are logged and skipped: \<^const>\<open>io_result\<close> with the result ignored.\<close>

fun notify_all ::
  "'s channel_notifier \<Rightarrow> digest \<Rightarrow> notification_channel list \<Rightarrow> ('s, 'e, unit) io" where
  "notify_all notify dg [] = io_ret ()"
| "notify_all notify dg (c # cs) = io_bind (io_result (notify c dg)) (\<lambda>_. notify_all notify dg cs)"

definition maybe_send_digest ::
  "'s recurring_repo \<Rightarrow> 's digest_sender \<Rightarrow> 's channel_repo \<Rightarrow> 's channel_notifier \<Rightarrow> research_job \<Rightarrow>
   search_result list \<Rightarrow> ('s, 'e, unit) io" where
  "maybe_send_digest R dsend C notify job results =
     (case job_recurring_search_id job of
        None \<Rightarrow> io_ret ()
      | Some rs \<Rightarrow>
          let new_results = filter sr_is_new results in
          if new_results = [] then io_ret ()
          else
            io_bind (io_result (rr_find R rs)) (\<lambda>found.
            case found of
              Inl e \<Rightarrow> io_ret ()
            | Inr None \<Rightarrow> io_ret ()
            | Inr (Some search) \<Rightarrow>
                let dg = digest_of rs job new_results in
                io_bind (case rs_webhook_url search of
                           None \<Rightarrow> io_ret (Inr ())
                         | Some url \<Rightarrow> io_result (dsend url dg)) (\<lambda>_.
                io_bind (io_result (cr_list_for_user C (rs_user_id search))) (\<lambda>listed.
                case listed of
                  Inl e \<Rightarrow> io_ret ()
                | Inr channels \<Rightarrow> notify_all notify dg channels))))"

definition ingest_start :: "'s job_repo \<Rightarrow> uuid \<Rightarrow> ('s, ingest_error, unit) io" where
  "ingest_start J i =
     io_bind (find_job J i) (\<lambda>job.
     io_lift IngestInfrastructure (jr_update J (job_start job)))"

definition ingest_complete ::
  "'s job_repo \<Rightarrow> 's recurring_repo \<Rightarrow> 's digest_sender \<Rightarrow> 's channel_repo \<Rightarrow> 's channel_notifier \<Rightarrow>
   time \<Rightarrow> uuid \<Rightarrow> search_result list \<Rightarrow> ('s, ingest_error, unit) io" where
  "ingest_complete J R dsend C notify now i results =
     io_bind (find_job J i) (\<lambda>job.
     io_bind (io_lift IngestInfrastructure (jr_store_results J i results)) (\<lambda>_.
     let job = job_complete now job in
     io_bind (io_lift IngestInfrastructure (jr_update J job)) (\<lambda>_.
     maybe_send_digest R dsend C notify job results)))"

definition record_step :: "'s job_repo \<Rightarrow> uuid \<Rightarrow> agent_step \<Rightarrow> ('s, ingest_error, unit) io" where
  "record_step J i st =
     io_bind (find_job J i) (\<lambda>_. io_lift IngestInfrastructure (jr_append_step J i st))"

definition ingest_request_input :: "'s job_repo \<Rightarrow> uuid \<Rightarrow> rstr \<Rightarrow> ('s, ingest_error, unit) io" where
  "ingest_request_input J i question =
     io_bind (find_job J i) (\<lambda>job.
     io_bind (io_lift (\<lambda>e. IngestInfrastructure (PortError (job_error_msg e)))
               (io_of (job_request_input question job))) (\<lambda>job.
     io_lift IngestInfrastructure (jr_update J job)))"

definition record_usage :: "'s job_repo \<Rightarrow> uuid \<Rightarrow> job_usage \<Rightarrow> ('s, ingest_error, unit) io" where
  "record_usage J i u =
     io_bind (find_job J i) (\<lambda>_. io_lift IngestInfrastructure (jr_add_usage J i u))"

definition ingest_fail :: "'s job_repo \<Rightarrow> time \<Rightarrow> uuid \<Rightarrow> rstr \<Rightarrow> ('s, ingest_error, unit) io" where
  "ingest_fail J now i err =
     io_bind (find_job J i) (\<lambda>job.
     io_lift IngestInfrastructure (jr_update J (job_fail now err job)))"

section \<open>What a callback promises\<close>

text \<open>
  A callback about an unknown job is refused, an infrastructure error leaves the world as it
  was, and a successful callback relates the job found to the world after.
\<close>

definition ingest_outcome ::
  "uuid \<Rightarrow> aworld \<Rightarrow> (research_job \<Rightarrow> aworld \<Rightarrow> bool) \<Rightarrow> ingest_error + unit \<Rightarrow> aworld \<Rightarrow> bool" where
  "ingest_outcome i w done r w' \<longleftrightarrow>
     (case r of
        Inl JobNotFound \<Rightarrow> aw_jobs w i = None \<and> w' = w
      | Inl (IngestInfrastructure e) \<Rightarrow> w' = w
      | Inr _ \<Rightarrow> (\<exists>job. aw_jobs w i = Some job \<and> job_id job = i \<and> done job w'))"

definition add_step :: "uuid \<Rightarrow> agent_step \<Rightarrow> aworld \<Rightarrow> aworld" where
  "add_step i st w = w\<lparr>aw_steps := (aw_steps w)(i := journal_insert st (aw_steps w i))\<rparr>"

lemma add_step_again [simp]: "add_step i st (add_step i st w) = add_step i st w"
  by (simp add: add_step_def journal_insert_again)

definition spend :: "(f64 \<Rightarrow> f64 \<Rightarrow> f64) \<Rightarrow> job_usage \<Rightarrow> research_job \<Rightarrow> research_job" where
  "spend fadd u job = job\<lparr>job_usage := job_usage_add fadd (job_usage job) u\<rparr>"

text \<open>
  The traffic of a completion. \<open>dsent\<close> and \<open>nsent\<close> are what the adapters promise per call;
  with \<open>flaky\<close> repositories a lookup may fail, and the rest of the notification is skipped.
\<close>

definition notify_traffic ::
  "(notification_channel \<Rightarrow> digest \<Rightarrow> port_error + unit \<Rightarrow> outcall list \<Rightarrow> bool) \<Rightarrow> digest \<Rightarrow>
   notification_channel list \<Rightarrow> outcall list \<Rightarrow> bool" where
  "notify_traffic nsent dg channels calls \<longleftrightarrow>
     (\<exists>css. calls = concat css \<and> list_all2 (\<lambda>c cs. \<exists>r. nsent c dg r cs) channels css)"

definition hook_traffic ::
  "(rstr \<Rightarrow> digest \<Rightarrow> port_error + unit \<Rightarrow> outcall list \<Rightarrow> bool) \<Rightarrow> digest \<Rightarrow> rstr option \<Rightarrow>
   outcall list \<Rightarrow> bool" where
  "hook_traffic dsent dg hook calls \<longleftrightarrow>
     (case hook of None \<Rightarrow> calls = [] | Some url \<Rightarrow> \<exists>r. dsent url dg r calls)"

definition digest_traffic ::
  "bool \<Rightarrow> (rstr \<Rightarrow> digest \<Rightarrow> port_error + unit \<Rightarrow> outcall list \<Rightarrow> bool) \<Rightarrow>
   (notification_channel \<Rightarrow> digest \<Rightarrow> port_error + unit \<Rightarrow> outcall list \<Rightarrow> bool) \<Rightarrow> aworld \<Rightarrow>
   research_job \<Rightarrow> search_result list \<Rightarrow> outcall list \<Rightarrow> bool" where
  "digest_traffic flaky dsent nsent w job results calls \<longleftrightarrow>
     (let new_results = filter sr_is_new results in
      case job_recurring_search_id job of
        None \<Rightarrow> calls = []
      | Some rs \<Rightarrow>
          if new_results = [] then calls = []
          else flaky \<and> calls = [] \<or>
            (case aw_recurring w rs of
               None \<Rightarrow> calls = []
             | Some search \<Rightarrow>
                 let dg = digest_of rs job new_results in
                 \<exists>hook chan. calls = hook @ chan \<and> hook_traffic dsent dg (rs_webhook_url search) hook \<and>
                   (flaky \<and> chan = [] \<or>
                    (\<exists>channels. listing (\<lambda>c. ch_user_id c = rs_user_id search) ch_created_at
                                  (aw_channels w) channels \<and>
                                notify_traffic nsent dg channels chan))))"

lemma digest_traffic_cong:
  "aw_recurring w' = aw_recurring w \<Longrightarrow> aw_channels w' = aw_channels w \<Longrightarrow>
   digest_traffic flaky dsent nsent w' job results calls =
   digest_traffic flaky dsent nsent w job results calls"
  by (simp only: digest_traffic_def)

lemma notify_traffic_Nil [simp]: "notify_traffic nsent dg [] calls \<longleftrightarrow> calls = []"
  by (auto simp: notify_traffic_def)

lemma notify_traffic_Cons:
  "nsent c dg r cs \<Longrightarrow> notify_traffic nsent dg channels calls \<Longrightarrow>
   notify_traffic nsent dg (c # channels) (cs @ calls)"
  unfolding notify_traffic_def by (metis (mono_tags, lifting) concat.simps(2) list_all2_Cons)

definition complete_outcome ::
  "(search_result \<Rightarrow> search_result) \<Rightarrow> bool \<Rightarrow> (rstr \<Rightarrow> digest \<Rightarrow> port_error + unit \<Rightarrow> outcall list \<Rightarrow> bool) \<Rightarrow>
   (notification_channel \<Rightarrow> digest \<Rightarrow> port_error + unit \<Rightarrow> outcall list \<Rightarrow> bool) \<Rightarrow>
   time \<Rightarrow> uuid \<Rightarrow> search_result list \<Rightarrow> aworld \<Rightarrow> ingest_error + unit \<Rightarrow> aworld \<Rightarrow> bool" where
  "complete_outcome stored flaky dsent nsent now i xs w r w' \<longleftrightarrow>
     (case r of
        Inl JobNotFound \<Rightarrow> aw_jobs w i = None \<and> w' = w
      | Inl (IngestInfrastructure e) \<Rightarrow> w' = w \<or> (w' = set_results i (map stored xs) w \<and> aw_jobs w i \<noteq> None)
      | Inr _ \<Rightarrow> (\<exists>job calls. aw_jobs w i = Some job \<and> job_id job = i \<and>
                   digest_traffic flaky dsent nsent w (job_complete now job) xs calls \<and>
                   w' = log_calls calls
                          (add_job (job_complete now job) (set_results i (map stored xs) w))))"

locale ingest_ports = job_port prec J invar \<alpha> fadd stored + recurring_port prec R invar \<alpha> +
    channel_port prec C invar \<alpha> + digest_port dsend invar \<alpha> dsent +
    notifier_port notify invar \<alpha> nsent
  for prec :: "time \<Rightarrow> time" and J :: "'s job_repo" and R :: "'s recurring_repo" and C :: "'s channel_repo"
    and dsend :: "'s digest_sender" and notify :: "'s channel_notifier"
    and invar :: "'s \<Rightarrow> bool" and \<alpha> :: "'s \<Rightarrow> aworld" and fadd :: "f64 \<Rightarrow> f64 \<Rightarrow> f64"
    and stored :: "search_result \<Rightarrow> search_result"
    and dsent :: "rstr \<Rightarrow> digest \<Rightarrow> port_error + unit \<Rightarrow> outcall list \<Rightarrow> bool"
    and nsent :: "notification_channel \<Rightarrow> digest \<Rightarrow> port_error + unit \<Rightarrow> outcall list \<Rightarrow> bool" +
  fixes flaky :: bool
  assumes find_total: "invar s \<Longrightarrow> rr_find R i s = (Inl e, s') \<Longrightarrow> flaky"
    and list_total: "invar s \<Longrightarrow> cr_list_for_user C u s = (Inl e, s') \<Longrightarrow> flaky"
begin

lemma sat_find_job:
  assumes "\<And>e. Q (Inl (IngestInfrastructure e)) w" and "aw_jobs w i = None \<Longrightarrow> Q (Inl JobNotFound) w"
    and "\<And>job. aw_jobs w i = Some job \<Longrightarrow> job_id job = i \<Longrightarrow> sat invar \<alpha> (f job) w Q"
  shows "sat invar \<alpha> (io_bind (find_job J i) f) w Q"
proof (rule sat_assume)
  fix s
  assume "invar s" "\<alpha> s = w"
  then have key: "keyed job_id (aw_jobs w)" using job_keyed by blast
  have "sat invar \<alpha> (io_bind (case aw_jobs w i of None \<Rightarrow> io_throw JobNotFound
      | Some job \<Rightarrow> io_ret job) f) w Q"
    using assms(2,3) keyedD [OF key] by (cases "aw_jobs w i") (simp_all add: sat_throw)
  then show ?thesis
    unfolding find_job_def io_bind_assoc by (intro sat_job_find assms(1))
qed

lemma sat_write:
  assumes "\<And>e. Q (Inl (IngestInfrastructure e)) w"
    and "\<exists>old. aw_jobs w (job_id j) = Some old \<and> writes_back prec old j"
    and "Q (Inr ()) (put_job j w)"
  shows "sat invar \<alpha> (io_lift IngestInfrastructure (jr_update J j)) w Q"
  by (rule sat_lift_port [OF job_update]) (use assms in auto)

lemmas ingest_steps = sat_find_job sat_write sat_job_store_results sat_job_update sat_flow

lemma start_sat:
  "sat invar \<alpha> (ingest_start J i) w
     (ingest_outcome i w (\<lambda>job w'. w' = add_job (job_start job) w))"
  unfolding ingest_start_def
proof (intro ingest_steps)
  fix job
  assume job: "aw_jobs w i = Some job" "job_id job = i"
  have fields: "job_id (job_start job) = i" "job_usage (job_start job) = job_usage job"
    using job by (simp_all add: job_start_def)
  show "\<exists>old. aw_jobs w (job_id (job_start job)) = Some old \<and> writes_back prec old (job_start job)"
    using job fields by simp
  show "ingest_outcome i w (\<lambda>job w'. w' = add_job (job_start job) w) (Inr ()) (put_job (job_start job) w)"
    using job fields by (simp add: ingest_outcome_def put_job_known)
qed (auto simp: ingest_outcome_def)

lemma fail_sat:
  "sat invar \<alpha> (ingest_fail J now i err) w
     (ingest_outcome i w (\<lambda>job w'. w' = add_job (job_fail now err job) w))"
  unfolding ingest_fail_def
  by (intro ingest_steps) (auto simp: ingest_outcome_def put_job_known)

lemma request_input_sat:
  "sat invar \<alpha> (ingest_request_input J i q) w
     (ingest_outcome i w (\<lambda>job w'. \<exists>job'. job_request_input q job = Inr job' \<and> w' = add_job job' w))"
  unfolding ingest_request_input_def
  by (intro ingest_steps)
    (auto simp: ingest_outcome_def writes_back_request job_request_input_Inr put_job_known split: if_splits)

lemma record_step_sat:
  "sat invar \<alpha> (record_step J i st) w (ingest_outcome i w (\<lambda>job w'. w' = add_step i st w))"
  unfolding record_step_def
  by (intro ingest_steps sat_lift_port [OF job_append_step]) (auto simp: ingest_outcome_def add_step_def)

lemma record_usage_sat:
  "sat invar \<alpha> (record_usage J i u) w
     (ingest_outcome i w (\<lambda>job w'. w' = add_job (spend fadd u job) w))"
  unfolding record_usage_def
  by (intro ingest_steps sat_lift_port [OF job_add_usage])
    (auto simp: ingest_outcome_def add_job_def spend_def)

lemma notify_all_sat:
  "sat invar \<alpha> (notify_all notify dg channels :: ('s, 'e, unit) io) w
     (\<lambda>r w'. r = Inr () \<and> (\<exists>calls. notify_traffic nsent dg channels calls \<and> w' = log_calls calls w))"
proof (induction channels arbitrary: w)
  case Nil
  show ?case by (auto intro!: sat_ret exI [of _ "[]"])
next
  case (Cons c channels)
  show ?case
    unfolding notify_all.simps
  proof (rule sat_bind_result_call [OF notify])
    fix r cs
    assume sent: "nsent c dg r cs"
    show "sat invar \<alpha> (notify_all notify dg channels :: ('s, 'e, unit) io) (log_calls cs w)
        (\<lambda>r w'. r = Inr () \<and>
           (\<exists>calls. notify_traffic nsent dg (c # channels) calls \<and> w' = log_calls calls w))"
      using notify_traffic_Cons [where nsent = nsent, OF sent]
      by (intro sat_conseq [OF Cons.IH]) auto
  qed
qed

lemma sat_find_search:
  assumes "\<And>e. flaky \<Longrightarrow> sat invar \<alpha> (f (Inl e)) w Q"
    and "sat invar \<alpha> (f (Inr (aw_recurring w i))) w Q"
  shows "sat invar \<alpha> (io_bind (io_result (rr_find R i)) f) w Q"
proof (rule sat_bind, rule sat_result, rule satI)
  fix s r s'
  assume s: "invar s" "\<alpha> s = w" and run: "rr_find R i s = (r, s')"
  from port_specD [OF recurring_find s(1) run] s assms find_total [OF s(1)] run
  show "invar s' \<and> (case Inr r of Inl e \<Rightarrow> Q (Inl e) (\<alpha> s') | Inr x \<Rightarrow> sat invar \<alpha> (f x) (\<alpha> s') Q)"
    by (cases r) auto
qed

lemma sat_list_channels:
  assumes "\<And>e. flaky \<Longrightarrow> sat invar \<alpha> (f (Inl e)) w Q"
    and "\<And>cs. listing (\<lambda>c. ch_user_id c = u) ch_created_at (aw_channels w) cs \<Longrightarrow>
           sat invar \<alpha> (f (Inr cs)) w Q"
  shows "sat invar \<alpha> (io_bind (io_result (cr_list_for_user C u)) f) w Q"
proof (rule sat_bind, rule sat_result, rule satI)
  fix s r s'
  assume s: "invar s" "\<alpha> s = w" and run: "cr_list_for_user C u s = (r, s')"
  from port_specD [OF channel_list s(1) run] s assms list_total [OF s(1)] run
  show "invar s' \<and> (case Inr r of Inl e \<Rightarrow> Q (Inl e) (\<alpha> s') | Inr x \<Rightarrow> sat invar \<alpha> (f x) (\<alpha> s') Q)"
    by (cases r) auto
qed

text \<open>The deliveries for a search that was found.\<close>

definition deliveries :: "aworld \<Rightarrow> digest \<Rightarrow> recurring_search \<Rightarrow> outcall list \<Rightarrow> bool" where
  "deliveries w dg search calls \<longleftrightarrow>
     (\<exists>hook chan. calls = hook @ chan \<and> hook_traffic dsent dg (rs_webhook_url search) hook \<and>
        (flaky \<and> chan = [] \<or>
         (\<exists>channels. listing (\<lambda>c. ch_user_id c = rs_user_id search) ch_created_at
                       (aw_channels w) channels \<and> notify_traffic nsent dg channels chan)))"

lemma deliveries_channels_sat:
  assumes hook: "hook_traffic dsent dg (rs_webhook_url search) hook"
  shows "sat invar \<alpha>
     (io_bind (io_result (cr_list_for_user C (rs_user_id search))) (\<lambda>listed.
        case listed of Inl e \<Rightarrow> io_ret () | Inr channels \<Rightarrow> notify_all notify dg channels))
     (log_calls hook w)
     (\<lambda>r w'. r = Inr () \<and> (\<exists>calls. deliveries w dg search calls \<and> w' = log_calls calls w))"
proof (rule sat_list_channels)
  fix e
  assume flaky
  with hook have "deliveries w dg search hook" unfolding deliveries_def by auto
  then show "sat invar \<alpha> (case Inl e of Inl e \<Rightarrow> io_ret () | Inr channels \<Rightarrow> notify_all notify dg channels)
     (log_calls hook w)
     (\<lambda>r w'. r = Inr () \<and> (\<exists>calls. deliveries w dg search calls \<and> w' = log_calls calls w))"
    by (auto intro!: sat_ret)
next
  fix cs
  assume "listing (\<lambda>c. ch_user_id c = rs_user_id search) ch_created_at
            (aw_channels (log_calls hook w)) cs"
  then have l: "listing (\<lambda>c. ch_user_id c = rs_user_id search) ch_created_at (aw_channels w) cs"
    by simp
  have "deliveries w dg search (hook @ calls)" if "notify_traffic nsent dg cs calls" for calls
    unfolding deliveries_def using hook l that by blast
  then show "sat invar \<alpha> (case Inr cs of Inl e \<Rightarrow> io_ret () | Inr channels \<Rightarrow> notify_all notify dg channels)
     (log_calls hook w)
     (\<lambda>r w'. r = Inr () \<and> (\<exists>calls. deliveries w dg search calls \<and> w' = log_calls calls w))"
    unfolding sum.case by (intro sat_conseq [OF notify_all_sat]) auto
qed

lemma deliveries_sat:
  "sat invar \<alpha>
     (io_bind (case rs_webhook_url search of
                 None \<Rightarrow> io_ret (Inr ()) | Some url \<Rightarrow> io_result (dsend url dg)) (\<lambda>_.
      io_bind (io_result (cr_list_for_user C (rs_user_id search))) (\<lambda>listed.
        case listed of Inl e \<Rightarrow> io_ret () | Inr channels \<Rightarrow> notify_all notify dg channels)))
     w (\<lambda>r w'. r = Inr () \<and> (\<exists>calls. deliveries w dg search calls \<and> w' = log_calls calls w))"
proof (cases "rs_webhook_url search")
  case None
  then show ?thesis
    using deliveries_channels_sat [of dg search "[]" w] by (simp add: hook_traffic_def)
next
  case (Some url)
  show ?thesis
    unfolding Some option.case
    by (rule sat_bind_result_call [OF send_digest], rule deliveries_channels_sat)
      (auto simp: hook_traffic_def Some)
qed

lemma maybe_send_digest_sat:
  "sat invar \<alpha> (maybe_send_digest R dsend C notify job results) w
     (\<lambda>r w'. r = Inr () \<and>
        (\<exists>calls. digest_traffic flaky dsent nsent w job results calls \<and> w' = log_calls calls w))"
    (is "sat _ _ _ _ ?Q")
proof (cases "job_recurring_search_id job = None \<or> filter sr_is_new results = []")
  case True
  then have "digest_traffic flaky dsent nsent w job results []"
    by (auto simp: digest_traffic_def Let_def split: option.splits)
  then have "?Q (Inr ()) w" by (auto intro!: exI [of _ "[]"])
  then show ?thesis
    using True by (auto simp: maybe_send_digest_def Let_def intro!: sat_ret split: option.splits)
next
  case False
  then obtain rs where rs: "job_recurring_search_id job = Some rs"
    and new: "filter sr_is_new results \<noteq> []" by auto
  let ?dg = "digest_of rs job (filter sr_is_new results)"
  have none: "?Q (Inr ()) w" if "flaky \<or> aw_recurring w rs = None"
    using that new by (auto simp: digest_traffic_def Let_def rs intro!: exI [of _ "[]"])
  have some: "digest_traffic flaky dsent nsent w job results calls"
    if "aw_recurring w rs = Some search" "deliveries w ?dg search calls" for search calls
    using that new unfolding digest_traffic_def deliveries_def Let_def rs by simp
  show ?thesis
    unfolding maybe_send_digest_def Let_def rs option.case if_not_P [OF new]
  proof (rule sat_find_search)
    show "sat invar \<alpha> (case Inr (aw_recurring w rs) of Inl e \<Rightarrow> io_ret () | Inr None \<Rightarrow> io_ret ()
        | Inr (Some search) \<Rightarrow>
          io_bind (case rs_webhook_url search of
                 None \<Rightarrow> io_ret (Inr ()) | Some url \<Rightarrow> io_result (dsend url ?dg)) (\<lambda>_.
          io_bind (io_result (cr_list_for_user C (rs_user_id search))) (\<lambda>listed.
          case listed of Inl e \<Rightarrow> io_ret () | Inr channels \<Rightarrow> notify_all notify ?dg channels))) w ?Q"
    proof (cases "aw_recurring w rs")
      case None
      then show ?thesis using none by (simp add: sat_ret)
    next
      case (Some search)
      show ?thesis
        unfolding Some sum.case option.case
        by (rule sat_conseq [OF deliveries_sat]) (use some [OF Some] in blast)
    qed
  qed (use none in \<open>simp add: sat_ret\<close>)
qed

lemma complete_sat:
  "sat invar \<alpha> (ingest_complete J R dsend C notify now i xs) w (complete_outcome stored flaky dsent nsent now i xs w)"
  unfolding ingest_complete_def Let_def
proof (intro ingest_steps)
  fix job
  assume job: "aw_jobs w i = Some job" "job_id job = i"
  let ?job = "job_complete now job"
  have fields: "job_id ?job = i" "job_usage ?job = job_usage job"
    using job by (simp_all add: job_complete_def)
  let ?w = "set_results i (map stored xs) w"
  show "\<exists>old. aw_jobs ?w (job_id ?job) = Some old \<and> writes_back prec old ?job" using job fields by auto
  have put: "put_job ?job ?w = add_job ?job ?w"
    using job fields by (subst put_job_known [where old = job]) simp_all
  have traffic: "digest_traffic flaky dsent nsent (add_job ?job ?w) ?job xs calls =
      digest_traffic flaky dsent nsent w ?job xs calls" for calls
    by (rule digest_traffic_cong) simp_all
  show "sat invar \<alpha> (maybe_send_digest R dsend C notify ?job xs)
      (put_job ?job ?w) (complete_outcome stored flaky dsent nsent now i xs w)"
    unfolding put
    by (rule sat_conseq [OF maybe_send_digest_sat])
      (use job in \<open>auto simp: complete_outcome_def traffic\<close>)
qed (auto simp: complete_outcome_def)

end

end
