(* ===== verification/Session.thy ===== *)
theory Session
  imports Ports
begin

text \<open>
  \<open>application/register_user.rs\<close>, \<open>login_user.rs\<close> and \<open>refresh_session.rs\<close>: accounts are
  opened with a normalised e-mail address, a login opens a family of refresh tokens, and each
  rotation consumes one token of the family and issues the next.
\<close>

section \<open>Registration\<close>

datatype register_error =
    EmailTaken
  | InvalidEmail
  | PasswordTooShort
  | RegisterInfrastructure port_error

record register_draw =
  rgd_salt :: "nat list"
  rgd_id :: uuid
  rgd_now :: time

definition normalise_email :: "runtime \<Rightarrow> rstr \<Rightarrow> rstr" where
  "normalise_email RT email = to_lowercase (rt_lower RT) (trim email)"

text \<open>\<open>'@'\<close> is 64; \<open>len()\<close> counts bytes.\<close>

definition register_user ::
  "runtime \<Rightarrow> 's user_repo \<Rightarrow> password_hasher \<Rightarrow> register_draw \<Rightarrow> rstr \<Rightarrow> rstr \<Rightarrow>
   ('s, register_error, user) io" where
  "register_user RT U H d email password =
     (let email = normalise_email RT email in
      if 64 \<notin> set email \<or> byte_len email < 3 then io_throw InvalidEmail
      else if byte_len password < 8 then io_throw PasswordTooShort
      else
        io_bind (io_lift RegisterInfrastructure (ur_find_by_email U email)) (\<lambda>found.
        case found of
          Some _ \<Rightarrow> io_throw EmailTaken
        | None \<Rightarrow>
            io_bind (io_lift RegisterInfrastructure (io_of (ph_hash H (rgd_salt d) password))) (\<lambda>hash.
            let user = user_new (rgd_id d) (rgd_now d) email hash in
            io_bind (io_lift RegisterInfrastructure (ur_insert U user)) (\<lambda>_.
            io_ret user))))"

section \<open>Login\<close>

datatype login_error = InvalidCredentials | LoginInfrastructure port_error

record session_tokens =
  st_access_token :: rstr
  st_refresh_token :: rstr

record login_draw =
  lgd_family :: uuid
  lgd_token :: token_draw
  lgd_access :: time

definition login_user ::
  "runtime \<Rightarrow> 's user_repo \<Rightarrow> password_hasher \<Rightarrow> token_service \<Rightarrow> 's token_repo \<Rightarrow> int \<Rightarrow> login_draw \<Rightarrow>
   rstr \<Rightarrow> rstr \<Rightarrow> ('s, login_error, session_tokens) io" where
  "login_user RT U H S T ttl_days d email password =
     io_bind (io_lift LoginInfrastructure (ur_find_by_email U (normalise_email RT email))) (\<lambda>found.
     case found of
       None \<Rightarrow> io_throw InvalidCredentials
     | Some user \<Rightarrow>
         if \<not> ph_verify H password (user_password_hash user) then io_throw InvalidCredentials
         else
           let (rec, plaintext) = issue RT (lgd_family d) (lgd_token d) (user_id user) ttl_days in
           io_bind (io_lift LoginInfrastructure (tr_insert T rec)) (\<lambda>_.
           io_bind (io_lift LoginInfrastructure (io_of (ts_issue S (lgd_access d) (user_id user)))) (\<lambda>access.
           io_ret \<lparr>st_access_token = access, st_refresh_token = plaintext\<rparr>)))"

section \<open>Rotation\<close>

datatype refresh_error = InvalidToken | RefreshInfrastructure port_error

record rotate_draw =
  rtd_event_id :: uuid
  rtd_event_now :: time
  rtd_now :: time
  rtd_consumed :: time
  rtd_token :: token_draw
  rtd_access :: time

definition reuse_event :: "runtime \<Rightarrow> rotate_draw \<Rightarrow> refresh_token \<Rightarrow> security_event" where
  "reuse_event RT d stored =
     security_event_new (rtd_event_id d) (rtd_event_now d) RefreshReuseDetected
       (Some (rt_user_id stored)) None (lit ''family '' @ rt_uuid_display RT (rt_family_id stored))"

definition rotate_session ::
  "runtime \<Rightarrow> 's token_repo \<Rightarrow> token_service \<Rightarrow> 's audit_port \<Rightarrow> int \<Rightarrow> rotate_draw \<Rightarrow> rstr \<Rightarrow>
   ('s, refresh_error, session_tokens) io" where
  "rotate_session RT T S A ttl_days d presented =
     io_bind (io_lift RefreshInfrastructure (tr_find_by_hash T (token_hash RT presented))) (\<lambda>found.
     case found of
       None \<Rightarrow> io_throw InvalidToken
     | Some stored \<Rightarrow>
         if is_consumed stored then
           io_bind (io_lift RefreshInfrastructure (tr_delete_family T (rt_family_id stored))) (\<lambda>_.
           io_bind (io_result (au_record A (reuse_event RT d stored))) (\<lambda>_.
           io_throw InvalidToken))
         else if is_expired (rtd_now d) stored then
           io_bind (io_lift RefreshInfrastructure (tr_delete T (rt_id stored))) (\<lambda>_.
           io_throw InvalidToken)
         else
           io_bind (io_lift RefreshInfrastructure
                     (tr_mark_consumed T (rt_id stored) (rtd_consumed d))) (\<lambda>_.
           let (rec, plaintext) =
             issue_in_family RT (rtd_token d) (rt_user_id stored) (rt_family_id stored) ttl_days in
           io_bind (io_lift RefreshInfrastructure (tr_insert T rec)) (\<lambda>_.
           io_bind (io_lift RefreshInfrastructure
                     (io_of (ts_issue S (rtd_access d) (rt_user_id stored)))) (\<lambda>access.
           io_ret \<lparr>st_access_token = access, st_refresh_token = plaintext\<rparr>))))"

definition revoke_session :: "runtime \<Rightarrow> 's token_repo \<Rightarrow> rstr \<Rightarrow> ('s, unit) port" where
  "revoke_session RT T presented =
     io_bind (tr_find_by_hash T (token_hash RT presented)) (\<lambda>found.
     case found of
       None \<Rightarrow> io_ret ()
     | Some stored \<Rightarrow> tr_delete_family T (rt_family_id stored))"

section \<open>What the account use cases promise\<close>

definition add_user :: "user \<Rightarrow> aworld \<Rightarrow> aworld" where
  "add_user u w = w\<lparr>aw_users := (aw_users w)(user_id u \<mapsto> u)\<rparr>"

definition add_token :: "refresh_token \<Rightarrow> aworld \<Rightarrow> aworld" where
  "add_token t w = w\<lparr>aw_tokens := (aw_tokens w)(rt_id t \<mapsto> t)\<rparr>"

definition consume_token :: "uuid \<Rightarrow> time \<Rightarrow> aworld \<Rightarrow> aworld" where
  "consume_token i at w = w\<lparr>aw_tokens := map_modify i (consume at) (aw_tokens w)\<rparr>"

definition drop_token :: "uuid \<Rightarrow> aworld \<Rightarrow> aworld" where
  "drop_token i w = w\<lparr>aw_tokens := (aw_tokens w)(i := None)\<rparr>"

definition drop_family :: "uuid \<Rightarrow> aworld \<Rightarrow> aworld" where
  "drop_family f w = w\<lparr>aw_tokens := map_keep (\<lambda>_ t. rt_family_id t \<noteq> f) (aw_tokens w)\<rparr>"

definition add_event :: "security_event \<Rightarrow> aworld \<Rightarrow> aworld" where
  "add_event e w = w\<lparr>aw_events := aw_events w @ [e]\<rparr>"

lemmas session_updates = add_user_def add_token_def consume_token_def drop_token_def
  drop_family_def add_event_def

definition register_outcome ::
  "runtime \<Rightarrow> password_hasher \<Rightarrow> register_draw \<Rightarrow> rstr \<Rightarrow> rstr \<Rightarrow> aworld \<Rightarrow> register_error + user \<Rightarrow>
   aworld \<Rightarrow> bool" where
  "register_outcome RT H d email password w r w' \<longleftrightarrow>
     (let email = normalise_email RT email;
          good = (64 \<in> set email \<and> 3 \<le> byte_len email);
          taken = (\<exists>u \<in> ran (aw_users w). user_email u = email) in
      case r of
        Inl InvalidEmail \<Rightarrow> \<not> good \<and> w' = w
      | Inl PasswordTooShort \<Rightarrow> good \<and> byte_len password < 8 \<and> w' = w
      | Inl EmailTaken \<Rightarrow> good \<and> 8 \<le> byte_len password \<and> taken \<and> w' = w
      | Inl (RegisterInfrastructure e) \<Rightarrow> w' = w
      | Inr u \<Rightarrow> good \<and> 8 \<le> byte_len password \<and> \<not> taken \<and>
          (\<exists>hash. ph_hash H (rgd_salt d) password = Inr hash \<and>
                  u = user_new (rgd_id d) (rgd_now d) email hash \<and> w' = add_user u w))"

definition login_outcome ::
  "runtime \<Rightarrow> password_hasher \<Rightarrow> token_service \<Rightarrow> int \<Rightarrow> login_draw \<Rightarrow> rstr \<Rightarrow> rstr \<Rightarrow> aworld \<Rightarrow>
   login_error + session_tokens \<Rightarrow> aworld \<Rightarrow> bool" where
  "login_outcome RT H S ttl_days d email password w r w' \<longleftrightarrow>
     (let known = (\<lambda>u. aw_users w (user_id u) = Some u \<and> user_email u = normalise_email RT email);
          token = (\<lambda>u. issue RT (lgd_family d) (lgd_token d) (user_id u) ttl_days) in
      case r of
        Inl InvalidCredentials \<Rightarrow>
          w' = w \<and> ((\<forall>u \<in> ran (aw_users w). user_email u \<noteq> normalise_email RT email) \<or>
                     (\<exists>u. known u \<and> \<not> ph_verify H password (user_password_hash u)))
      | Inl (LoginInfrastructure e) \<Rightarrow>
          w' = w \<or> (\<exists>u. known u \<and> ph_verify H password (user_password_hash u) \<and>
                         w' = add_token (fst (token u)) w)
      | Inr st \<Rightarrow>
          (\<exists>u. known u \<and> ph_verify H password (user_password_hash u) \<and>
               ts_issue S (lgd_access d) (user_id u) = Inr (st_access_token st) \<and>
               st_refresh_token st = snd (token u) \<and> w' = add_token (fst (token u)) w))"

text \<open>The three fates of a presented token that is stored.\<close>

definition reused :: "runtime \<Rightarrow> rotate_draw \<Rightarrow> refresh_token \<Rightarrow> aworld \<Rightarrow> aworld \<Rightarrow> bool" where
  "reused RT d t w w' \<longleftrightarrow>
     is_consumed t \<and>
     (w' = drop_family (rt_family_id t) w \<or>
      w' = add_event (reuse_event RT d t) (drop_family (rt_family_id t) w))"

definition lapsed :: "rotate_draw \<Rightarrow> refresh_token \<Rightarrow> aworld \<Rightarrow> aworld \<Rightarrow> bool" where
  "lapsed d t w w' \<longleftrightarrow>
     \<not> is_consumed t \<and> is_expired (rtd_now d) t \<and> w' = drop_token (rt_id t) w"

definition successor :: "runtime \<Rightarrow> int \<Rightarrow> rotate_draw \<Rightarrow> refresh_token \<Rightarrow> refresh_token \<times> rstr" where
  "successor RT ttl_days d t =
     issue_in_family RT (rtd_token d) (rt_user_id t) (rt_family_id t) ttl_days"

definition rotated :: "runtime \<Rightarrow> int \<Rightarrow> rotate_draw \<Rightarrow> refresh_token \<Rightarrow> aworld \<Rightarrow> aworld \<Rightarrow> bool" where
  "rotated RT ttl_days d t w w' \<longleftrightarrow>
     \<not> is_consumed t \<and> \<not> is_expired (rtd_now d) t \<and>
     w' = add_token (fst (successor RT ttl_days d t)) (consume_token (rt_id t) (rtd_consumed d) w)"

definition rotate_outcome ::
  "runtime \<Rightarrow> token_service \<Rightarrow> int \<Rightarrow> rotate_draw \<Rightarrow> rstr \<Rightarrow> aworld \<Rightarrow> refresh_error + session_tokens \<Rightarrow>
   aworld \<Rightarrow> bool" where
  "rotate_outcome RT S ttl_days d presented w r w' \<longleftrightarrow>
     (let stored = (\<lambda>t. aw_tokens w (rt_id t) = Some t \<and> rt_token_hash t = token_hash RT presented) in
      case r of
        Inl InvalidToken \<Rightarrow>
          (w' = w \<and> (\<forall>t \<in> ran (aw_tokens w). rt_token_hash t \<noteq> token_hash RT presented)) \<or>
          (\<exists>t. stored t \<and> (reused RT d t w w' \<or> lapsed d t w w'))
      | Inl (RefreshInfrastructure e) \<Rightarrow>
          w' = w \<or>
          (\<exists>t. stored t \<and> \<not> is_consumed t \<and> \<not> is_expired (rtd_now d) t \<and>
               (w' = consume_token (rt_id t) (rtd_consumed d) w \<or> rotated RT ttl_days d t w w'))
      | Inr st \<Rightarrow>
          (\<exists>t. stored t \<and> rotated RT ttl_days d t w w' \<and>
               ts_issue S (rtd_access d) (rt_user_id t) = Inr (st_access_token st) \<and>
               st_refresh_token st = snd (successor RT ttl_days d t)))"

subsection \<open>Invariants of the token table\<close>

text \<open>
  A hash names at most one stored token, and a family has at most one token that was not
  consumed: a session is a chain, not a tree.
\<close>

definition tokens_inv :: "aworld \<Rightarrow> bool" where
  "tokens_inv w \<longleftrightarrow>
     keyed rt_id (aw_tokens w) \<and>
     (\<forall>i j t u. aw_tokens w i = Some t \<longrightarrow> aw_tokens w j = Some u \<longrightarrow>
        rt_token_hash t = rt_token_hash u \<longrightarrow> i = j) \<and>
     (\<forall>i j t u. aw_tokens w i = Some t \<longrightarrow> aw_tokens w j = Some u \<longrightarrow>
        rt_family_id t = rt_family_id u \<longrightarrow> \<not> is_consumed t \<longrightarrow> \<not> is_consumed u \<longrightarrow> i = j)"

lemma tokens_inv_hash:
  "tokens_inv w \<Longrightarrow> aw_tokens w i = Some t \<Longrightarrow> aw_tokens w j = Some u \<Longrightarrow>
   rt_token_hash t = rt_token_hash u \<Longrightarrow> i = j"
  unfolding tokens_inv_def by blast

lemma tokens_inv_live:
  "tokens_inv w \<Longrightarrow> aw_tokens w i = Some t \<Longrightarrow> aw_tokens w j = Some u \<Longrightarrow>
   rt_family_id t = rt_family_id u \<Longrightarrow> \<not> is_consumed t \<Longrightarrow> \<not> is_consumed u \<Longrightarrow> i = j"
  unfolding tokens_inv_def by blast

lemma tokens_invI:
  assumes "keyed rt_id (aw_tokens w)"
    and "\<And>i j t u. aw_tokens w i = Some t \<Longrightarrow> aw_tokens w j = Some u \<Longrightarrow>
           rt_token_hash t = rt_token_hash u \<Longrightarrow> i = j"
    and "\<And>i j t u. aw_tokens w i = Some t \<Longrightarrow> aw_tokens w j = Some u \<Longrightarrow>
           rt_family_id t = rt_family_id u \<Longrightarrow> \<not> is_consumed t \<Longrightarrow> \<not> is_consumed u \<Longrightarrow> i = j"
  shows "tokens_inv w"
  unfolding tokens_inv_def using assms by blast

lemma tokens_inv_sub:
  assumes ok: "tokens_inv w" and sub: "aw_tokens w' \<subseteq>\<^sub>m aw_tokens w"
  shows "tokens_inv w'"
proof -
  have le: "aw_tokens w i = Some t" if "aw_tokens w' i = Some t" for i t
    using sub that by (force simp: map_le_def dom_def)
  have "finite (dom (aw_tokens w'))"
    using map_le_implies_dom_le [OF sub] ok by (auto simp: tokens_inv_def keyed_def intro: finite_subset)
  then have "keyed rt_id (aw_tokens w')"
    using ok le unfolding keyed_def tokens_inv_def by blast
  then show ?thesis
    by (rule tokens_invI)
      (erule tokens_inv_hash [OF ok le le], assumption+, erule tokens_inv_live [OF ok le le], assumption+)
qed

lemma tokens_inv_consume:
  assumes ok: "tokens_inv w"
  shows "tokens_inv (consume_token i at w)"
proof (cases "aw_tokens w i")
  case None
  with ok show ?thesis by (simp add: consume_token_def tokens_inv_def)
next
  case (Some t)
  have tok: "aw_tokens (consume_token i at w) = (aw_tokens w)(i \<mapsto> consume at t)"
    using Some by (simp add: consume_token_def)
  have key: "keyed rt_id (aw_tokens w)" using ok by (simp add: tokens_inv_def)
  show ?thesis
  proof (rule tokens_invI)
    show "keyed rt_id (aw_tokens (consume_token i at w))"
      unfolding tok using key keyedD [OF key Some] by (intro keyed_update) (simp_all add: consume_def)
  qed (use tokens_inv_hash [OF ok] tokens_inv_live [OF ok] Some in
      \<open>auto simp: tok consume_def is_consumed_def split: if_splits\<close>)
qed

lemma tokens_inv_add:
  assumes ok: "tokens_inv w" and fresh: "rt_id t \<notin> dom (aw_tokens w)"
    and hash: "\<And>u. u \<in> ran (aw_tokens w) \<Longrightarrow> rt_token_hash u \<noteq> rt_token_hash t"
    and live: "\<And>u. u \<in> ran (aw_tokens w) \<Longrightarrow> rt_family_id u = rt_family_id t \<Longrightarrow> is_consumed u"
  shows "tokens_inv (add_token t w)"
proof -
  have tok: "aw_tokens (add_token t w) = (aw_tokens w)(rt_id t \<mapsto> t)" by (simp add: add_token_def)
  have key: "keyed rt_id (aw_tokens w)" using ok by (simp add: tokens_inv_def)
  show ?thesis
  proof (rule tokens_invI)
    show "keyed rt_id (aw_tokens (add_token t w))" unfolding tok using key by (intro keyed_update) simp_all
  next
    fix i j x y
    assume "aw_tokens (add_token t w) i = Some x" "aw_tokens (add_token t w) j = Some y"
      "rt_token_hash x = rt_token_hash y"
    then show "i = j"
      using tokens_inv_hash [OF ok] hash by (fastforce simp: tok split: if_splits intro: ranI)
  next
    fix i j x y
    assume "aw_tokens (add_token t w) i = Some x" "aw_tokens (add_token t w) j = Some y"
      "rt_family_id x = rt_family_id y" "\<not> is_consumed x" "\<not> is_consumed y"
    then show "i = j"
      using tokens_inv_live [OF ok] live by (fastforce simp: tok split: if_splits intro: ranI)
  qed
qed

definition fresh_hash :: "runtime \<Rightarrow> token_draw \<Rightarrow> aworld \<Rightarrow> bool" where
  "fresh_hash RT d w \<longleftrightarrow>
     td_id d \<notin> dom (aw_tokens w) \<and>
     (\<forall>u \<in> ran (aw_tokens w). rt_token_hash u \<noteq> token_hash RT (token_plaintext RT d))"

lemma issue_in_family_id [simp]:
  "rt_id (fst (issue_in_family RT d u f ttl)) = td_id d"
  by (simp add: issue_in_family_def Let_def)

lemma issue_id [simp]: "rt_id (fst (issue RT f d u ttl)) = td_id d"
  by (simp add: issue_def)

lemma issue_fields [simp]:
  "rt_token_hash (fst (issue_in_family RT d u f ttl)) = token_hash RT (token_plaintext RT d)"
  "rt_family_id (fst (issue_in_family RT d u f ttl)) = f"
  "rt_user_id (fst (issue_in_family RT d u f ttl)) = u"
  "is_consumed (fst (issue_in_family RT d u f ttl)) = False"
  "snd (issue_in_family RT d u f ttl) = token_plaintext RT d"
  by (simp_all add: issue_in_family_def Let_def is_consumed_def)

lemma rotated_inv:
  assumes ok: "tokens_inv w" and t: "aw_tokens w (rt_id t) = Some t"
    and rot: "rotated RT ttl d t w w'" and fresh: "fresh_hash RT (rtd_token d) w"
  shows "tokens_inv w'"
proof -
  let ?w = "consume_token (rt_id t) (rtd_consumed d) w"
  let ?new = "fst (successor RT ttl d t)"
  have tok: "aw_tokens ?w = (aw_tokens w)(rt_id t \<mapsto> consume (rtd_consumed d) t)"
    using t by (simp add: consume_token_def)
  have w': "w' = add_token ?new ?w" and live: "\<not> is_consumed t"
    using rot by (simp_all add: rotated_def)
  show ?thesis
    unfolding w'
  proof (rule tokens_inv_add [OF tokens_inv_consume [OF ok]])
    show "rt_id ?new \<notin> dom (aw_tokens ?w)"
      using fresh t by (auto simp: tok fresh_hash_def successor_def issue_in_family_def Let_def)
  next
    fix u
    assume "u \<in> ran (aw_tokens ?w)"
    then obtain j where j: "aw_tokens ?w j = Some u" by (auto simp: ran_def)
    show "rt_token_hash u \<noteq> rt_token_hash ?new"
      using j fresh t
      by (cases "j = rt_id t") (auto simp: tok fresh_hash_def successor_def consume_def intro: ranI)
    assume fam: "rt_family_id u = rt_family_id ?new"
    show "is_consumed u"
    proof (cases "j = rt_id t")
      case True
      with j have "u = consume (rtd_consumed d) t" by (simp add: tok)
      then show ?thesis by (simp add: consume_def is_consumed_def)
    next
      case False
      with j have "aw_tokens w j = Some u" by (simp add: tok)
      then show ?thesis
        using tokens_inv_live [OF ok _ t, of j u] fam live False by (auto simp: successor_def)
    qed
  qed
qed

lemma drop_family_sub: "aw_tokens (drop_family f w) \<subseteq>\<^sub>m aw_tokens w"
  by (auto simp: drop_family_def map_le_def map_keep_def split: option.splits if_splits)

lemma add_event_tokens [simp]: "aw_tokens (add_event e w) = aw_tokens w"
  by (simp add: add_event_def)

lemma tokens_inv_event [simp]: "tokens_inv (add_event e w) \<longleftrightarrow> tokens_inv w"
  by (simp add: tokens_inv_def)

lemma rotate_outcome_inv:
  assumes out: "rotate_outcome RT S ttl d presented w r w'" and ok: "tokens_inv w"
    and fresh: "fresh_hash RT (rtd_token d) w"
  shows "tokens_inv w'"
proof -
  have drop: "tokens_inv (drop_family f w)" for f
    by (rule tokens_inv_sub [OF ok drop_family_sub])
  have lapse: "tokens_inv (drop_token i w)" for i
    by (rule tokens_inv_sub [OF ok]) (simp add: drop_token_def map_le_def)
  have rot: "tokens_inv w'" if "aw_tokens w (rt_id t) = Some t" "rotated RT ttl d t w w'" for t
    using rotated_inv [OF ok that fresh] .
  show ?thesis
    using out ok drop lapse rot tokens_inv_consume [OF ok]
    by (auto simp: rotate_outcome_def Let_def reused_def lapsed_def
        split: sum.splits refresh_error.splits)
qed

lemma login_outcome_inv:
  assumes out: "login_outcome RT H S ttl d email password w r w'" and ok: "tokens_inv w"
    and fresh: "fresh_hash RT (lgd_token d) w"
    and family: "\<forall>u \<in> ran (aw_tokens w). rt_family_id u \<noteq> lgd_family d"
  shows "tokens_inv w'"
proof -
  have "tokens_inv (add_token (fst (issue RT (lgd_family d) (lgd_token d) u ttl)) w)" for u
    using fresh family
    by (intro tokens_inv_add [OF ok]) (auto simp: issue_def fresh_hash_def)
  then show ?thesis
    using out ok by (auto simp: login_outcome_def Let_def split: sum.splits login_error.splits)
qed

text \<open>
  Presenting a token that was rotated away: the family of the session is gone, and nothing
  else is.
\<close>

lemma rotate_replay:
  assumes ok: "tokens_inv w" and out1: "rotate_outcome RT S ttl d presented w (Inr st) w1"
    and fresh: "fresh_hash RT (rtd_token d) w"
    and out2: "rotate_outcome RT S ttl' d' presented w1 (Inl InvalidToken) w2"
  shows "\<exists>t. aw_tokens w (rt_id t) = Some t \<and> rt_token_hash t = token_hash RT presented \<and>
           aw_tokens w2 = map_keep (\<lambda>_ u. rt_family_id u \<noteq> rt_family_id t) (aw_tokens w1) \<and>
           token_hash RT (st_refresh_token st) \<notin> rt_token_hash ` ran (aw_tokens w2)"
proof -
  from out1 obtain t where t: "aw_tokens w (rt_id t) = Some t"
    and hash: "rt_token_hash t = token_hash RT presented" and rot: "rotated RT ttl d t w w1"
    and st: "st_refresh_token st = snd (successor RT ttl d t)"
    by (auto simp: rotate_outcome_def Let_def)
  let ?old = "consume (rtd_consumed d) t" and ?new = "fst (successor RT ttl d t)"
  have ids: "rt_id ?new \<noteq> rt_id t"
    using fresh t by (auto simp: fresh_hash_def successor_def)
  have w1: "aw_tokens w1 = (aw_tokens w)(rt_id t \<mapsto> ?old, rt_id ?new \<mapsto> ?new)"
    using rot t by (simp add: rotated_def add_token_def consume_token_def)
  have ok1: "tokens_inv w1" by (rule rotated_inv [OF ok t rot fresh])
  have old: "aw_tokens w1 (rt_id t) = Some ?old" using ids by (simp add: w1)
  then have old_ran: "?old \<in> ran (aw_tokens w1)" by (rule ranI)
  have old_hash: "rt_token_hash ?old = token_hash RT presented" using hash by (simp add: consume_def)
  from out2 obtain t2 where t2: "aw_tokens w1 (rt_id t2) = Some t2"
    "rt_token_hash t2 = token_hash RT presented" "reused RT d' t2 w1 w2 \<or> lapsed d' t2 w1 w2"
    using old_ran old_hash by (auto simp: rotate_outcome_def Let_def)
  have "rt_id t2 = rt_id t" using tokens_inv_hash [OF ok1 t2(1) old] t2(2) old_hash by simp
  with t2(1) old have "t2 = ?old" by simp
  then have consumed: "is_consumed t2" and fam: "rt_family_id t2 = rt_family_id t"
    by (simp_all add: consume_def is_consumed_def)
  then have w2: "aw_tokens w2 = map_keep (\<lambda>_ u. rt_family_id u \<noteq> rt_family_id t) (aw_tokens w1)"
    using t2(3) by (auto simp: reused_def lapsed_def drop_family_def)
  have "rt_token_hash u \<noteq> token_hash RT (st_refresh_token st)" if "u \<in> ran (aw_tokens w2)" for u
  proof
    assume eq: "rt_token_hash u = token_hash RT (st_refresh_token st)"
    from that obtain j where j: "aw_tokens w1 j = Some u" "rt_family_id u \<noteq> rt_family_id t"
      by (auto simp: w2 ran_def)
    have new: "aw_tokens w1 (rt_id ?new) = Some ?new" by (simp add: w1)
    have "j = rt_id ?new"
      using tokens_inv_hash [OF ok1 j(1) new] eq by (simp add: st successor_def)
    then have "u = ?new" using j(1) new by (metis option.inject)
    with j(2) show False by (simp add: successor_def)
  qed
  then have "token_hash RT (st_refresh_token st) \<notin> rt_token_hash ` ran (aw_tokens w2)" by force
  then show ?thesis by (intro exI [of _ t] conjI t hash w2)
qed

subsection \<open>One account per address\<close>

definition emails_unique :: "aworld \<Rightarrow> bool" where
  "emails_unique w \<longleftrightarrow>
     (\<forall>i j u v. aw_users w i = Some u \<longrightarrow> aw_users w j = Some v \<longrightarrow> user_email u = user_email v \<longrightarrow> i = j)"

lemma register_outcome_unique:
  assumes out: "register_outcome RT H d email password w r w'" and ok: "emails_unique w"
  shows "emails_unique w'"
proof -
  have "emails_unique (add_user u w)" if "\<forall>v \<in> ran (aw_users w). user_email v \<noteq> user_email u" for u
    using ok that unfolding emails_unique_def add_user_def
    by (auto split: if_splits dest: ranI)
  then show ?thesis
    using out ok
    by (auto simp: register_outcome_def Let_def user_new_def split: sum.splits register_error.splits)
qed

lemma rotate_consumed_same: "d\<lparr>rtd_consumed := rtd_consumed d\<rparr> = d"
  by simp

lemma user_new_fields:
  "user_id (user_new i t em h) = i" "user_email (user_new i t em h) = em"
  by (simp_all add: user_new_def)

locale account_ports = user_port prec U invar \<alpha> + token_port prec T invar \<alpha> + audit_log prec A invar \<alpha>
  for prec :: "time \<Rightarrow> time" and U :: "'s user_repo" and T :: "'s token_repo" and A :: "'s audit_port"
    and invar :: "'s \<Rightarrow> bool" and \<alpha> :: "'s \<Rightarrow> aworld"
begin

lemma exact_new_user: "exact_user prec (user_new i t email hash)"
  by (simp add: exact_user_def user_new_def prec_now)

lemma exact_issued: "exact_token prec (fst (issue_in_family RT d u f ttl))"
  by (simp add: exact_token_def issue_in_family_def Let_def prec_now prec_expiry)

lemma exact_new_event: "exact_event prec (security_event_new i t kind u ip detail)"
  by (simp add: exact_event_def security_event_new_def prec_now)

lemmas exact_new = exact_new_user exact_issued exact_new_event

lemma sat_find_email:
  assumes "\<And>e. Q (Inl (conv e)) w"
    and "\<forall>u \<in> ran (aw_users w). user_email u \<noteq> em \<Longrightarrow> sat invar \<alpha> (f None) w Q"
    and "\<And>u. aw_users w (user_id u) = Some u \<Longrightarrow> user_email u = em \<Longrightarrow> sat invar \<alpha> (f (Some u)) w Q"
  shows "sat invar \<alpha> (io_bind (io_lift conv (ur_find_by_email U em)) f) w Q"
  by (rule sat_bind_lift_port [OF user_find_by_email]) (use assms in \<open>auto split: option.splits\<close>)

lemma sat_insert_user:
  assumes "user_id u \<notin> dom (aw_users w)" and "exact_user prec u" and "\<And>e. Q (Inl (conv e)) w"
    and "sat invar \<alpha> (f ()) (add_user u w) Q"
  shows "sat invar \<alpha> (io_bind (io_lift conv (ur_insert U u)) f) w Q"
  by (rule sat_bind_lift_port [OF user_insert]) (use assms in \<open>simp_all add: add_user_def\<close>)

lemma sat_insert_token:
  assumes "rt_id t \<notin> dom (aw_tokens w)" and "exact_token prec t" and "\<And>e. Q (Inl (conv e)) w"
    and "sat invar \<alpha> (f ()) (add_token t w) Q"
  shows "sat invar \<alpha> (io_bind (io_lift conv (tr_insert T t)) f) w Q"
  by (rule sat_bind_lift_port [OF token_insert]) (use assms in \<open>simp_all add: add_token_def\<close>)

lemma sat_find_token:
  assumes "\<And>e. Q (Inl (conv e)) w"
    and "\<forall>t \<in> ran (aw_tokens w). rt_token_hash t \<noteq> h \<Longrightarrow> sat invar \<alpha> (f None) w Q"
    and "\<And>t. aw_tokens w (rt_id t) = Some t \<Longrightarrow> rt_token_hash t = h \<Longrightarrow> sat invar \<alpha> (f (Some t)) w Q"
  shows "sat invar \<alpha> (io_bind (io_lift conv (tr_find_by_hash T h)) f) w Q"
  by (rule sat_bind_lift_port [OF token_find]) (use assms in \<open>auto split: option.splits\<close>)

lemma sat_consume:
  assumes "\<And>e. Q (Inl (conv e)) w" and "sat invar \<alpha> (f ()) (consume_token i (prec at) w) Q"
  shows "sat invar \<alpha> (io_bind (io_lift conv (tr_mark_consumed T i at)) f) w Q"
  by (rule sat_bind_lift_port [OF token_mark_consumed])
    (use assms in \<open>simp_all add: consume_token_def\<close>)

lemma sat_drop_token:
  assumes "\<And>e. Q (Inl (conv e)) w" and "sat invar \<alpha> (f ()) (drop_token i w) Q"
  shows "sat invar \<alpha> (io_bind (io_lift conv (tr_delete T i)) f) w Q"
  by (rule sat_bind_lift_port [OF token_delete]) (use assms in \<open>simp_all add: drop_token_def\<close>)

lemma sat_drop_family:
  assumes "\<And>e. Q (Inl (conv e)) w" and "sat invar \<alpha> (f ()) (drop_family i w) Q"
  shows "sat invar \<alpha> (io_bind (io_lift conv (tr_delete_family T i)) f) w Q"
  by (rule sat_bind_lift_port [OF token_delete_family])
    (use assms in \<open>simp_all add: drop_family_def\<close>)

lemma sat_audit:
  assumes "exact_event prec ev" and "\<And>e. sat invar \<alpha> (f (Inl e)) w Q"
    and "sat invar \<alpha> (f (Inr ())) (add_event ev w) Q"
  shows "sat invar \<alpha> (io_bind (io_result (au_record A ev)) f) w Q"
  by (rule sat_bind_result_port [OF audit_record]) (use assms in \<open>simp_all add: add_event_def\<close>)

lemmas account_steps = sat_find_email sat_insert_user sat_insert_token sat_find_token sat_consume
  sat_drop_token sat_drop_family sat_audit sat_flow

lemma register_sat:
  assumes fresh: "rgd_id d \<notin> dom (aw_users w)"
  shows "sat invar \<alpha> (register_user RT U H d email password) w
           (register_outcome RT H d email password w)"
  unfolding register_user_def Let_def
  by (intro account_steps)
    (use fresh in \<open>auto simp: register_outcome_def Let_def exact_new user_new_fields ran_def dom_def\<close>)

lemma login_sat:
  assumes fresh: "td_id (lgd_token d) \<notin> dom (aw_tokens w)"
  shows "sat invar \<alpha> (login_user RT U H S T ttl_days d email password) w
           (login_outcome RT H S ttl_days d email password w)"
  unfolding login_user_def Let_def case_prod_beta
  by (intro account_steps)
    (use fresh in \<open>auto simp: login_outcome_def Let_def issue_id exact_new issue_def\<close>)

lemma rotate_sat:
  assumes fresh: "td_id (rtd_token d) \<notin> dom (aw_tokens w)"
  shows "sat invar \<alpha> (rotate_session RT T S A ttl_days d presented) w
           (rotate_outcome RT S ttl_days (d\<lparr>rtd_consumed := prec (rtd_consumed d)\<rparr>) presented w)"
  unfolding rotate_session_def Let_def case_prod_beta
  by (intro account_steps)
    (use fresh in \<open>auto simp: rotate_outcome_def Let_def reused_def lapsed_def rotated_def
       reuse_event_def exact_new successor_def issue_in_family_id consume_token_def map_modify_def split: option.splits\<close>)

lemma revoke_sat:
  "sat invar \<alpha> (revoke_session RT T presented) w
     (\<lambda>r w'. case r of
        Inl e \<Rightarrow> w' = w
      | Inr _ \<Rightarrow> (w' = w \<and> (\<forall>t \<in> ran (aw_tokens w). rt_token_hash t \<noteq> token_hash RT presented)) \<or>
          (\<exists>t. aw_tokens w (rt_id t) = Some t \<and> rt_token_hash t = token_hash RT presented \<and>
               w' = drop_family (rt_family_id t) w))"
  unfolding revoke_session_def
  by (intro sat_bind_port [OF token_find] sat_flow sat_port [OF token_delete_family])
    (auto simp: drop_family_def split: option.splits)

end

end
