(* ===== verification/Resources.thy ===== *)
theory Resources
  imports Ports
begin

text \<open>
  The use cases over what a user owns: \<open>application/recurring_searches.rs\<close>, \<open>profile.rs\<close>,
  \<open>knowledge.rs\<close>, \<open>queries.rs\<close> and \<open>delete_account.rs\<close>.
\<close>

section \<open>Recurring searches\<close>

datatype recurring_error =
    RecurringInvalid job_error
  | RecurringNotFound
  | RecurringTooMany nat
  | RecurringInfrastructure port_error

definition MAX_PER_USER :: nat where "MAX_PER_USER = 20"

definition recurring_create ::
  "'s recurring_repo \<Rightarrow> uuid \<Rightarrow> time \<Rightarrow> uuid \<Rightarrow> rstr \<Rightarrow> job_mode \<Rightarrow> 32 word \<Rightarrow> rstr option \<Rightarrow>
   ('s, recurring_error, recurring_search) io" where
  "recurring_create R new_id now user keyword mode interval webhook_url =
     io_bind (io_lift RecurringInfrastructure (rr_list_for_user R user)) (\<lambda>existing.
     if MAX_PER_USER \<le> length existing then io_throw (RecurringTooMany MAX_PER_USER)
     else
       io_bind (io_lift RecurringInvalid
                 (io_of (recurring_search_new new_id now user keyword mode interval webhook_url))) (\<lambda>search.
       io_bind (io_lift RecurringInfrastructure (rr_insert R search)) (\<lambda>_.
       io_ret search)))"

definition recurring_list :: "'s recurring_repo \<Rightarrow> uuid \<Rightarrow> ('s, recurring_error, recurring_search list) io" where
  "recurring_list R user = io_lift RecurringInfrastructure (rr_list_for_user R user)"

definition recurring_delete :: "'s recurring_repo \<Rightarrow> uuid \<Rightarrow> uuid \<Rightarrow> ('s, recurring_error, unit) io" where
  "recurring_delete R user i =
     io_bind (io_lift RecurringInfrastructure (rr_delete R user i)) (\<lambda>found.
     if found then io_ret () else io_throw RecurringNotFound)"

section \<open>Profile\<close>

datatype profile_error =
    ProfileNotFound
  | EmailNotConfigured
  | InvalidChannel channel_error
  | ProfileInfrastructure port_error

definition profile_view ::
  "'s user_repo \<Rightarrow> 's channel_repo \<Rightarrow> uuid \<Rightarrow> ('s, profile_error, user \<times> notification_channel list) io"
  where
  "profile_view U C user =
     io_bind (io_lift ProfileInfrastructure (ur_find_by_id U user)) (\<lambda>found.
     case found of
       None \<Rightarrow> io_throw ProfileNotFound
     | Some u \<Rightarrow>
         io_bind (io_lift ProfileInfrastructure (cr_list_for_user C user)) (\<lambda>channels.
         io_ret (u, channels)))"

definition add_channel ::
  "'s channel_repo \<Rightarrow> bool \<Rightarrow> uuid \<Rightarrow> time \<Rightarrow> uuid \<Rightarrow> channel_kind \<Rightarrow> rstr \<Rightarrow> rstr option \<Rightarrow>
   ('s, profile_error, notification_channel) io" where
  "add_channel C email_enabled new_id now user kind target secret =
     (if kind = Email \<and> \<not> email_enabled then io_throw EmailNotConfigured
      else
        io_bind (io_lift InvalidChannel
                  (io_of (notification_channel_new new_id now user kind target secret))) (\<lambda>channel.
        io_bind (io_lift ProfileInfrastructure (cr_insert C channel)) (\<lambda>_.
        io_ret channel)))"

definition remove_channel :: "'s channel_repo \<Rightarrow> uuid \<Rightarrow> uuid \<Rightarrow> ('s, bool) port" where
  "remove_channel C user i = cr_delete C user i"

section \<open>Knowledge base\<close>

datatype knowledge_error =
    DocumentNotFound
  | KnowledgeJobNotFound
  | KnowledgeInvalid document_error
  | KnowledgeInfrastructure port_error

definition upload_document ::
  "'s document_repo \<Rightarrow> 's embed_dispatcher \<Rightarrow> uuid \<Rightarrow> time \<Rightarrow> uuid \<Rightarrow> rstr \<Rightarrow> rstr \<Rightarrow>
   ('s, knowledge_error, document) io" where
  "upload_document D emb new_id now user name content =
     io_bind (io_lift KnowledgeInvalid (io_of (validate_content content))) (\<lambda>_.
     io_bind (io_lift KnowledgeInvalid (io_of (document_new new_id now user name))) (\<lambda>document.
     io_bind (io_lift KnowledgeInfrastructure (dr_insert D document)) (\<lambda>_.
     io_bind (io_result (emb (doc_id document) (doc_name document) content)) (\<lambda>sent.
     case sent of
       Inl e \<Rightarrow>
         io_bind (io_result (dr_mark_failed D (doc_id document)
                               (lit ''embedding dispatch failed: '' @ port_error_msg e))) (\<lambda>_.
         io_ret document)
     | Inr _ \<Rightarrow> io_ret document))))"

definition list_documents :: "'s document_repo \<Rightarrow> uuid \<Rightarrow> ('s, document list) port" where
  "list_documents D user = dr_list_for_user D user"

definition delete_document :: "'s document_repo \<Rightarrow> uuid \<Rightarrow> uuid \<Rightarrow> ('s, bool) port" where
  "delete_document D user i = dr_delete D user i"

definition store_document_chunks ::
  "'s document_repo \<Rightarrow> uuid \<Rightarrow> new_chunk list \<Rightarrow> ('s, knowledge_error, unit) io" where
  "store_document_chunks D i chunks =
     io_bind (io_lift KnowledgeInfrastructure (dr_find D i)) (\<lambda>found.
     case found of
       None \<Rightarrow> io_throw DocumentNotFound
     | Some document \<Rightarrow> io_lift KnowledgeInfrastructure (dr_store_chunks D document chunks))"

definition mark_document_failed :: "'s document_repo \<Rightarrow> uuid \<Rightarrow> rstr \<Rightarrow> ('s, unit) port" where
  "mark_document_failed D i err = dr_mark_failed D i err"

definition retrieve_for_job ::
  "'s document_repo \<Rightarrow> 's job_repo \<Rightarrow> uuid \<Rightarrow> f32 list \<Rightarrow> int \<Rightarrow>
   ('s, knowledge_error, retrieved_chunk list) io" where
  "retrieve_for_job D J i embedding k =
     io_bind (io_lift KnowledgeInfrastructure (jr_find J i)) (\<lambda>found.
     case found of
       None \<Rightarrow> io_throw KnowledgeJobNotFound
     | Some job \<Rightarrow> io_lift KnowledgeInfrastructure (dr_retrieve D (job_user_id job) embedding k))"

section \<open>Queries\<close>

definition search_list :: "'s job_repo \<Rightarrow> uuid \<Rightarrow> ('s, research_job list) port" where
  "search_list J user = jr_list_for_user J user"

definition search_get ::
  "'s job_repo \<Rightarrow> uuid \<Rightarrow> uuid \<Rightarrow> ('s, (research_job \<times> search_result list \<times> agent_step list) option) port"
  where
  "search_get J user i =
     io_bind (jr_find J i) (\<lambda>found.
     case found of
       None \<Rightarrow> io_ret None
     | Some job \<Rightarrow>
         if job_user_id job \<noteq> user then io_ret None
         else
           io_bind (jr_results_for J i) (\<lambda>results.
           let results = sort_by_publication_date results in
           io_bind (jr_steps_for J i) (\<lambda>steps.
           io_ret (Some (job, results, steps)))))"

section \<open>Account deletion\<close>

definition delete_account ::
  "'s user_repo \<Rightarrow> 's job_repo \<Rightarrow> 's recurring_repo \<Rightarrow> 's token_repo \<Rightarrow> 's channel_repo \<Rightarrow>
   's document_repo \<Rightarrow> uuid \<Rightarrow> ('s, unit) port" where
  "delete_account U J R T C D user =
     io_bind (rr_delete_all_for_user R user) (\<lambda>_.
     io_bind (jr_delete_all_for_user J user) (\<lambda>_.
     io_bind (tr_delete_all_for_user T user) (\<lambda>_.
     io_bind (cr_delete_all_for_user C user) (\<lambda>_.
     io_bind (dr_delete_all_for_user D user) (\<lambda>_.
     ur_delete U user)))))"

section \<open>What they promise\<close>

lemma listing_length:
  assumes "listing P key m xs" and "keyed f m"
  shows "length xs = card {v \<in> ran m. P v}"
  using assms by (metis listing_def distinct_card)

definition owned_searches :: "aworld \<Rightarrow> uuid \<Rightarrow> recurring_search set" where
  "owned_searches w u = {x \<in> Map.ran (aw_recurring w). rs_user_id x = u}"

definition add_search :: "recurring_search \<Rightarrow> aworld \<Rightarrow> aworld" where
  "add_search x w = w\<lparr>aw_recurring := (aw_recurring w)(rs_id x \<mapsto> x)\<rparr>"

definition create_outcome ::
  "uuid \<Rightarrow> time \<Rightarrow> uuid \<Rightarrow> rstr \<Rightarrow> job_mode \<Rightarrow> 32 word \<Rightarrow> rstr option \<Rightarrow> aworld \<Rightarrow>
   recurring_error + recurring_search \<Rightarrow> aworld \<Rightarrow> bool" where
  "create_outcome i t u k m n hook w r w' \<longleftrightarrow>
     (let owned = card (owned_searches w u); new = recurring_search_new i t u k m n hook in
      case r of
        Inl (RecurringTooMany q) \<Rightarrow> q = 20 \<and> 20 \<le> owned \<and> w' = w
      | Inl (RecurringInvalid e) \<Rightarrow> owned < 20 \<and> new = Inl e \<and> w' = w
      | Inl (RecurringInfrastructure e) \<Rightarrow> w' = w
      | Inl RecurringNotFound \<Rightarrow> False
      | Inr x \<Rightarrow> owned < 20 \<and> new = Inr x \<and> w' = add_search x w)"

definition cap_ok :: "aworld \<Rightarrow> bool" where
  "cap_ok w \<longleftrightarrow> (\<forall>u. card (owned_searches w u) \<le> 20)"

lemma create_outcome_cap:
  assumes out: "create_outcome i t u k m n hook w r w'" and ok: "cap_ok w"
    and key: "keyed rs_id (aw_recurring w)" and fresh: "i \<notin> dom (aw_recurring w)"
  shows "cap_ok w'"
proof (cases r)
  case (Inl e)
  with out ok show ?thesis by (cases e) (auto simp: create_outcome_def Let_def)
next
  case (Inr x)
  with out have lt: "card (owned_searches w u) < 20" and new: "recurring_search_new i t u k m n hook = Inr x"
    and w': "w' = add_search x w" by (auto simp: create_outcome_def Let_def)
  note x = recurring_search_new_Inr [OF new]
  have ran: "Map.ran (aw_recurring w') = insert x (Map.ran (aw_recurring w))"
    using fresh x by (simp add: w' add_search_def ran_map_upd domIff)
  have fin: "finite (owned_searches w v)" for v
    using keyed_finite [OF key] by (simp add: owned_searches_def)
  have "card (owned_searches w' v) \<le> 20" for v
  proof (cases "v = u")
    case True
    then have "owned_searches w' v = insert x (owned_searches w u)"
      using x unfolding owned_searches_def ran by auto
    then show ?thesis using lt fin by (simp add: card_insert_if)
  next
    case False
    then have "owned_searches w' v = owned_searches w v"
      using x unfolding owned_searches_def ran by auto
    then show ?thesis using ok by (simp add: cap_ok_def)
  qed
  then show ?thesis by (simp add: cap_ok_def)
qed

text \<open>Everything a user owns is erased; what belongs to others stays.\<close>

definition links_ok :: "aworld \<Rightarrow> bool" where
  "links_ok w \<longleftrightarrow>
     (\<forall>i j r x. aw_jobs w i = Some j \<longrightarrow> job_recurring_search_id j = Some r \<longrightarrow>
        aw_recurring w r = Some x \<longrightarrow> rs_user_id x = job_user_id j)"

definition erased :: "uuid \<Rightarrow> aworld \<Rightarrow> aworld" where
  "erased u w =
     drop_jobs (\<lambda>j. job_user_id j = u)
       (w\<lparr>aw_users := (aw_users w)(u := None),
          aw_channels := map_keep (\<lambda>_ c. ch_user_id c \<noteq> u) (aw_channels w),
          aw_tokens := map_keep (\<lambda>_ t. rt_user_id t \<noteq> u) (aw_tokens w),
          aw_recurring := map_keep (\<lambda>_ x. rs_user_id x \<noteq> u) (aw_recurring w),
          aw_documents := map_keep (\<lambda>_ d. doc_user_id d \<noteq> u) (aw_documents w),
          aw_chunks := {#c \<in># aw_chunks w. sc_user_id c \<noteq> u#}\<rparr>)"

lemma unlinked_drop:
  assumes un: "unlinked {i. \<exists>x. aw_recurring w i = Some x \<and> rs_user_id x = u} (aw_jobs w) m"
    and links: "links_ok w"
  shows "map_keep (\<lambda>_ j. job_user_id j \<noteq> u) m = map_keep (\<lambda>_ j. job_user_id j \<noteq> u) (aw_jobs w)"
    and "(\<exists>j. m i = Some j \<and> job_user_id j = u) \<longleftrightarrow> (\<exists>j. aw_jobs w i = Some j \<and> job_user_id j = u)"
proof -
  have *: "m i = aw_jobs w i \<or>
      (\<exists>j r. aw_jobs w i = Some j \<and> job_user_id j = u \<and> m i = Some (j\<lparr>job_recurring_search_id := r\<rparr>))" for i
  proof (cases "aw_jobs w i")
    case None
    moreover have "dom m = dom (aw_jobs w)" using un by (simp add: unlinked_def)
    ultimately have "m i = None" by (metis domIff)
    with None show ?thesis by simp
  next
    case (Some j)
    consider "m i = Some j"
      | r x where "aw_recurring w r = Some x" "rs_user_id x = u"
          "job_recurring_search_id j = Some r" "m i = Some (j\<lparr>job_recurring_search_id := None\<rparr>)"
      using un [unfolded unlinked_def, THEN conjunct2, rule_format, OF Some] by blast
    then show ?thesis
    proof cases
      case 1
      with Some show ?thesis by simp
    next
      case 2
      then have "job_user_id j = u" using links Some unfolding links_ok_def by metis
      with 2 Some show ?thesis by blast
    qed
  qed
  show "map_keep (\<lambda>_ j. job_user_id j \<noteq> u) m = map_keep (\<lambda>_ j. job_user_id j \<noteq> u) (aw_jobs w)"
  proof
    fix i
    show "map_keep (\<lambda>_ j. job_user_id j \<noteq> u) m i = map_keep (\<lambda>_ j. job_user_id j \<noteq> u) (aw_jobs w) i"
      using * [of i] by (auto simp: map_keep_def)
  qed
  show "(\<exists>j. m i = Some j \<and> job_user_id j = u) \<longleftrightarrow> (\<exists>j. aw_jobs w i = Some j \<and> job_user_id j = u)"
    using * [of i] by (cases "aw_jobs w i") auto
qed

definition store_chunks_outcome ::
  "uuid \<Rightarrow> new_chunk list \<Rightarrow> aworld \<Rightarrow> knowledge_error + unit \<Rightarrow> aworld \<Rightarrow> bool" where
  "store_chunks_outcome i ns w r w' \<longleftrightarrow>
     (case r of
        Inl DocumentNotFound \<Rightarrow> aw_documents w i = None \<and> w' = w
      | Inl e \<Rightarrow> w' = w
      | Inr _ \<Rightarrow> \<exists>d kept. aw_documents w i = Some d \<and> doc_id d = i \<and>
          kept \<subseteq># {#c \<in># aw_chunks w. sc_document_id c = i#} \<and>
          w' = w\<lparr>aw_documents := (aw_documents w)(i \<mapsto> document_ready d),
                 aw_chunks := {#c \<in># aw_chunks w. sc_document_id c \<noteq> i#} + kept +
                              mset (map (stored_chunk_of d) ns)\<rparr>)"

definition add_document :: "document \<Rightarrow> aworld \<Rightarrow> aworld" where
  "add_document d w = w\<lparr>aw_documents := (aw_documents w)(doc_id d \<mapsto> d)\<rparr>"

text \<open>
  An upload returns the document as it was created, \<open>pending\<close>, even when the dispatch failed
  and the stored document says so.
\<close>

definition upload_outcome ::
  "(uuid \<Rightarrow> rstr \<Rightarrow> rstr \<Rightarrow> port_error + unit \<Rightarrow> outcall list \<Rightarrow> bool) \<Rightarrow>
   uuid \<Rightarrow> time \<Rightarrow> uuid \<Rightarrow> rstr \<Rightarrow> rstr \<Rightarrow> aworld \<Rightarrow> knowledge_error + document \<Rightarrow> aworld \<Rightarrow> bool" where
  "upload_outcome esent i t u name content w r w' \<longleftrightarrow>
     (case r of
        Inl (KnowledgeInvalid e) \<Rightarrow> w' = w \<and>
          (validate_content content = Inl e \<or> document_new i t u name = Inl e)
      | Inl e \<Rightarrow> w' = w
      | Inr d \<Rightarrow> validate_content content = Inr () \<and> document_new i t u name = Inr d \<and>
          (\<exists>res cs stored. esent i (doc_name d) content res cs \<and>
             w' = log_calls cs (add_document stored w) \<and>
             (case res of
                Inr _ \<Rightarrow> stored = d
              | Inl e \<Rightarrow> stored = d \<or>
                  stored = document_failed (lit ''embedding dispatch failed: '' @ port_error_msg e) d)))"

text \<open>What is left of a user before the account itself goes.\<close>

definition emptied :: "uuid \<Rightarrow> aworld \<Rightarrow> aworld" where
  "emptied u w = (erased u w)\<lparr>aw_users := aw_users w\<rparr>"

lemma emptied_owns_nothing: "owns_nothing u (emptied u w)"
  by (auto simp: owns_nothing_def emptied_def erased_def drop_jobs_def ran_def map_keep_def
      split: option.splits if_splits)

lemma emptied_simps:
  "aw_events (emptied u w) = aw_events w"
  "(emptied u w)\<lparr>aw_users := (aw_users (emptied u w))(u := None), aw_events := es\<rparr> =
     (erased u w)\<lparr>aw_events := es\<rparr>"
  by (simp_all add: emptied_def erased_def drop_jobs_def)

definition account_gone :: "uuid \<Rightarrow> aworld \<Rightarrow> aworld \<Rightarrow> bool" where
  "account_gone u w w' \<longleftrightarrow>
     (\<exists>es. anonymised u (aw_events w) es \<and> w' = (erased u w)\<lparr>aw_events := es\<rparr>)"

locale resource_ports = user_port prec U invar \<alpha> + channel_port prec C invar \<alpha> +
    token_port prec T invar \<alpha> + job_port prec J invar \<alpha> fadd stored + recurring_port prec R invar \<alpha> +
    document_port prec D invar \<alpha> + embed_dispatch_port emb invar \<alpha> esent
  for prec :: "time \<Rightarrow> time" and U :: "'s user_repo" and C :: "'s channel_repo" and T :: "'s token_repo"
    and J :: "'s job_repo" and R :: "'s recurring_repo" and D :: "'s document_repo"
    and emb :: "'s embed_dispatcher" and invar :: "'s \<Rightarrow> bool" and \<alpha> :: "'s \<Rightarrow> aworld"
    and fadd :: "f64 \<Rightarrow> f64 \<Rightarrow> f64" and stored :: "search_result \<Rightarrow> search_result"
    and esent :: "uuid \<Rightarrow> rstr \<Rightarrow> rstr \<Rightarrow> port_error + unit \<Rightarrow> outcall list \<Rightarrow> bool"
begin

lemma create_sat:
  assumes fresh: "i \<notin> dom (aw_recurring w)"
  shows "sat invar \<alpha> (recurring_create R i t u k m n hook) w (create_outcome i t u k m n hook w)"
proof (rule sat_assume)
  fix s
  assume "invar s" "\<alpha> s = w"
  then have key: "keyed rs_id (aw_recurring w)" using recurring_keyed by blast
  show ?thesis
    unfolding recurring_create_def
    by (intro sat_bind_lift_port [OF recurring_list] sat_bind_lift_port [OF recurring_insert] sat_flow)
      (use fresh in \<open>auto simp: create_outcome_def Let_def MAX_PER_USER_def owned_searches_def
         listing_length [OF _ key] add_search_def recurring_search_new_Inr exact_search_def prec_now\<close>)
qed

text \<open>Everything but the account itself.\<close>

definition clear_account :: "uuid \<Rightarrow> ('s, unit) port" where
  "clear_account u =
     io_bind (rr_delete_all_for_user R u) (\<lambda>_.
     io_bind (jr_delete_all_for_user J u) (\<lambda>_.
     io_bind (tr_delete_all_for_user T u) (\<lambda>_.
     io_bind (cr_delete_all_for_user C u) (\<lambda>_.
     io_bind (dr_delete_all_for_user D u) (\<lambda>_. io_ret ())))))"

lemma delete_account_clear: "delete_account U J R T C D u = io_bind (clear_account u) (\<lambda>_. ur_delete U u)"
  by (simp add: delete_account_def clear_account_def io_bind_assoc)

lemma clear_account_sat:
  assumes links: "links_ok w" and chunks: "chunks_ok w"
  shows "sat invar \<alpha> (clear_account u) w (\<lambda>r w'. r = Inr () \<longrightarrow> w' = emptied u w)"
proof -
  have others: "map_keep (\<lambda>_ j. job_user_id j \<noteq> u) m = map_keep (\<lambda>_ j. job_user_id j \<noteq> u) (aw_jobs w) \<and>
      (\<forall>i. (\<exists>j. m i = Some j \<and> job_user_id j = u) = (\<exists>j. aw_jobs w i = Some j \<and> job_user_id j = u))"
    if "unlinked {i. \<exists>x. aw_recurring w i = Some x \<and> rs_user_id x = u} (aw_jobs w) m" for m
    using unlinked_drop [OF that links] by blast
  have ok: "chunks_ok w'" if "aw_documents w' = aw_documents w" "aw_chunks w' = aw_chunks w" for w'
    using chunks that by (simp add: chunks_ok_def)
  show ?thesis
    unfolding clear_account_def
    by (intro sat_bind_port [OF recurring_delete_all] sat_bind_port [OF job_delete_all]
        sat_bind_port [OF token_delete_all] sat_bind_port [OF channel_delete_all]
        sat_bind_port [OF document_delete_all] sat_flow)
      (auto simp: emptied_def erased_def drop_jobs_def ok cong: if_cong dest!: others)
qed

lemma sat_delete_user:
  "sat invar \<alpha> (ur_delete U u) (emptied u w)
     (\<lambda>r w'. if r = Inr () then account_gone u w w' else w' = emptied u w)"
  by (rule sat_port [OF user_delete])
    (auto simp: emptied_owns_nothing emptied_simps account_gone_def)

lemma delete_account_sat:
  assumes "links_ok w" and "chunks_ok w"
  shows "sat invar \<alpha> (delete_account U J R T C D u) w (\<lambda>r w'. r = Inr () \<longrightarrow> account_gone u w w')"
  unfolding delete_account_clear
proof (rule sat_bind, rule sat_conseq [OF clear_account_sat [OF assms]])
  fix r w'
  assume "r = Inr () \<longrightarrow> w' = emptied u w"
  then show "case r of Inl e \<Rightarrow> Inl e = Inr () \<longrightarrow> account_gone u w w'
      | Inr x \<Rightarrow> sat invar \<alpha> (ur_delete U u) w' (\<lambda>r w'. r = Inr () \<longrightarrow> account_gone u w w')"
    by (auto split: sum.split intro: sat_conseq [OF sat_delete_user])
qed

lemma search_get_sat:
  "sat invar \<alpha> (search_get J u i) w
     (\<lambda>r w'. w' = w \<and>
        (case r of
           Inl e \<Rightarrow> True
         | Inr None \<Rightarrow> \<forall>job. aw_jobs w i = Some job \<longrightarrow> job_user_id job \<noteq> u
         | Inr (Some (job, rs, steps)) \<Rightarrow>
             aw_jobs w i = Some job \<and> job_user_id job = u \<and> steps = aw_steps w i \<and>
             (\<exists>raw. mset raw = mset (aw_results w i) \<and> rs = sort_by_publication_date raw)))"
  unfolding search_get_def Let_def
  by (intro sat_bind_port [OF job_find] sat_bind_port [OF job_results] sat_bind_port [OF job_steps]
      sat_flow) auto

lemma retrieve_sat:
  "sat invar \<alpha> (retrieve_for_job D J i query k) w
     (\<lambda>r w'. w' = w \<and>
        (case r of
           Inl KnowledgeJobNotFound \<Rightarrow> aw_jobs w i = None
         | Inl e \<Rightarrow> True
         | Inr found \<Rightarrow> \<exists>job cs. aw_jobs w i = Some job \<and> found = map retrieved_of cs \<and>
             mset cs \<subseteq># {#c \<in># aw_chunks w. sc_user_id c = job_user_id job#} \<and>
             length cs \<le> nat k))"
    (is "sat _ _ _ _ ?Q")
proof (cases "aw_jobs w i")
  case None
  then show ?thesis
    unfolding retrieve_for_job_def
    by (intro sat_bind_lift_port [OF job_find] sat_lift_port [OF document_retrieve] sat_flow) auto
next
  case (Some job)
  have "sat invar \<alpha> (io_lift KnowledgeInfrastructure (dr_retrieve D (job_user_id job) query k)) w ?Q"
    by (rule sat_lift_port [OF document_retrieve]) (auto simp: Some)
  then show ?thesis
    unfolding retrieve_for_job_def by (intro sat_bind_lift_port [OF job_find]) (auto simp: Some)
qed

lemma store_chunks_sat:
  "sat invar \<alpha> (store_document_chunks D i ns) w (store_chunks_outcome i ns w)"
proof (rule sat_assume)
  fix s
  assume "invar s" "\<alpha> s = w"
  then have key: "keyed doc_id (aw_documents w)" using document_keyed by blast
  show ?thesis
  proof (cases "aw_documents w i")
    case None
    then show ?thesis
      unfolding store_document_chunks_def
      by (intro sat_bind_lift_port [OF document_find]) (auto simp: store_chunks_outcome_def sat_throw)
  next
    case (Some d)
    then have d: "doc_id d = i" using keyedD [OF key] by simp
    have "sat invar \<alpha> (io_lift KnowledgeInfrastructure (dr_store_chunks D d ns)) w
        (store_chunks_outcome i ns w)"
      by (rule sat_lift_port [OF document_store_chunks])
        (simp_all add: store_chunks_outcome_def Some d)
    then show ?thesis
      unfolding store_document_chunks_def
      by (intro sat_bind_lift_port [OF document_find]) (auto simp: Some store_chunks_outcome_def)
  qed
qed

lemma mark_failed_state:
  "(log_calls cs (add_document d w))
     \<lparr>aw_documents := map_modify (doc_id d) (document_failed err) (aw_documents (add_document d w))\<rparr> =
   log_calls cs (add_document (document_failed err d) w)"
  by (rule aworld.equality) (simp_all add: add_document_def log_calls_def document_failed_def)

lemma sat_mark_failed:
  assumes "\<And>e. sat invar \<alpha> (f (Inl e)) (log_calls cs (add_document d w)) Q"
    and "sat invar \<alpha> (f (Inr ())) (log_calls cs (add_document (document_failed err d) w)) Q"
  shows "sat invar \<alpha> (io_bind (io_result (dr_mark_failed D (doc_id d) err)) f)
           (log_calls cs (add_document d w)) Q"
  by (rule sat_bind_result_port [OF document_mark_failed])
    (use assms in \<open>simp_all add: mark_failed_state\<close>)

lemma sat_insert_document:
  assumes "doc_id d \<notin> dom (aw_documents w)" and "exact_document prec d" and "\<And>e. Q (Inl (conv e)) w"
    and "sat invar \<alpha> (f ()) (add_document d w) Q"
  shows "sat invar \<alpha> (io_bind (io_lift conv (dr_insert D d)) f) w Q"
  by (rule sat_bind_lift_port [OF document_insert]) (use assms in \<open>simp_all add: add_document_def\<close>)

lemma upload_sat:
  assumes fresh: "i \<notin> dom (aw_documents w)"
  shows "sat invar \<alpha> (upload_document D emb i t u name content) w
           (upload_outcome esent i t u name content w)"
proof (cases "document_new i t u name")
  case (Inl e)
  then show ?thesis
    unfolding upload_document_def
    by (intro sat_flow sat_insert_document) (auto simp: upload_outcome_def)
next
  case (Inr d)
  note d = document_new_Inr(2) [OF Inr]
  have exact: "exact_document prec d"
    using document_new_Inr [OF Inr] by (simp add: exact_document_def prec_now)
  let ?msg = "\<lambda>e. lit ''embedding dispatch failed: '' @ port_error_msg e"
  let ?out = "\<lambda>stored cs. upload_outcome esent i t u name content w (Inr d) (log_calls cs (add_document stored w))"
  have ok: "?out d cs" if "validate_content content = Inr ()" "esent i (doc_name d) content (Inr ()) cs" for cs
    unfolding upload_outcome_def sum.case using that Inr
    by (intro conjI exI [of _ "Inr ()"] exI [of _ cs] exI [of _ d]) simp_all
  have bad: "?out d cs" "?out (document_failed (?msg e) d) cs"
    if "validate_content content = Inr ()" "esent i (doc_name d) content (Inl e) cs" for e cs
    unfolding upload_outcome_def sum.case using that Inr
    by (intro conjI exI [of _ "Inl e"] exI [of _ cs] exI [of _ d]
        exI [of _ "document_failed (?msg e) d"], simp_all)+
  have err: "upload_outcome esent i t u name content w (Inl (KnowledgeInfrastructure e)) w" for e
    by (simp add: upload_outcome_def)
  have inv: "upload_outcome esent i t u name content w (Inl (KnowledgeInvalid e)) w"
    if "validate_content content = Inl e" for e using that by (simp add: upload_outcome_def)
  show ?thesis
    unfolding upload_document_def Inr
    by (intro sat_flow sat_insert_document sat_bind_result_call [OF dispatch_embed] sat_mark_failed)
      (use fresh in \<open>auto simp: d exact intro: ok bad err inv\<close>)
qed

end

end
