(* ===== verification/In_Memory.thy ===== *)
theory In_Memory
  imports Ports
begin

text \<open>
  \<open>adapters/persistence/in_memory.rs\<close>: the in-memory repositories, one hash map per table,
  over one state \<open>world\<close> that also holds the log of outgoing traffic. Each operation runs under
  its map's mutex, so it is one step. The repositories are interpretations of the port locales
  through the abstraction \<open>im_abs\<close>.
\<close>

section \<open>State\<close>

record world =
  m_users :: "(uuid, user) hashmap"
  m_channels :: "(uuid, notification_channel) hashmap"
  m_tokens :: "(uuid, refresh_token) hashmap"
  m_jobs :: "(uuid, research_job) hashmap"
  m_results :: "(uuid, search_result list) hashmap"
  m_steps :: "(uuid, agent_step list) hashmap"
  m_searches :: "(uuid, recurring_search) hashmap"
  m_events :: "security_event list"
  m_documents :: "(uuid, document) hashmap"
  m_chunks :: "stored_chunk list"
  m_calls :: "outcall list"

definition empty_world :: world where
  "empty_world =
     \<lparr>m_users = [], m_channels = [], m_tokens = [], m_jobs = [], m_results = [], m_steps = [],
      m_searches = [], m_events = [], m_documents = [], m_chunks = [], m_calls = []\<rparr>"

text \<open>\<open>get(..).cloned().unwrap_or_default()\<close> for a map of vectors.\<close>

definition hm_list :: "('k, 'v list) hashmap \<Rightarrow> 'k \<Rightarrow> 'v list" where
  "hm_list m k = (case hm_get m k of None \<Rightarrow> [] | Some xs \<Rightarrow> xs)"

definition world_wf :: "world \<Rightarrow> bool" where
  "world_wf s \<longleftrightarrow>
     hm_wf user_id (m_users s) \<and> hm_wf ch_id (m_channels s) \<and> hm_wf rt_id (m_tokens s) \<and>
     hm_wf job_id (m_jobs s) \<and> hm_wf rs_id (m_searches s) \<and> hm_wf doc_id (m_documents s)"

definition im_abs :: "world \<Rightarrow> aworld" where
  "im_abs s =
     \<lparr>aw_users = hm_get (m_users s), aw_channels = hm_get (m_channels s),
      aw_tokens = hm_get (m_tokens s), aw_jobs = hm_get (m_jobs s),
      aw_results = hm_list (m_results s), aw_steps = hm_list (m_steps s),
      aw_recurring = hm_get (m_searches s), aw_events = m_events s,
      aw_documents = hm_get (m_documents s), aw_chunks = mset (m_chunks s),
      aw_calls = m_calls s\<rparr>"

lemma im_abs_simps [simp]:
  "aw_users (im_abs s) = hm_get (m_users s)" "aw_channels (im_abs s) = hm_get (m_channels s)"
  "aw_tokens (im_abs s) = hm_get (m_tokens s)" "aw_jobs (im_abs s) = hm_get (m_jobs s)"
  "aw_results (im_abs s) = hm_list (m_results s)" "aw_steps (im_abs s) = hm_list (m_steps s)"
  "aw_recurring (im_abs s) = hm_get (m_searches s)" "aw_events (im_abs s) = m_events s"
  "aw_documents (im_abs s) = hm_get (m_documents s)" "aw_chunks (im_abs s) = mset (m_chunks s)"
  "aw_calls (im_abs s) = m_calls s"
  by (simp_all add: im_abs_def)

section \<open>Users\<close>

definition im_user_insert :: "user \<Rightarrow> (world, unit) port" where
  "im_user_insert u = (\<lambda>s. (Inr (), s\<lparr>m_users := hm_insert (user_id u) u (m_users s)\<rparr>))"

definition im_find_by_email :: "rstr \<Rightarrow> (world, user option) port" where
  "im_find_by_email em = (\<lambda>s. (Inr (find (\<lambda>u. user_email u = em) (hm_values (m_users s))), s))"

definition im_find_by_id :: "uuid \<Rightarrow> (world, user option) port" where
  "im_find_by_id i = (\<lambda>s. (Inr (hm_get (m_users s) i), s))"

definition im_user_delete :: "uuid \<Rightarrow> (world, unit) port" where
  "im_user_delete i = (\<lambda>s. (Inr (), s\<lparr>m_users := hm_remove i (m_users s)\<rparr>))"

definition im_users :: "world user_repo" where
  "im_users =
     \<lparr>ur_insert = im_user_insert, ur_find_by_email = im_find_by_email,
      ur_find_by_id = im_find_by_id, ur_delete = im_user_delete\<rparr>"

section \<open>Notification channels\<close>

definition im_channel_insert :: "notification_channel \<Rightarrow> (world, unit) port" where
  "im_channel_insert c = (\<lambda>s. (Inr (), s\<lparr>m_channels := hm_insert (ch_id c) c (m_channels s)\<rparr>))"

definition im_channel_list :: "uuid \<Rightarrow> (world, notification_channel list) port" where
  "im_channel_list u =
     (\<lambda>s. (Inr (sort_key ch_created_at (filter (\<lambda>c. ch_user_id c = u) (hm_values (m_channels s)))), s))"

definition im_channel_delete :: "uuid \<Rightarrow> uuid \<Rightarrow> (world, bool) port" where
  "im_channel_delete u i =
     (\<lambda>s. case hm_get (m_channels s) i of
            Some c \<Rightarrow> if ch_user_id c = u
                      then (Inr True, s\<lparr>m_channels := hm_remove i (m_channels s)\<rparr>) else (Inr False, s)
          | None \<Rightarrow> (Inr False, s))"

definition im_channel_delete_all :: "uuid \<Rightarrow> (world, nat) port" where
  "im_channel_delete_all u =
     (\<lambda>s. let kept = hm_retain (\<lambda>_ c. ch_user_id c \<noteq> u) (m_channels s) in
          (Inr (length (m_channels s) - length kept), s\<lparr>m_channels := kept\<rparr>))"

definition im_channels :: "world channel_repo" where
  "im_channels =
     \<lparr>cr_insert = im_channel_insert, cr_list_for_user = im_channel_list,
      cr_delete = im_channel_delete, cr_delete_all_for_user = im_channel_delete_all\<rparr>"

section \<open>Refresh tokens\<close>

definition im_token_insert :: "refresh_token \<Rightarrow> (world, unit) port" where
  "im_token_insert t = (\<lambda>s. (Inr (), s\<lparr>m_tokens := hm_insert (rt_id t) t (m_tokens s)\<rparr>))"

definition im_find_by_hash :: "rstr \<Rightarrow> (world, refresh_token option) port" where
  "im_find_by_hash h = (\<lambda>s. (Inr (find (\<lambda>t. rt_token_hash t = h) (hm_values (m_tokens s))), s))"

definition im_mark_consumed :: "uuid \<Rightarrow> time \<Rightarrow> (world, unit) port" where
  "im_mark_consumed i at =
     (\<lambda>s. (Inr (), s\<lparr>m_tokens := hm_modify i (consume at) (m_tokens s)\<rparr>))"

definition im_token_delete :: "uuid \<Rightarrow> (world, unit) port" where
  "im_token_delete i = (\<lambda>s. (Inr (), s\<lparr>m_tokens := hm_remove i (m_tokens s)\<rparr>))"

definition im_delete_family :: "uuid \<Rightarrow> (world, unit) port" where
  "im_delete_family f =
     (\<lambda>s. (Inr (), s\<lparr>m_tokens := hm_retain (\<lambda>_ t. rt_family_id t \<noteq> f) (m_tokens s)\<rparr>))"

definition im_token_delete_all :: "uuid \<Rightarrow> (world, nat) port" where
  "im_token_delete_all u =
     (\<lambda>s. let kept = hm_retain (\<lambda>_ t. rt_user_id t \<noteq> u) (m_tokens s) in
          (Inr (length (m_tokens s) - length kept), s\<lparr>m_tokens := kept\<rparr>))"

definition im_delete_expired :: "time \<Rightarrow> (world, nat) port" where
  "im_delete_expired now =
     (\<lambda>s. let kept = hm_retain (\<lambda>_ t. \<not> is_expired now t) (m_tokens s) in
          (Inr (length (m_tokens s) - length kept), s\<lparr>m_tokens := kept\<rparr>))"

definition im_tokens :: "world token_repo" where
  "im_tokens =
     \<lparr>tr_insert = im_token_insert, tr_find_by_hash = im_find_by_hash,
      tr_mark_consumed = im_mark_consumed, tr_delete = im_token_delete,
      tr_delete_family = im_delete_family, tr_delete_all_for_user = im_token_delete_all,
      tr_delete_expired = im_delete_expired\<rparr>"

section \<open>Jobs\<close>

definition im_job_insert :: "research_job \<Rightarrow> (world, unit) port" where
  "im_job_insert j = (\<lambda>s. (Inr (), s\<lparr>m_jobs := hm_insert (job_id j) j (m_jobs s)\<rparr>))"

definition im_job_update :: "research_job \<Rightarrow> (world, unit) port" where
  "im_job_update j =
     (\<lambda>s. let updated = (case hm_get (m_jobs s) (job_id j) of
                           Some existing \<Rightarrow> j\<lparr>job_usage := job_usage existing\<rparr>
                         | None \<Rightarrow> j) in
          (Inr (), s\<lparr>m_jobs := hm_insert (job_id j) updated (m_jobs s)\<rparr>))"

definition im_job_find :: "uuid \<Rightarrow> (world, research_job option) port" where
  "im_job_find i = (\<lambda>s. (Inr (hm_get (m_jobs s) i), s))"

definition im_job_list :: "uuid \<Rightarrow> (world, research_job list) port" where
  "im_job_list u =
     (\<lambda>s. (Inr (sort_key (\<lambda>j. Reverse (job_created_at j))
                 (filter (\<lambda>j. job_user_id j = u) (hm_values (m_jobs s)))), s))"

definition im_count_created_since :: "uuid \<Rightarrow> time \<Rightarrow> (world, nat) port" where
  "im_count_created_since u since =
     (\<lambda>s. (Inr (length (filter (\<lambda>j. job_user_id j = u \<and> since \<le> job_created_at j)
                        (hm_values (m_jobs s)))), s))"

definition im_list_unfinished :: "time \<Rightarrow> (world, research_job list) port" where
  "im_list_unfinished cutoff =
     (\<lambda>s. (Inr (filter (\<lambda>j. (job_status j = Pending \<or> job_status j = Running) \<and>
                             job_created_at j < cutoff)
                 (hm_values (m_jobs s))), s))"

text \<open>Removing the entries of the doomed ids one by one.\<close>

definition remove_all :: "'k list \<Rightarrow> ('k, 'v) hashmap \<Rightarrow> ('k, 'v) hashmap" where
  "remove_all ks m = fold hm_remove ks m"

definition im_delete_finished :: "time \<Rightarrow> (world, nat) port" where
  "im_delete_finished cutoff =
     (\<lambda>s. let doomed = map job_id
                (filter (\<lambda>j. job_recurring_search_id j = None \<and> job_is_finished j \<and>
                             job_created_at j < cutoff) (hm_values (m_jobs s))) in
          (Inr (length doomed),
           s\<lparr>m_jobs := hm_retain (\<lambda>i _. i \<notin> set doomed) (m_jobs s),
             m_results := remove_all doomed (m_results s),
             m_steps := remove_all doomed (m_steps s)\<rparr>))"

definition im_job_delete_all :: "uuid \<Rightarrow> (world, nat) port" where
  "im_job_delete_all u =
     (\<lambda>s. let doomed = map job_id (filter (\<lambda>j. job_user_id j = u) (hm_values (m_jobs s))) in
          (Inr (length doomed),
           s\<lparr>m_jobs := hm_retain (\<lambda>_ j. job_user_id j \<noteq> u) (m_jobs s),
             m_results := remove_all doomed (m_results s),
             m_steps := remove_all doomed (m_steps s)\<rparr>))"

definition im_store_results :: "uuid \<Rightarrow> search_result list \<Rightarrow> (world, unit) port" where
  "im_store_results i rs = (\<lambda>s. (Inr (), s\<lparr>m_results := hm_insert i rs (m_results s)\<rparr>))"

definition im_results_for :: "uuid \<Rightarrow> (world, search_result list) port" where
  "im_results_for i = (\<lambda>s. (Inr (hm_list (m_results s) i), s))"

definition im_append_step :: "uuid \<Rightarrow> agent_step \<Rightarrow> (world, unit) port" where
  "im_append_step i st =
     (\<lambda>s. let journal = hm_list (m_steps s) i;
              journal' = (if \<not> list_ex (\<lambda>x. step_seq x = step_seq st) journal
                          then sort_key step_seq (journal @ [st]) else journal) in
          (Inr (), s\<lparr>m_steps := hm_insert i journal' (m_steps s)\<rparr>))"

definition im_steps_for :: "uuid \<Rightarrow> (world, agent_step list) port" where
  "im_steps_for i = (\<lambda>s. (Inr (hm_list (m_steps s) i), s))"

definition im_clear_steps :: "uuid \<Rightarrow> (world, unit) port" where
  "im_clear_steps i = (\<lambda>s. (Inr (), s\<lparr>m_steps := hm_remove i (m_steps s)\<rparr>))"

definition im_add_usage :: "(f64 \<Rightarrow> f64 \<Rightarrow> f64) \<Rightarrow> uuid \<Rightarrow> job_usage \<Rightarrow> (world, unit) port" where
  "im_add_usage fadd i u =
     (\<lambda>s. (Inr (), s\<lparr>m_jobs := hm_modify i
                 (\<lambda>j. j\<lparr>job_usage := job_usage_add fadd (job_usage j) u\<rparr>) (m_jobs s)\<rparr>))"

text \<open>
  The two nested loops over runs and results: \<open>Inl\<close> is the early return with the limit
  reached, \<open>Inr\<close> the list so far. The length is compared as a \<open>u32\<close>.
\<close>

fun collect_results :: "32 word \<Rightarrow> rstr list \<Rightarrow> search_result list \<Rightarrow> rstr list + rstr list" where
  "collect_results limit urls [] = Inr urls"
| "collect_results limit urls (r # rs) =
     (if sr_url r \<in> set urls then collect_results limit urls rs
      else let urls' = urls @ [sr_url r] in
        if limit \<le> of_nat (length urls') then Inl urls' else collect_results limit urls' rs)"

fun collect_runs ::
  "32 word \<Rightarrow> (uuid \<Rightarrow> search_result list) \<Rightarrow> rstr list \<Rightarrow> research_job list \<Rightarrow> rstr list" where
  "collect_runs limit results urls [] = urls"
| "collect_runs limit results urls (j # js) =
     (case collect_results limit urls (results (job_id j)) of
        Inl full \<Rightarrow> full
      | Inr urls' \<Rightarrow> collect_runs limit results urls' js)"

definition im_recent_urls :: "uuid \<Rightarrow> 32 word \<Rightarrow> (world, rstr list) port" where
  "im_recent_urls rs limit =
     (\<lambda>s. let runs = sort_key (\<lambda>j. Reverse (job_created_at j))
                (filter (\<lambda>j. job_recurring_search_id j = Some rs) (hm_values (m_jobs s))) in
          (Inr (collect_runs limit (hm_list (m_results s)) [] runs), s))"

definition im_jobs :: "(f64 \<Rightarrow> f64 \<Rightarrow> f64) \<Rightarrow> world job_repo" where
  "im_jobs fadd =
     \<lparr>jr_insert = im_job_insert, jr_update = im_job_update, jr_find = im_job_find,
      jr_list_for_user = im_job_list, jr_count_created_since = im_count_created_since,
      jr_list_unfinished_older_than = im_list_unfinished,
      jr_delete_finished_before = im_delete_finished, jr_delete_all_for_user = im_job_delete_all,
      jr_store_results = im_store_results, jr_results_for = im_results_for,
      jr_append_step = im_append_step, jr_steps_for = im_steps_for,
      jr_clear_steps = im_clear_steps, jr_add_usage = im_add_usage fadd,
      jr_recent_urls_for_recurring = im_recent_urls\<rparr>"

section \<open>Recurring searches\<close>

definition im_search_insert :: "recurring_search \<Rightarrow> (world, unit) port" where
  "im_search_insert x = (\<lambda>s. (Inr (), s\<lparr>m_searches := hm_insert (rs_id x) x (m_searches s)\<rparr>))"

definition im_search_find :: "uuid \<Rightarrow> (world, recurring_search option) port" where
  "im_search_find i = (\<lambda>s. (Inr (hm_get (m_searches s) i), s))"

definition im_search_list :: "uuid \<Rightarrow> (world, recurring_search list) port" where
  "im_search_list u =
     (\<lambda>s. (Inr (sort_key (\<lambda>x. Reverse (rs_created_at x))
                 (filter (\<lambda>x. rs_user_id x = u) (hm_values (m_searches s)))), s))"

definition im_search_delete :: "uuid \<Rightarrow> uuid \<Rightarrow> (world, bool) port" where
  "im_search_delete u i =
     (\<lambda>s. case hm_get (m_searches s) i of
            Some x \<Rightarrow> if rs_user_id x = u
                      then (Inr True, s\<lparr>m_searches := hm_remove i (m_searches s)\<rparr>) else (Inr False, s)
          | None \<Rightarrow> (Inr False, s))"

definition im_search_delete_all :: "uuid \<Rightarrow> (world, nat) port" where
  "im_search_delete_all u =
     (\<lambda>s. let kept = hm_retain (\<lambda>_ x. rs_user_id x \<noteq> u) (m_searches s) in
          (Inr (length (m_searches s) - length kept), s\<lparr>m_searches := kept\<rparr>))"

definition im_list_due :: "time \<Rightarrow> (world, recurring_search list) port" where
  "im_list_due now = (\<lambda>s. (Inr (filter (is_due now) (hm_values (m_searches s))), s))"

definition im_mark_ran :: "uuid \<Rightarrow> time \<Rightarrow> (world, unit) port" where
  "im_mark_ran i at = (\<lambda>s. (Inr (), s\<lparr>m_searches := hm_modify i (mark_ran at) (m_searches s)\<rparr>))"

definition im_searches :: "world recurring_repo" where
  "im_searches =
     \<lparr>rr_insert = im_search_insert, rr_find = im_search_find, rr_list_for_user = im_search_list,
      rr_delete = im_search_delete, rr_delete_all_for_user = im_search_delete_all,
      rr_list_due = im_list_due, rr_mark_ran = im_mark_ran\<rparr>"

section \<open>Security audit and readiness\<close>

definition im_record :: "security_event \<Rightarrow> (world, unit) port" where
  "im_record e = (\<lambda>s. (Inr (), s\<lparr>m_events := m_events s @ [e]\<rparr>))"

definition im_list_recent :: "int \<Rightarrow> (world, security_event list) port" where
  "im_list_recent limit = (\<lambda>s. (Inr (take (nat (max limit 0)) (rev (m_events s))), s))"

definition im_delete_before :: "time \<Rightarrow> (world, nat) port" where
  "im_delete_before cutoff =
     (\<lambda>s. let kept = filter (\<lambda>e. cutoff \<le> se_created_at e) (m_events s) in
          (Inr (length (m_events s) - length kept), s\<lparr>m_events := kept\<rparr>))"

definition im_audit :: "world audit_port" where
  "im_audit =
     \<lparr>au_record = im_record, au_list_recent = im_list_recent, au_delete_before = im_delete_before\<rparr>"

definition always_ready :: "world \<Rightarrow> bool" where
  "always_ready s = True"

section \<open>Documents\<close>

text \<open>
  \<open>f32\<close> arithmetic is IEEE 754 and a parameter; comparison with zero and \<open>total_cmp\<close> work on
  the bit pattern: a negative number has its magnitude bits flipped and is then compared as a
  signed integer.
\<close>

record f32_ops =
  f_mul :: "f32 \<Rightarrow> f32 \<Rightarrow> f32"
  f_div :: "f32 \<Rightarrow> f32 \<Rightarrow> f32"
  f_sqrt :: "f32 \<Rightarrow> f32"
  f_sum :: "f32 list \<Rightarrow> f32"

definition f32_is_zero :: "f32 \<Rightarrow> bool" where
  "f32_is_zero x \<longleftrightarrow> take_bit 31 x = 0"

definition total_key :: "f32 \<Rightarrow> int" where
  "total_key x = sint (if bit x 31 then Bit_Operations.xor x 0x7FFFFFFF else x)"

definition cosine :: "f32_ops \<Rightarrow> f32 list \<Rightarrow> f32 list \<Rightarrow> f32" where
  "cosine F a b =
     (let dot = f_sum F (map (\<lambda>(x, y). f_mul F x y) (zip a b));
          na = f_sqrt F (f_sum F (map (\<lambda>x. f_mul F x x) a));
          nb = f_sqrt F (f_sum F (map (\<lambda>x. f_mul F x x) b)) in
      if f32_is_zero na \<or> f32_is_zero nb then 0 else f_div F dot (f_mul F na nb))"

definition im_document_insert :: "document \<Rightarrow> (world, unit) port" where
  "im_document_insert d = (\<lambda>s. (Inr (), s\<lparr>m_documents := hm_insert (doc_id d) d (m_documents s)\<rparr>))"

definition im_document_list :: "uuid \<Rightarrow> (world, document list) port" where
  "im_document_list u =
     (\<lambda>s. (Inr (sort_key (\<lambda>d. Reverse (doc_created_at d))
                 (filter (\<lambda>d. doc_user_id d = u) (hm_values (m_documents s)))), s))"

definition im_document_find :: "uuid \<Rightarrow> (world, document option) port" where
  "im_document_find i = (\<lambda>s. (Inr (hm_get (m_documents s) i), s))"

definition im_document_delete :: "uuid \<Rightarrow> uuid \<Rightarrow> (world, bool) port" where
  "im_document_delete u i =
     (\<lambda>s. case hm_get (m_documents s) i of
            Some d \<Rightarrow>
              if doc_user_id d = u
              then (Inr True, s\<lparr>m_documents := hm_remove i (m_documents s),
                                m_chunks := filter (\<lambda>c. sc_document_id c \<noteq> i) (m_chunks s)\<rparr>)
              else (Inr False, s)
          | None \<Rightarrow> (Inr False, s))"

definition im_store_chunks :: "document \<Rightarrow> new_chunk list \<Rightarrow> (world, unit) port" where
  "im_store_chunks d chunks =
     (\<lambda>s. (Inr (), s\<lparr>m_chunks := m_chunks s @ map (stored_chunk_of d) chunks,
                     m_documents := hm_modify (doc_id d) document_ready (m_documents s)\<rparr>))"

definition im_document_mark_failed :: "uuid \<Rightarrow> rstr \<Rightarrow> (world, unit) port" where
  "im_document_mark_failed i err =
     (\<lambda>s. (Inr (), s\<lparr>m_documents := hm_modify i (document_failed err) (m_documents s)\<rparr>))"

definition im_retrieve :: "f32_ops \<Rightarrow> uuid \<Rightarrow> f32 list \<Rightarrow> int \<Rightarrow> (world, retrieved_chunk list) port" where
  "im_retrieve F u embedding k =
     (\<lambda>s. let scored = map (\<lambda>c. (cosine F embedding (sc_embedding c), c))
                (filter (\<lambda>c. sc_user_id c = u) (m_chunks s));
              sorted = sort_key (\<lambda>p. Reverse (total_key (fst p))) scored in
          (Inr (map (\<lambda>p. retrieved_of (snd p)) (take (nat (max k 0)) sorted)), s))"

definition im_document_delete_all :: "uuid \<Rightarrow> (world, nat) port" where
  "im_document_delete_all u =
     (\<lambda>s. let kept = hm_retain (\<lambda>_ d. doc_user_id d \<noteq> u) (m_documents s) in
          (Inr (length (m_documents s) - length kept),
           s\<lparr>m_documents := kept, m_chunks := filter (\<lambda>c. sc_user_id c \<noteq> u) (m_chunks s)\<rparr>))"

definition im_documents :: "f32_ops \<Rightarrow> world document_repo" where
  "im_documents F =
     \<lparr>dr_insert = im_document_insert, dr_list_for_user = im_document_list,
      dr_find = im_document_find, dr_delete = im_document_delete,
      dr_store_chunks = im_store_chunks, dr_mark_failed = im_document_mark_failed,
      dr_retrieve = im_retrieve F, dr_delete_all_for_user = im_document_delete_all\<rparr>"

section \<open>Proof support\<close>

lemma port_spec_ok:
  "(\<And>s. invar s \<Longrightarrow> invar (f s) \<and> R (\<alpha> s) (g s) (\<alpha> (f s))) \<Longrightarrow>
   port_spec invar \<alpha> (\<lambda>s. (Inr (g s), f s)) R"
  by (simp add: port_spec_def)

lemma keyed_hm: "hm_wf key m \<Longrightarrow> keyed key (hm_get m)"
  unfolding keyed_def hm_get_def [abs_def]
  using hm_get_key [of key m, unfolded hm_get_def] finite_dom_map_of [of m] by blast

lemma listing_hm:
  assumes "hm_wf key m"
  shows "listing P f (hm_get m) (sort_key f (filter P (hm_values m)))"
proof -
  have "sorted_wrt (\<lambda>x y. f x \<le> f y) (sort_key f (filter P (hm_values m)))"
    using sorted_sort_key [of f "filter P (hm_values m)"] by (simp only: sorted_map)
  moreover have "{v \<in> ran (hm_get m). P v} = set (filter P (hm_values m))"
    using set_hm_values [OF assms] by auto
  ultimately show ?thesis
    using distinct_hm_values [OF assms] by (simp add: listing_def)
qed

lemma find_hm:
  assumes "hm_wf key m"
  shows "case find P (hm_values m) of None \<Rightarrow> \<forall>v \<in> ran (hm_get m). \<not> P v
         | Some v \<Rightarrow> hm_get m (key v) = Some v \<and> P v"
proof (cases "find P (hm_values m)")
  case None
  then have "\<forall>v \<in> ran (hm_get m). \<not> P v"
    unfolding set_hm_values [OF assms, symmetric] by (simp add: find_None_iff)
  with None show ?thesis by simp
next
  case (Some v)
  then have "v \<in> set (hm_values m)" "P v" by (auto simp: find_Some_iff)
  then show ?thesis using Some hm_values_iff [OF assms] by simp
qed

lemma hm_modify_map [hm_simps]: "hm_get (hm_modify k f m) = map_modify k f (hm_get m)"
  by (simp add: hm_get_modify map_modify_def)

lemma hm_list_insert [hm_simps]: "hm_list (hm_insert k xs m) = (hm_list m)(k := xs)"
  by (rule ext) (simp add: hm_list_def hm_get_insert)

lemma hm_list_remove [hm_simps]: "hm_list (hm_remove k m) = (hm_list m)(k := [])"
  by (rule ext) (simp add: hm_list_def hm_get_remove)

text \<open>A total operation that satisfies a relation satisfies its port specification.\<close>

lemmas im_total = port_spec_ok [where invar = world_wf and \<alpha> = im_abs]

section \<open>The repositories implement their ports\<close>

lemmas im_user_defs = im_user_insert_def im_find_by_email_def im_find_by_id_def im_user_delete_def

interpretation im_user: user_port "\<lambda>t. t" im_users world_wf im_abs
proof (unfold_locales, unfold im_users_def user_repo.simps im_user_defs, goal_cases)
  case (1 s)
  then show ?case by (simp add: world_wf_def keyed_hm)
next
  case (2 u)
  show ?case by (rule im_total) (simp add: world_wf_def im_abs_def hm_simps)
next
  case (3 em)
  show ?case
  proof (rule im_total)
    fix s
    assume "world_wf s"
    then have "hm_wf user_id (m_users s)" by (simp add: world_wf_def)
    from find_hm [OF this, of "\<lambda>u. user_email u = em"] \<open>world_wf s\<close>
    show "world_wf s \<and> im_abs s = im_abs s \<and>
        (case find (\<lambda>u. user_email u = em) (hm_values (m_users s)) of
           None \<Rightarrow> \<forall>u \<in> ran (aw_users (im_abs s)). user_email u \<noteq> em
         | Some u \<Rightarrow> aw_users (im_abs s) (user_id u) = Some u \<and> user_email u = em)"
      by (cases "find (\<lambda>u. user_email u = em) (hm_values (m_users s))") simp_all
  qed
next
  case (4 i)
  show ?case by (rule im_total) simp
next
  case (5 i)
  show ?case by (rule im_total) (simp add: world_wf_def im_abs_def hm_simps)
qed

lemmas im_channel_defs = im_channel_insert_def im_channel_list_def im_channel_delete_def
  im_channel_delete_all_def

text \<open>\<open>retain\<close> and the count of what it removed.\<close>

lemma hm_retain_count:
  assumes "hm_wf key m"
  shows "length m - length (hm_retain (\<lambda>_ v. \<not> P v) m) = card {v \<in> ran (hm_get m). P v}"
  using hm_retain_length [OF assms, of "\<lambda>v. \<not> P v"] by simp

lemma delete_owned:
  assumes "hm_wf key m"
  shows "hm_get (case hm_get m i of Some v \<Rightarrow> if own v then hm_remove i m else m | None \<Rightarrow> m) =
           (if \<exists>v. hm_get m i = Some v \<and> own v then (hm_get m)(i := None) else hm_get m)"
  by (auto simp: hm_simps split: option.splits)

interpretation im_channel: channel_port "\<lambda>t. t" im_channels world_wf im_abs
proof (unfold_locales, unfold im_channels_def channel_repo.simps im_channel_defs Let_def, goal_cases)
  case (1 s)
  then show ?case by (simp add: world_wf_def keyed_hm)
next
  case (2 c)
  show ?case by (rule im_total) (simp add: world_wf_def im_abs_def hm_simps)
next
  case (3 u)
  show ?case by (rule im_total) (auto simp: world_wf_def intro: listing_hm)
next
  case (4 u i)
  show ?case
    by (rule port_specI) (auto simp: world_wf_def im_abs_def hm_simps split: option.splits if_splits)
next
  case (5 u)
  show ?case
    by (rule im_total) (auto simp: world_wf_def im_abs_def hm_simps hm_retain_count)
qed

lemmas im_token_defs = im_token_insert_def im_find_by_hash_def im_mark_consumed_def
  im_token_delete_def im_delete_family_def im_token_delete_all_def im_delete_expired_def

interpretation im_token: token_port "\<lambda>t. t" im_tokens world_wf im_abs
proof (unfold_locales, unfold im_tokens_def token_repo.simps im_token_defs Let_def, goal_cases)
  case (1 s)
  then show ?case by (simp add: world_wf_def keyed_hm)
next
  case (2 t)
  show ?case by (rule im_total) (simp add: world_wf_def im_abs_def hm_simps)
next
  case (3 h)
  show ?case
  proof (rule im_total)
    fix s
    assume "world_wf s"
    then have "hm_wf rt_id (m_tokens s)" by (simp add: world_wf_def)
    from find_hm [OF this, of "\<lambda>t. rt_token_hash t = h"] \<open>world_wf s\<close>
    show "world_wf s \<and> im_abs s = im_abs s \<and>
        (case find (\<lambda>t. rt_token_hash t = h) (hm_values (m_tokens s)) of
           None \<Rightarrow> \<forall>t \<in> ran (aw_tokens (im_abs s)). rt_token_hash t \<noteq> h
         | Some t \<Rightarrow> aw_tokens (im_abs s) (rt_id t) = Some t \<and> rt_token_hash t = h)"
      by (cases "find (\<lambda>t. rt_token_hash t = h) (hm_values (m_tokens s))") simp_all
  qed
next
  case (4 i at)
  show ?case by (rule im_total) (simp add: world_wf_def im_abs_def hm_simps map_modify_def consume_def)
next
  case (5 i)
  show ?case by (rule im_total) (simp add: world_wf_def im_abs_def hm_simps)
next
  case (6 f)
  show ?case by (rule im_total) (auto simp: world_wf_def im_abs_def hm_simps)
next
  case (7 u)
  show ?case by (rule im_total) (auto simp: world_wf_def im_abs_def hm_simps hm_retain_count)
next
  case (8 now)
  show ?case by (rule im_total) (auto simp: world_wf_def im_abs_def hm_simps hm_retain_count)
qed

lemmas im_job_defs = im_job_insert_def im_job_update_def im_job_find_def im_job_list_def
  im_count_created_since_def im_list_unfinished_def im_delete_finished_def im_job_delete_all_def
  im_store_results_def im_results_for_def im_append_step_def im_steps_for_def im_clear_steps_def
  im_add_usage_def im_recent_urls_def

lemma remove_all_list [hm_simps]:
  "hm_list (remove_all ks m) k = (if k \<in> set ks then [] else hm_list m k)"
  by (induction ks arbitrary: m) (auto simp: remove_all_def hm_list_remove)

lemma doomed_ids:
  assumes wf: "hm_wf key m"
  shows "i \<in> set (map key (filter P (hm_values m))) \<longleftrightarrow> (\<exists>v. hm_get m i = Some v \<and> P v)"
proof -
  have "i \<in> set (map key (filter P (hm_values m))) \<longleftrightarrow> (\<exists>v \<in> set (hm_values m). P v \<and> i = key v)"
    by auto
  also have "\<dots> \<longleftrightarrow> (\<exists>v. hm_get m i = Some v \<and> P v)"
    unfolding Bex_def hm_values_iff [OF wf] using hm_get_key [OF wf] by metis
  finally show ?thesis .
qed

lemma distinct_keys:
  assumes wf: "hm_wf key m"
  shows "distinct (map key (filter P (hm_values m)))"
proof -
  have "inj_on key (set (hm_values m))"
    by (rule inj_onI) (metis hm_values_iff [OF wf] option.inject)
  then show ?thesis
    using distinct_hm_values [OF wf] by (simp add: distinct_map inj_on_subset)
qed

lemma doomed_length:
  assumes wf: "hm_wf key m"
  shows "length (map key (filter P (hm_values m))) = card {v \<in> ran (hm_get m). P v}"
  using hm_count [OF wf, of P] by simp

lemma retain_doomed:
  assumes wf: "hm_wf key m"
  shows "hm_get (hm_retain (\<lambda>i _. i \<notin> set (map key (filter P (hm_values m)))) m) =
           map_keep (\<lambda>_ v. \<not> P v) (hm_get m)"
proof
  fix i
  show "hm_get (hm_retain (\<lambda>i _. i \<notin> set (map key (filter P (hm_values m)))) m) i =
      map_keep (\<lambda>_ v. \<not> P v) (hm_get m) i"
    unfolding hm_get_retain [OF wf] map_keep_def doomed_ids [OF wf]
    by (auto split: option.splits)
qed

text \<open>Dropping the doomed jobs with their results and journals.\<close>

lemma hm_list_remove_doomed:
  "hm_wf key jobs \<Longrightarrow>
   hm_list (remove_all (map key (filter P (hm_values jobs))) m) =
     (\<lambda>i. if \<exists>j. hm_get jobs i = Some j \<and> P j then [] else hm_list m i)"
  by (rule ext) (simp only: remove_all_list doomed_ids)

lemma world_wf_drop_jobs:
  "world_wf s \<Longrightarrow> world_wf (s\<lparr>m_jobs := hm_retain P (m_jobs s), m_results := rs, m_steps := ss\<rparr>)"
  by (simp add: world_wf_def hm_wf_retain)

lemma im_drop_jobs:
  assumes wf: "hm_wf job_id (m_jobs s)" and kept: "hm_get kept = map_keep (\<lambda>_ j. \<not> P j) (hm_get (m_jobs s))"
  shows "im_abs (s\<lparr>m_jobs := kept,
             m_results := remove_all (map job_id (filter P (hm_values (m_jobs s)))) (m_results s),
             m_steps := remove_all (map job_id (filter P (hm_values (m_jobs s)))) (m_steps s)\<rparr>) =
         drop_jobs P (im_abs s)"
  using kept
  by (intro aworld.equality)
    (simp_all add: im_abs_def drop_jobs_def hm_list_remove_doomed [OF wf] cong: if_cong)

text \<open>The memory of a recurring search: what the two loops collect.\<close>

lemma unat_le_of_nat: "w \<le> of_nat n \<Longrightarrow> unat (w :: 'a::len word) \<le> n"
  using mod_less_eq_dividend [of n "2 ^ LENGTH('a)"]
  by (simp only: word_le_nat_alt unat_of_nat)

lemma collect_results_spec:
  assumes "distinct urls" and "0 < limit \<longrightarrow> length urls < unat limit"
  shows "case collect_results limit urls rs of
      Inl full \<Rightarrow> distinct full \<and> set full \<subseteq> set urls \<union> sr_url ` set rs \<and>
        unat limit \<le> length full \<and> (0 < limit \<longrightarrow> length full = unat limit)
    | Inr urls' \<Rightarrow> distinct urls' \<and> set urls' = set urls \<union> sr_url ` set rs \<and>
        (0 < limit \<longrightarrow> length urls' < unat limit)"
  using assms
proof (induction rs arbitrary: urls)
  case Nil
  then show ?case by simp
next
  case (Cons r rs)
  show ?case
  proof (cases "sr_url r \<in> set urls")
    case True
    then show ?thesis using Cons.IH [OF Cons.prems] by (auto split: sum.splits)
  next
    case False
    let ?urls = "urls @ [sr_url r]"
    have dist: "distinct ?urls" using Cons.prems False by simp
    show ?thesis
    proof (cases "limit \<le> of_nat (length ?urls)")
      case True
      have "unat limit \<le> length ?urls"
        using True by (rule unat_le_of_nat)
      moreover have "0 < limit \<longrightarrow> length ?urls = unat limit"
        using Cons.prems(2) calculation by auto
      ultimately show ?thesis using True False dist by (auto simp: Let_def)
    next
      case lt: False
      then have pos: "0 < limit" by (metis word_gt_0 word_zero_le)
      then have "length ?urls \<le> unat limit" using Cons.prems(2) by simp
      moreover have "unat limit < 2 ^ LENGTH(32)" by (rule unsigned_less)
      then have "length ?urls < 2 ^ LENGTH(32)" using calculation by (rule le_less_trans [rotated])
      then have "unat (of_nat (length ?urls) :: 32 word) = length ?urls"
        unfolding unat_of_nat by (rule mod_less)
      then have "length ?urls < unat limit"
        using lt unfolding word_le_nat_alt by (simp only: not_le)
      then show ?thesis using Cons.IH [OF dist] lt False pos by (auto simp: Let_def split: sum.splits)
    qed
  qed
qed

lemma collect_runs_spec:
  fixes results :: "uuid \<Rightarrow> search_result list"
  assumes "distinct urls" and "0 < limit \<longrightarrow> length urls < unat limit"
  defines "delivered js \<equiv> {sr_url r | r j. j \<in> set js \<and> r \<in> set (results (job_id j))}"
  shows "distinct (collect_runs limit results urls js) \<and>
    set (collect_runs limit results urls js) \<subseteq> set urls \<union> delivered js \<and>
    (0 < limit \<longrightarrow> length (collect_runs limit results urls js) \<le> unat limit) \<and>
    (length (collect_runs limit results urls js) < unat limit \<longrightarrow>
       set (collect_runs limit results urls js) = set urls \<union> delivered js)"
  using assms(1,2)
proof (induction js arbitrary: urls)
  case Nil
  then show ?case by (auto simp: delivered_def)
next
  case (Cons j js)
  have split: "delivered (j # js) = sr_url ` set (results (job_id j)) \<union> delivered js"
    by (auto simp: delivered_def)
  note res = collect_results_spec [OF Cons.prems, of "results (job_id j)"]
  show ?case
  proof (cases "collect_results limit urls (results (job_id j))")
    case (Inl full)
    then show ?thesis using res by (auto simp: split)
  next
    case (Inr urls')
    with res have "distinct urls'" "0 < limit \<longrightarrow> length urls' < unat limit"
      and set: "set urls' = set urls \<union> sr_url ` set (results (job_id j))" by auto
    from Cons.IH [OF this(1,2)] Inr show ?thesis
      unfolding split by (simp add: set Un_assoc)
  qed
qed

interpretation im_job: job_port "\<lambda>t. t" "im_jobs fadd" world_wf im_abs fadd "\<lambda>r. r"
  for fadd :: "f64 \<Rightarrow> f64 \<Rightarrow> f64"
proof (unfold_locales, unfold im_jobs_def job_repo.simps im_job_defs Let_def, goal_cases)
  case (1 s)
  then show ?case by (simp add: world_wf_def keyed_hm)
next
  case (2 j)
  show ?case by (rule im_total) (simp add: world_wf_def im_abs_def hm_simps add_job_def)
next
  case (3 j)
  show ?case
    by (rule im_total)
      (auto simp: world_wf_def im_abs_def hm_get_insert hm_wf_insert put_job_def keep_usage_def
        split: option.splits)
next
  case (4 i)
  show ?case by (rule im_total) simp
next
  case (5 u)
  show ?case by (rule im_total) (auto simp: world_wf_def intro: listing_hm)
next
  case (6 u since)
  show ?case by (rule im_total) (auto simp: world_wf_def jobs_since_def hm_count)
next
  case (7 cutoff)
  show ?case
    by (rule im_total) (auto simp: world_wf_def stale_def hm_values_iff intro: distinct_keys)
next
  case (8 cutoff)
  have fold: "(\<lambda>j. job_recurring_search_id j = None \<and> job_is_finished j \<and> job_created_at j < cutoff) =
      purgeable cutoff"
    by (rule ext) (simp add: purgeable_def)
  show ?case
    unfolding fold
  proof (rule im_total)
    fix s
    assume wf: "world_wf s"
    then have wfj: "hm_wf job_id (m_jobs s)" by (simp add: world_wf_def)
    let ?doomed = "map job_id (filter (purgeable cutoff) (hm_values (m_jobs s)))"
    let ?s = "s\<lparr>m_jobs := hm_retain (\<lambda>i _. i \<notin> set ?doomed) (m_jobs s),
        m_results := remove_all ?doomed (m_results s), m_steps := remove_all ?doomed (m_steps s)\<rparr>"
    have "world_wf ?s" by (rule world_wf_drop_jobs [OF wf])
    then show "world_wf ?s \<and>
        length ?doomed = card {j \<in> ran (aw_jobs (im_abs s)). purgeable cutoff j} \<and>
        im_abs ?s = drop_jobs (purgeable cutoff) (im_abs s)"
      unfolding im_drop_jobs [OF wfj retain_doomed [OF wfj]] im_abs_simps
      by (intro conjI doomed_length [OF wfj] refl)
  qed
next
  case (9 u)
  show ?case
  proof (rule im_total)
    fix s
    assume wf: "world_wf s"
    then have wfj: "hm_wf job_id (m_jobs s)" by (simp add: world_wf_def)
    let ?doomed = "map job_id (filter (\<lambda>j. job_user_id j = u) (hm_values (m_jobs s)))"
    let ?s = "s\<lparr>m_jobs := hm_retain (\<lambda>_ j. job_user_id j \<noteq> u) (m_jobs s),
        m_results := remove_all ?doomed (m_results s), m_steps := remove_all ?doomed (m_steps s)\<rparr>"
    have "world_wf ?s" by (rule world_wf_drop_jobs [OF wf])
    then show "world_wf ?s \<and>
        length ?doomed = card {j \<in> ran (aw_jobs (im_abs s)). job_user_id j = u} \<and>
        im_abs ?s = drop_jobs (\<lambda>j. job_user_id j = u) (im_abs s)"
      unfolding im_drop_jobs [OF wfj hm_get_retain [OF wfj]] im_abs_simps
      by (intro conjI doomed_length [OF wfj] refl)
  qed
next
  case (10 i rs)
  show ?case by (rule im_total) (simp add: world_wf_def im_abs_def hm_simps set_results_def)
next
  case (11 i)
  show ?case by (rule im_total) simp
next
  case (12 i st)
  show ?case
    by (rule im_total)
      (auto simp: world_wf_def im_abs_def hm_simps journal_insert_def list_ex_iff image_iff)
next
  case (13 i)
  show ?case by (rule im_total) simp
next
  case (14 i)
  show ?case by (rule im_total) (simp add: world_wf_def im_abs_def hm_simps forget_steps_def)
next
  case (15 i u)
  show ?case by (rule im_total) (simp add: world_wf_def im_abs_def hm_wf_modify hm_modify_map)
next
  case (16 rs limit)
  show ?case
  proof (rule im_total)
    fix s
    assume wf: "world_wf s"
    then have wfj: "hm_wf job_id (m_jobs s)" by (simp add: world_wf_def)
    let ?runs = "sort_key (\<lambda>j. Reverse (job_created_at j))
        (filter (\<lambda>j. job_recurring_search_id j = Some rs) (hm_values (m_jobs s)))"
    have "{sr_url r | r j. j \<in> set ?runs \<and> r \<in> set (hm_list (m_results s) (job_id j))} =
        delivered_urls (im_abs s) rs"
      using hm_get_key [OF wfj] by (auto simp: delivered_urls_def hm_values_iff [OF wfj])
    with collect_runs_spec [where urls = "[]" and limit = limit and js = ?runs and
        results = "hm_list (m_results s)"] wf
    show "world_wf s \<and> im_abs s = im_abs s \<and>
        distinct (collect_runs limit (hm_list (m_results s)) [] ?runs) \<and>
        set (collect_runs limit (hm_list (m_results s)) [] ?runs) \<subseteq> delivered_urls (im_abs s) rs \<and>
        (0 < limit \<longrightarrow> length (collect_runs limit (hm_list (m_results s)) [] ?runs) \<le> unat limit) \<and>
        (length (collect_runs limit (hm_list (m_results s)) [] ?runs) < unat limit \<longrightarrow>
           set (collect_runs limit (hm_list (m_results s)) [] ?runs) = delivered_urls (im_abs s) rs)"
      by (simp add: word_less_nat_alt)
  qed
qed

lemmas im_search_defs = im_search_insert_def im_search_find_def im_search_list_def
  im_search_delete_def im_search_delete_all_def im_list_due_def im_mark_ran_def

interpretation im_search: recurring_port "\<lambda>t. t" im_searches world_wf im_abs
proof (unfold_locales, unfold im_searches_def recurring_repo.simps im_search_defs Let_def, goal_cases)
  case (1 s)
  then show ?case by (simp add: world_wf_def keyed_hm)
next
  case (2 x)
  show ?case by (rule im_total) (simp add: world_wf_def im_abs_def hm_simps)
next
  case (3 i)
  show ?case by (rule im_total) simp
next
  case (4 u)
  show ?case by (rule im_total) (auto simp: world_wf_def intro: listing_hm)
next
  case (5 u i)
  show ?case
    by (rule port_specI)
      (auto simp: world_wf_def im_abs_def hm_simps split: option.splits if_splits
        intro!: exI [of _ "hm_get (m_jobs s)" for s])
next
  case (6 u)
  show ?case
    by (rule im_total)
      (auto simp: world_wf_def im_abs_def hm_simps hm_retain_count
        intro!: exI [of _ "hm_get (m_jobs s)" for s])
next
  case (7 now)
  show ?case by (rule im_total) (auto simp: world_wf_def hm_values_iff intro: distinct_keys)
next
  case (8 i at)
  show ?case by (rule im_total) (simp add: world_wf_def im_abs_def hm_wf_modify hm_modify_map mark_ran_def)
qed

lemmas im_audit_defs = im_record_def im_list_recent_def im_delete_before_def

interpretation im_log: audit_log "\<lambda>t. t" im_audit world_wf im_abs
proof (unfold_locales, unfold im_audit_def audit_port.simps im_audit_defs Let_def, goal_cases)
  case (1 e)
  show ?case by (rule im_total) (simp add: world_wf_def im_abs_def)
next
  case (2 limit)
  show ?case
  proof (rule im_total)
    fix s
    assume "world_wf s"
    have "mset (take n (rev (m_events s))) \<subseteq># mset (m_events s)" for n
      by (metis append_take_drop_id mset_append mset_rev mset_subset_eq_add_left)
    with \<open>world_wf s\<close> show "world_wf s \<and> im_abs s = im_abs s \<and>
        mset (take (nat (max limit 0)) (rev (m_events s))) \<subseteq># mset (aw_events (im_abs s)) \<and>
        length (take (nat (max limit 0)) (rev (m_events s))) =
          min (nat limit) (length (aw_events (im_abs s)))"
      by (simp add: max_def min.commute)
  qed
next
  case (3 cutoff)
  have "length xs - length (filter (\<lambda>e. cutoff \<le> se_created_at e) xs) =
      length (filter (\<lambda>e. se_created_at e < cutoff) xs)" for xs
    using sum_length_filter_compl [of "\<lambda>e. cutoff \<le> se_created_at e" xs] by (simp add: not_le)
  then show ?case by (intro im_total) (simp add: world_wf_def im_abs_def)
qed

lemmas im_document_defs = im_document_insert_def im_document_list_def im_document_find_def
  im_document_delete_def im_store_chunks_def im_document_mark_failed_def im_retrieve_def
  im_document_delete_all_def

lemma take_map_submset: "mset (map f (take n (sort_key g xs))) \<subseteq># mset (map f xs)"
  by (metis append_take_drop_id image_mset_subseteq_mono mset_append mset_map mset_sort
      mset_subset_eq_add_left)

interpretation im_document: document_port "\<lambda>t. t" "im_documents F" world_wf im_abs
  for F :: f32_ops
proof (unfold_locales, unfold im_documents_def document_repo.simps im_document_defs Let_def, goal_cases)
  case (1 s)
  then show ?case by (simp add: world_wf_def keyed_hm)
next
  case (2 d)
  show ?case by (rule im_total) (simp add: world_wf_def im_abs_def hm_simps)
next
  case (3 u)
  show ?case by (rule im_total) (auto simp: world_wf_def intro: listing_hm)
next
  case (4 i)
  show ?case by (rule im_total) simp
next
  case (5 u i)
  show ?case
    by (rule port_specI) (auto simp: world_wf_def im_abs_def hm_simps split: option.splits if_splits)
next
  case (6 d ns)
  show ?case
  proof (rule im_total)
    fix s
    assume wf: "world_wf s"
    let ?s = "s\<lparr>m_chunks := m_chunks s @ map (stored_chunk_of d) ns,
                m_documents := hm_modify (doc_id d) document_ready (m_documents s)\<rparr>"
    have "{#c \<in># M. sc_document_id c \<noteq> doc_id d#} + {#c \<in># M. sc_document_id c = doc_id d#} = M" for M
      using multiset_partition [of M "\<lambda>c. sc_document_id c \<noteq> doc_id d"] by simp
    with wf show "world_wf ?s \<and> (aw_documents (im_abs s) (doc_id d) = Some d \<longrightarrow>
        (\<exists>kept. kept \<subseteq># {#c \<in># aw_chunks (im_abs s). sc_document_id c = doc_id d#} \<and>
           im_abs ?s = (im_abs s)\<lparr>aw_documents := (aw_documents (im_abs s))(doc_id d \<mapsto> document_ready d),
              aw_chunks := {#c \<in># aw_chunks (im_abs s). sc_document_id c \<noteq> doc_id d#} + kept +
                           mset (map (stored_chunk_of d) ns)\<rparr>))"
      by (auto simp: world_wf_def im_abs_def hm_wf_modify hm_modify_map document_ready_def
          intro!: exI [of _ "{#c \<in># mset (m_chunks s). sc_document_id c = doc_id d#}"])
  qed
next
  case (7 i err)
  show ?case
    by (rule im_total)
      (simp add: world_wf_def im_abs_def hm_wf_modify hm_modify_map document_failed_def)
next
  case (8 u emb k)
  show ?case
  proof (rule im_total)
    fix s
    assume wf: "world_wf s"
    let ?mine = "filter (\<lambda>c. sc_user_id c = u) (m_chunks s)"
    let ?top = "take (nat (max k 0)) (sort_key (\<lambda>p. Reverse (total_key (fst p)))
        (map (\<lambda>c. (cosine F emb (sc_embedding c), c)) ?mine))"
    have "mset (map snd ?top) \<subseteq># mset ?mine"
      using take_map_submset [of snd "nat (max k 0)" "\<lambda>p. Reverse (total_key (fst p))"
          "map (\<lambda>c. (cosine F emb (sc_embedding c), c)) ?mine"]
      by (simp add: comp_def)
    moreover have "length ?top \<le> nat k" by (simp add: max_def)
    ultimately show "world_wf s \<and> im_abs s = im_abs s \<and>
        (\<exists>cs. mset cs \<subseteq># {#c \<in># aw_chunks (im_abs s). sc_user_id c = u#} \<and>
           length cs \<le> nat k \<and>
           map (\<lambda>p. retrieved_of (snd p)) ?top = map retrieved_of cs)"
      using wf by (intro conjI exI [of _ "map snd ?top"]) simp_all
  qed
next
  case (9 u)
  show ?case
    by (rule im_total) (auto simp: world_wf_def im_abs_def hm_simps hm_retain_count)
qed

end
