(* ===== verification/Address.thy ===== *)
theory Address
  imports Ports
begin

text \<open>
  The address filter of \<open>adapters/digest.rs\<close>, \<open>is_blocked_ip\<close>, with the predicates of
  \<open>std::net\<close> it is made of, and its characterisation as a list of address ranges.
\<close>

section \<open>The filter\<close>

text \<open>The octets of an IPv4 address and the segments of an IPv6 address, most significant first.\<close>

definition v4_octet :: "nat \<Rightarrow> 32 word \<Rightarrow> nat" where
  "v4_octet k a = unat (take_bit 8 (drop_bit (24 - 8 * k) a))"

definition v6_segment :: "nat \<Rightarrow> 128 word \<Rightarrow> nat" where
  "v6_segment k a = unat (take_bit 16 (drop_bit (112 - 16 * k) a))"

text \<open>The predicates of \<open>std::net::Ipv4Addr\<close> that the filter uses.\<close>

definition v4_is_private :: "32 word \<Rightarrow> bool" where
  "v4_is_private a \<longleftrightarrow>
     v4_octet 0 a = 10 \<or>
     (v4_octet 0 a = 172 \<and> 16 \<le> v4_octet 1 a \<and> v4_octet 1 a \<le> 31) \<or>
     (v4_octet 0 a = 192 \<and> v4_octet 1 a = 168)"

definition v4_is_loopback :: "32 word \<Rightarrow> bool" where
  "v4_is_loopback a \<longleftrightarrow> v4_octet 0 a = 127"

definition v4_is_link_local :: "32 word \<Rightarrow> bool" where
  "v4_is_link_local a \<longleftrightarrow> v4_octet 0 a = 169 \<and> v4_octet 1 a = 254"

definition v4_is_documentation :: "32 word \<Rightarrow> bool" where
  "v4_is_documentation a \<longleftrightarrow>
     (v4_octet 0 a = 192 \<and> v4_octet 1 a = 0 \<and> v4_octet 2 a = 2) \<or>
     (v4_octet 0 a = 198 \<and> v4_octet 1 a = 51 \<and> v4_octet 2 a = 100) \<or>
     (v4_octet 0 a = 203 \<and> v4_octet 1 a = 0 \<and> v4_octet 2 a = 113)"

definition v4_is_multicast :: "32 word \<Rightarrow> bool" where
  "v4_is_multicast a \<longleftrightarrow> 224 \<le> v4_octet 0 a \<and> v4_octet 0 a \<le> 239"

definition is_blocked_v4 :: "32 word \<Rightarrow> bool" where
  "is_blocked_v4 a \<longleftrightarrow>
     v4_is_private a \<or> v4_is_loopback a \<or> v4_is_link_local a \<or> a = 0xFFFFFFFF \<or>
     v4_is_documentation a \<or> a = 0 \<or> v4_is_multicast a \<or>
     (v4_octet 0 a = 100 \<and> 0x40 \<le> v4_octet 1 a \<and> v4_octet 1 a \<le> 0x7F)"

definition to_ipv4_mapped :: "128 word \<Rightarrow> 32 word option" where
  "to_ipv4_mapped a = (if drop_bit 32 a = 0xFFFF then Some (ucast a) else None)"

definition is_blocked_v6 :: "128 word \<Rightarrow> bool" where
  "is_blocked_v6 a \<longleftrightarrow>
     a = 1 \<or> a = 0 \<or> v6_segment 0 a div 256 = 0xFF \<or>
     (case to_ipv4_mapped a of None \<Rightarrow> False | Some v4 \<Rightarrow> is_blocked_v4 v4) \<or>
     Bit_Operations.and (v6_segment 0 a) 0xFE00 = 0xFC00 \<or>
     Bit_Operations.and (v6_segment 0 a) 0xFFC0 = 0xFE80"

fun is_blocked_ip :: "ip_addr \<Rightarrow> bool" where
  "is_blocked_ip (V4 a) = is_blocked_v4 a"
| "is_blocked_ip (V6 a) = is_blocked_v6 a"

section \<open>The ranges it refuses\<close>

lemma v4_octet_nat: "v4_octet k a = unat a div 2 ^ (24 - 8 * k) mod 256"
proof -
  have "v4_octet k a = take_bit 8 (drop_bit (24 - 8 * k) (unat a))"
    using take_bit_nat_eq_self [of "unat a" 32] unsigned_less [of a, where 'a = nat]
    by (simp add: v4_octet_def unsigned_take_bit_eq unsigned_drop_bit_eq)
  then show ?thesis by (simp add: take_bit_eq_mod drop_bit_eq_div)
qed

lemma nat_digits:
  fixes n :: nat
  shows "n = n div 16777216 * 16777216 + (n div 65536 mod 256) * 65536 + (n div 256 mod 256) * 256 + n mod 256"
proof -
  have "n = n div 256 * 256 + n mod 256" by simp
  also have "n div 256 = n div 256 div 256 * 256 + n div 256 mod 256" by simp
  also have "n div 256 div 256 = n div 65536" by (simp add: div_mult2_eq [symmetric])
  also have "n div 65536 = n div 65536 div 256 * 256 + n div 65536 mod 256"
    by (rule div_mult_mod_eq [symmetric])
  also have "n div 65536 div 256 = n div 16777216" by (simp add: div_mult2_eq [symmetric])
  finally show ?thesis by (simp add: algebra_simps)
qed

lemma v4_octets_value:
  fixes a :: "32 word"
  obtains p q r s where "unat a = p * 16777216 + q * 65536 + r * 256 + s"
    "p < 256" "q < 256" "r < 256" "s < 256"
    "v4_octet 0 a = p" "v4_octet 1 a = q" "v4_octet 2 a = r" "v4_octet 3 a = s"
proof -
  let ?n = "unat a"
  have lt: "?n < 4294967296" using unsigned_less [of a, where 'a = nat] by simp
  then have p: "?n div 16777216 < 256" by (simp add: less_mult_imp_div_less)
  show ?thesis
    by (rule that [OF nat_digits]) (use p in \<open>simp_all add: v4_octet_nat\<close>)
qed

text \<open>0.0.0.0, 10/8, 100.64/10, 127/8, 169.254/16, 172.16/12, the documentation nets, 192.168/16, 224/4, broadcast.\<close>

definition blocked_v4_ranges :: "(32 word \<times> 32 word) list" where
  "blocked_v4_ranges =
     [(0x00000000, 0x00000000), (0x0A000000, 0x0AFFFFFF), (0x64400000, 0x647FFFFF),
      (0x7F000000, 0x7FFFFFFF), (0xA9FE0000, 0xA9FEFFFF), (0xAC100000, 0xAC1FFFFF),
      (0xC0000200, 0xC00002FF), (0xC0A80000, 0xC0A8FFFF), (0xC6336400, 0xC63364FF),
      (0xCB007100, 0xCB0071FF), (0xE0000000, 0xEFFFFFFF), (0xFFFFFFFF, 0xFFFFFFFF)]"

lemma in_range_nat: "lo \<le> a \<and> a \<le> hi \<longleftrightarrow> unat lo \<le> unat a \<and> unat a \<le> unat hi"
  by (simp add: word_le_nat_alt)


lemma block_range:
  fixes p x B c d :: nat
  assumes "x < B"
  shows "c * B \<le> p * B + x \<and> p * B + x < (d + 1) * B \<longleftrightarrow> c \<le> p \<and> p \<le> d"
proof -
  have "(p * B + x) div B = p" and "0 < B" using assms by simp_all
  then show ?thesis
    by (metis div_less_iff_less_mult less_Suc_eq_le less_eq_div_iff_mult_less_eq Suc_eq_plus1)
qed

lemma two_digits:
  fixes p q c l h :: nat
  assumes "q < 256" and "h < 256"
  shows "c * 256 + l \<le> p * 256 + q \<and> p * 256 + q \<le> c * 256 + h \<longleftrightarrow> p = c \<and> l \<le> q \<and> q \<le> h"
proof -
  consider "p = c" | "Suc p \<le> c" | "Suc c \<le> p" by linarith
  then show ?thesis using assms by cases (auto dest: mult_le_mono1 [where k = 256])
qed

lemma three_digits:
  fixes p q r c :: nat
  assumes "q < 256" and "r < 256"
  shows "c \<le> p * 65536 + q * 256 + r \<and> p * 65536 + q * 256 + r \<le> c \<longleftrightarrow>
    p = c div 65536 \<and> q = c div 256 mod 256 \<and> r = c mod 256"
proof -
  let ?P = "p * 65536 + q * 256 + r"
  have P: "?P = (p * 256 + q) * 256 + r" by simp
  have "(x * 256 + r) mod 256 = r" and "(x * 256 + r) div 256 = x" for x using assms by simp_all
  then have r: "?P mod 256 = r" and pq: "?P div 256 = p * 256 + q" unfolding P by this+
  have "?P div 256 mod 256 = q" unfolding pq using assms by simp
  moreover have "?P div 65536 = p"
    using assms div_mult2_eq [of ?P 256 256] unfolding pq by simp
  moreover have "c = c div 65536 * 65536 + (c div 256 mod 256) * 256 + c mod 256"
  proof -
    have "c div 16777216 = c div 65536 div 256" by (simp add: div_mult2_eq [symmetric])
    then show ?thesis using nat_digits [of c] div_mult_mod_eq [of "c div 65536" 256] by linarith
  qed
  ultimately show ?thesis using r by auto
qed

lemma blocked_v4: "is_blocked_v4 a \<longleftrightarrow> (\<exists>(lo, hi) \<in> set blocked_v4_ranges. lo \<le> a \<and> a \<le> hi)"
proof -
  obtain p q r s where n: "unat a = p * 16777216 + q * 65536 + r * 256 + s"
    and lt: "p < 256" "q < 256" "r < 256" "s < 256"
    and o: "v4_octet 0 a = p" "v4_octet 1 a = q" "v4_octet 2 a = r" "v4_octet 3 a = s"
    by (rule v4_octets_value)
  have B: "(a = 0) \<longleftrightarrow> 0 \<le> a \<and> a \<le> 0" "(a = 0xFFFFFFFF) \<longleftrightarrow> 0xFFFFFFFF \<le> a \<and> a \<le> 0xFFFFFFFF"
    by auto
  have x1: "unat a = p * 16777216 + (q * 65536 + r * 256 + s)" "q * 65536 + r * 256 + s < 16777216"
    and x2: "unat a = (p * 256 + q) * 65536 + (r * 256 + s)" "r * 256 + s < 65536"
    and x3: "unat a = (p * 65536 + q * 256 + r) * 256 + s"
    using n lt by simp_all
  have b1: "c * 16777216 \<le> unat a \<and> unat a < (d + 1) * 16777216 \<longleftrightarrow> c \<le> p \<and> p \<le> d" for c d
    unfolding x1(1) by (rule block_range [OF x1(2)])
  have b2: "c * 65536 \<le> unat a \<and> unat a < (d + 1) * 65536 \<longleftrightarrow>
      c \<le> p * 256 + q \<and> p * 256 + q \<le> d" for c d
    unfolding x2(1) by (rule block_range [OF x2(2)])
  have b3: "c * 256 \<le> unat a \<and> unat a < (d + 1) * 256 \<longleftrightarrow>
      c \<le> p * 65536 + q * 256 + r \<and> p * 65536 + q * 256 + r \<le> d" for c d
    unfolding x3 by (rule block_range [OF lt(4)])
  have 1: "p = 10 \<longleftrightarrow> 0x0A000000 \<le> a \<and> a \<le> 0x0AFFFFFF"
  proof -
    have "0x0A000000 \<le> a \<and> a \<le> 0x0AFFFFFF \<longleftrightarrow> 10 \<le> p \<and> p \<le> 10"
      using b1 [of "10" "10"] by (auto simp: in_range_nat)
    then show ?thesis by auto
  qed
  have 2: "p = 100 \<and> 0x40 \<le> q \<and> q \<le> 0x7F \<longleftrightarrow> 0x64400000 \<le> a \<and> a \<le> 0x647FFFFF"
  proof -
    have "0x64400000 \<le> a \<and> a \<le> 0x647FFFFF \<longleftrightarrow> 0x6440 \<le> p * 256 + q \<and> p * 256 + q \<le> 0x647F"
      using b2 [of "0x6440" "0x647F"] by (auto simp: in_range_nat)
    then show ?thesis using two_digits [OF lt(2), of 127 100 64 p] by auto
  qed
  have 3: "p = 127 \<longleftrightarrow> 0x7F000000 \<le> a \<and> a \<le> 0x7FFFFFFF"
  proof -
    have "0x7F000000 \<le> a \<and> a \<le> 0x7FFFFFFF \<longleftrightarrow> 127 \<le> p \<and> p \<le> 127"
      using b1 [of "127" "127"] by (auto simp: in_range_nat)
    then show ?thesis by auto
  qed
  have 4: "p = 169 \<and> q = 254 \<longleftrightarrow> 0xA9FE0000 \<le> a \<and> a \<le> 0xA9FEFFFF"
  proof -
    have "0xA9FE0000 \<le> a \<and> a \<le> 0xA9FEFFFF \<longleftrightarrow> 0xA9FE \<le> p * 256 + q \<and> p * 256 + q \<le> 0xA9FE"
      using b2 [of "0xA9FE" "0xA9FE"] by (auto simp: in_range_nat)
    then show ?thesis using two_digits [OF lt(2), of 254 169 254 p] by auto
  qed
  have 5: "p = 172 \<and> 16 \<le> q \<and> q \<le> 31 \<longleftrightarrow> 0xAC100000 \<le> a \<and> a \<le> 0xAC1FFFFF"
  proof -
    have "0xAC100000 \<le> a \<and> a \<le> 0xAC1FFFFF \<longleftrightarrow> 0xAC10 \<le> p * 256 + q \<and> p * 256 + q \<le> 0xAC1F"
      using b2 [of "0xAC10" "0xAC1F"] by (auto simp: in_range_nat)
    then show ?thesis using two_digits [OF lt(2), of 31 172 16 p] by auto
  qed
  have 6: "p = 192 \<and> q = 0 \<and> r = 2 \<longleftrightarrow> 0xC0000200 \<le> a \<and> a \<le> 0xC00002FF"
  proof -
    have "0xC0000200 \<le> a \<and> a \<le> 0xC00002FF \<longleftrightarrow> 0xC00002 \<le> p * 65536 + q * 256 + r \<and> p * 65536 + q * 256 + r \<le> 0xC00002"
      using b3 [of "0xC00002" "0xC00002"] by (auto simp: in_range_nat)
    then show ?thesis using three_digits [OF lt(2,3), of "0xC00002" p] by simp
  qed
  have 7: "p = 192 \<and> q = 168 \<longleftrightarrow> 0xC0A80000 \<le> a \<and> a \<le> 0xC0A8FFFF"
  proof -
    have "0xC0A80000 \<le> a \<and> a \<le> 0xC0A8FFFF \<longleftrightarrow> 0xC0A8 \<le> p * 256 + q \<and> p * 256 + q \<le> 0xC0A8"
      using b2 [of "0xC0A8" "0xC0A8"] by (auto simp: in_range_nat)
    then show ?thesis using two_digits [OF lt(2), of 168 192 168 p] by auto
  qed
  have 8: "p = 198 \<and> q = 51 \<and> r = 100 \<longleftrightarrow> 0xC6336400 \<le> a \<and> a \<le> 0xC63364FF"
  proof -
    have "0xC6336400 \<le> a \<and> a \<le> 0xC63364FF \<longleftrightarrow> 0xC63364 \<le> p * 65536 + q * 256 + r \<and> p * 65536 + q * 256 + r \<le> 0xC63364"
      using b3 [of "0xC63364" "0xC63364"] by (auto simp: in_range_nat)
    then show ?thesis using three_digits [OF lt(2,3), of "0xC63364" p] by simp
  qed
  have 9: "p = 203 \<and> q = 0 \<and> r = 113 \<longleftrightarrow> 0xCB007100 \<le> a \<and> a \<le> 0xCB0071FF"
  proof -
    have "0xCB007100 \<le> a \<and> a \<le> 0xCB0071FF \<longleftrightarrow> 0xCB0071 \<le> p * 65536 + q * 256 + r \<and> p * 65536 + q * 256 + r \<le> 0xCB0071"
      using b3 [of "0xCB0071" "0xCB0071"] by (auto simp: in_range_nat)
    then show ?thesis using three_digits [OF lt(2,3), of "0xCB0071" p] by simp
  qed
  have 10: "224 \<le> p \<and> p \<le> 239 \<longleftrightarrow> 0xE0000000 \<le> a \<and> a \<le> 0xEFFFFFFF"
  proof -
    have "0xE0000000 \<le> a \<and> a \<le> 0xEFFFFFFF \<longleftrightarrow> 224 \<le> p \<and> p \<le> 239"
      using b1 [of "224" "239"] by (auto simp: in_range_nat)
    then show ?thesis by auto
  qed
  show ?thesis
    unfolding is_blocked_v4_def v4_is_private_def v4_is_loopback_def v4_is_link_local_def
      v4_is_documentation_def v4_is_multicast_def blocked_v4_ranges_def o 1 2 3 4 5 6 7 8 9 10 B
    by (simp only: list.set bex_simps prod.case disj_ac simp_thms)
qed

lemma and_high_bits:
  "Bit_Operations.and s (push_bit k (mask m)) = push_bit k (take_bit m (drop_bit k s))" for s :: nat
  by (rule bit_eqI) (auto simp: bit_simps)

lemma v6_segment_lt: "v6_segment k a < 65536"
  by (simp add: v6_segment_def unsigned_take_bit_eq take_bit_nat_less_exp [of 16, simplified])

lemma v6_head: "v6_segment 0 a = unat a div 2 ^ 112"
proof -
  have "unat a < 2 ^ 128" using unsigned_less [of a, where 'a = nat] by simp
  then have "unat a div 2 ^ 112 < 2 ^ 16" by (simp add: less_mult_imp_div_less)
  moreover have "v6_segment 0 a = take_bit 16 (drop_bit 112 (unat a))"
    using take_bit_nat_eq_self [of "unat a" 128] unsigned_less [of a, where 'a = nat]
    by (simp add: v6_segment_def unsigned_take_bit_eq unsigned_drop_bit_eq)
  ultimately show ?thesis by (simp add: drop_bit_eq_div take_bit_nat_eq_self)
qed

lemma unique_local_bits: "s < 65536 \<Longrightarrow> Bit_Operations.and s 0xFE00 = 0xFC00 \<longleftrightarrow> 0xFC00 \<le> s \<and> s \<le> 0xFDFF"
  for s :: nat
  using and_high_bits [of s 9 7]
  by (simp add: mask_eq_exp_minus_1 push_bit_eq_mult drop_bit_eq_div take_bit_nat_eq_self) arith

lemma link_local_bits: "s < 65536 \<Longrightarrow> Bit_Operations.and s 0xFFC0 = 0xFE80 \<longleftrightarrow> 0xFE80 \<le> s \<and> s \<le> 0xFEBF"
  for s :: nat
  using and_high_bits [of s 6 10]
  by (simp add: mask_eq_exp_minus_1 push_bit_eq_mult drop_bit_eq_div take_bit_nat_eq_self) arith

text \<open>:: and ::1, fc00::/7, fe80::/10, ff00::/8.\<close>

definition blocked_v6_ranges :: "(128 word \<times> 128 word) list" where
  "blocked_v6_ranges =
     [(0, 1),
      (0xFC000000000000000000000000000000, 0xFDFFFFFFFFFFFFFFFFFFFFFFFFFFFFFF),
      (0xFE800000000000000000000000000000, 0xFEBFFFFFFFFFFFFFFFFFFFFFFFFFFFFF),
      (0xFF000000000000000000000000000000, 0xFFFFFFFFFFFFFFFFFFFFFFFFFFFFFFFF)]"

lemma blocked_v6:
  "is_blocked_v6 a \<longleftrightarrow>
     (\<exists>(lo, hi) \<in> set blocked_v6_ranges. lo \<le> a \<and> a \<le> hi) \<or>
     (\<exists>v4. to_ipv4_mapped a = Some v4 \<and> is_blocked_v4 v4)"
proof -
  let ?s = "v6_segment 0 a" and ?B = "2 ^ 112 :: nat"
  have n: "unat a = ?s * ?B + unat a mod ?B" by (simp add: v6_head)
  have seg: "c * ?B \<le> unat a \<and> unat a < (d + 1) * ?B \<longleftrightarrow> c \<le> ?s \<and> ?s \<le> d" for c d
    by (subst (1 2) n, rule block_range) simp
  have 1: "a = 1 \<or> a = 0 \<longleftrightarrow> 0 \<le> a \<and> a \<le> 1"
    by (auto simp: word_le_nat_alt word_unat_eq_iff le_Suc_eq)
  have 2: "?s div 256 = 0xFF \<longleftrightarrow>
      0xFF000000000000000000000000000000 \<le> a \<and> a \<le> 0xFFFFFFFFFFFFFFFFFFFFFFFFFFFFFFFF"
    using seg [of "0xFF00" "0xFFFF"] v6_segment_lt [where k = 0 and a = a] by (auto simp: in_range_nat)
  have 3: "Bit_Operations.and ?s 0xFE00 = 0xFC00 \<longleftrightarrow>
      0xFC000000000000000000000000000000 \<le> a \<and> a \<le> 0xFDFFFFFFFFFFFFFFFFFFFFFFFFFFFFFF"
    using seg [of "0xFC00" "0xFDFF"] unique_local_bits [OF v6_segment_lt [where k = 0 and a = a]] by (auto simp: in_range_nat)
  have 4: "Bit_Operations.and ?s 0xFFC0 = 0xFE80 \<longleftrightarrow>
      0xFE800000000000000000000000000000 \<le> a \<and> a \<le> 0xFEBFFFFFFFFFFFFFFFFFFFFFFFFFFFFF"
    using seg [of "0xFE80" "0xFEBF"] link_local_bits [OF v6_segment_lt [where k = 0 and a = a]] by (auto simp: in_range_nat)
  have 5: "(case to_ipv4_mapped a of None \<Rightarrow> False | Some v4 \<Rightarrow> is_blocked_v4 v4) \<longleftrightarrow>
      (\<exists>v4. to_ipv4_mapped a = Some v4 \<and> is_blocked_v4 v4)"
    by (auto split: option.splits)
  show ?thesis
    unfolding is_blocked_v6_def blocked_v6_ranges_def disj_assoc [symmetric] 1
    unfolding 2 3 4 5
    by (simp only: list.set bex_simps prod.case disj_ac simp_thms)
qed

text \<open>::ffff:a.b.c.d\<close>

definition mapped_v6 :: "32 word \<Rightarrow> 128 word" where
  "mapped_v6 v = Bit_Operations.or (push_bit 32 (mask 16)) (ucast v)"

lemma to_ipv4_mapped_v6 [simp]: "to_ipv4_mapped (mapped_v6 v) = Some v"
proof -
  have "drop_bit 32 (mapped_v6 v) = mask 16"
    by (rule bit_word_eqI) (auto simp: mapped_v6_def bit_simps dest: bit_imp_le_length)
  then have 1: "drop_bit 32 (mapped_v6 v) = 0xFFFF" by (simp add: mask_eq_exp_minus_1)
  have "ucast (mapped_v6 v) = v"
    by (rule bit_word_eqI) (auto simp: mapped_v6_def bit_simps)
  with 1 show ?thesis by (simp add: to_ipv4_mapped_def)
qed

end
