(* ===== verification/Outbound.thy ===== *)
theory Outbound
  imports In_Memory Address
begin

text \<open>
  The adapters that leave the process: \<open>adapters/dispatch\<close>, \<open>adapters/digest.rs\<close> and
  \<open>adapters/notify.rs\<close>. URL parsing, name resolution, the HTTP client, SMTP, HMAC and the
  serialisation library are outside the repository; they are the record \<open>net\<close>, whose answers
  may depend on everything sent before. A call is a function of the log of earlier traffic to
  a result and the traffic it adds.
\<close>

section \<open>The outside\<close>

record net =
  net_host :: "rstr \<Rightarrow> rstr + rstr option"
  net_target :: "http_request \<Rightarrow> rstr + rstr"
  net_literal :: "rstr \<Rightarrow> ip_addr option"
  net_lookup :: "outcall list \<Rightarrow> rstr \<Rightarrow> rstr + ip_addr list"
  net_send :: "outcall list \<Rightarrow> http_request \<Rightarrow> rstr + nat"
  net_status_text :: "nat \<Rightarrow> rstr"
  net_ip_text :: "ip_addr \<Rightarrow> rstr"
  net_trace :: "(rstr \<times> rstr) list"
  net_json_bytes :: "json \<Rightarrow> nat list"
  net_hmac :: "nat list \<Rightarrow> nat list \<Rightarrow> nat list"
  net_time_text :: "time \<Rightarrow> rstr"
  net_mailbox :: "rstr \<Rightarrow> rstr option"
  net_mail_build :: "rstr \<Rightarrow> rstr \<Rightarrow> rstr \<Rightarrow> rstr option"
  net_mail :: "outcall list \<Rightarrow> rstr \<Rightarrow> rstr \<Rightarrow> rstr \<Rightarrow> rstr option"

text \<open>
  \<open>net_host\<close> parses a URL: an error, or its host if it has one. \<open>net_target\<close> is the host the HTTP
  client connects to for a request, or the error of building it (a bad URL or header).
  \<open>net_literal\<close> says whether the client connects to a host without asking its resolver, which is
  the case for a literal address. \<open>net_mailbox\<close> parses an address and \<open>net_mail_build\<close> builds a
  message; they and \<open>net_mail\<close> return an error, if any. \<open>net_send\<close> is the exchange with a host
  that has been resolved; for the clients that follow redirects it is the whole exchange.
\<close>

type_synonym 'a out = "outcall list \<Rightarrow> (port_error + 'a) \<times> outcall list"

definition out_ret :: "'a \<Rightarrow> 'a out" where
  "out_ret x h = (Inr x, [])"

definition out_fail :: "rstr \<Rightarrow> 'a out" where
  "out_fail msg h = (Inl (PortError msg), [])"

definition out_bind :: "'a out \<Rightarrow> ('a \<Rightarrow> 'b out) \<Rightarrow> 'b out" where
  "out_bind m f h =
     (case m h of
        (Inl e, cs) \<Rightarrow> (Inl e, cs)
      | (Inr x, cs) \<Rightarrow> (case f x (h @ cs) of (r, ds) \<Rightarrow> (r, cs @ ds)))"

section \<open>The HTTP client\<close>

definition blocked_msg :: "net \<Rightarrow> ip_addr \<Rightarrow> rstr" where
  "blocked_msg N ip =
     lit ''webhook host resolves to a non-public address ('' @ net_ip_text N ip @ lit '')''"

text \<open>The filtering resolver, and the default one.\<close>

definition public_only_resolve :: "net \<Rightarrow> rstr \<Rightarrow> outcall list \<Rightarrow> (rstr + ip_addr list) \<times> outcall list" where
  "public_only_resolve N name h =
     (case net_lookup N h name of
        Inl e \<Rightarrow> (Inl e, [DnsLookup name])
      | Inr addrs \<Rightarrow>
          (case find is_blocked_ip addrs of
             Some ip \<Rightarrow> (Inl (blocked_msg N ip), [DnsLookup name])
           | None \<Rightarrow> (Inr addrs, [DnsLookup name])))"

definition default_resolve :: "net \<Rightarrow> rstr \<Rightarrow> outcall list \<Rightarrow> (rstr + ip_addr list) \<times> outcall list" where
  "default_resolve N name h = (net_lookup N h name, [DnsLookup name])"

text \<open>
  One request of a client with the given resolver: parse the URL, find the addresses, connect.
  \<open>Inl\<close> is the client's error, \<open>Inr\<close> the status of the response.
\<close>

definition client_send ::
  "net \<Rightarrow> (net \<Rightarrow> rstr \<Rightarrow> outcall list \<Rightarrow> (rstr + ip_addr list) \<times> outcall list) \<Rightarrow> http_request \<Rightarrow>
   outcall list \<Rightarrow> (rstr + nat) \<times> outcall list" where
  "client_send N resolver rq h =
     (case net_target N rq of
        Inl e \<Rightarrow> (Inl e, [])
      | Inr host \<Rightarrow>
          (case net_literal N host of
             Some ip \<Rightarrow> (net_send N h rq, [HttpCall [ip] rq])
           | None \<Rightarrow>
               (case resolver N host h of
                  (Inl e, cs) \<Rightarrow> (Inl e, cs)
                | (Inr addrs, cs) \<Rightarrow> (net_send N (h @ cs) rq, cs @ [HttpCall addrs rq]))))"

definition is_success :: "nat \<Rightarrow> bool" where
  "is_success status \<longleftrightarrow> 200 \<le> status \<and> status < 300"

text \<open>\<open>send().await.map_err(..)?\<close> followed by the check of the status.\<close>

definition post_checked ::
  "net \<Rightarrow> (net \<Rightarrow> rstr \<Rightarrow> outcall list \<Rightarrow> (rstr + ip_addr list) \<times> outcall list) \<Rightarrow> rstr \<Rightarrow> rstr \<Rightarrow>
   http_request \<Rightarrow> unit out" where
  "post_checked N resolver unreachable returned rq h =
     (case client_send N resolver rq h of
        (Inl e, cs) \<Rightarrow> (Inl (PortError (unreachable @ e)), cs)
      | (Inr status, cs) \<Rightarrow>
          if is_success status then (Inr (), cs)
          else (Inl (PortError (returned @ net_status_text N status)), cs))"

section \<open>The agent\<close>

text \<open>
  \<open>base_url.trim_end_matches('/')\<close>, the request bodies and the two dispatchers. The internal
  token authenticates the backend; the request id is the id of the job or document.
\<close>

record agent_api =
  ag_base_url :: rstr
  ag_internal_token :: rstr

definition trim_end_slash :: "rstr \<Rightarrow> rstr" where
  "trim_end_slash s = rev (dropWhile (\<lambda>c. c = 47) (rev s))"

definition http_dispatcher_new :: "rstr \<Rightarrow> rstr \<Rightarrow> agent_api" where
  "http_dispatcher_new base token =
     \<lparr>ag_base_url = trim_end_slash base, ag_internal_token = token\<rparr>"

fun job_mode_json :: "job_mode \<Rightarrow> json" where
  "job_mode_json Workflow = JString (lit ''workflow'')"
| "job_mode_json Agent = JString (lit ''agent'')"

definition json_opt :: "('a \<Rightarrow> json) \<Rightarrow> 'a option \<Rightarrow> json" where
  "json_opt f x = (case x of None \<Rightarrow> JNull | Some y \<Rightarrow> f y)"

definition task_request :: "runtime \<Rightarrow> research_job \<Rightarrow> rstr list \<Rightarrow> json" where
  "task_request RT job seen_urls =
     JObject
       [(lit ''job_id'', JString (rt_uuid_display RT (job_id job))),
        (lit ''keyword'', JString (job_keyword job)),
        (lit ''clarification'', json_opt JString (job_answer job)),
        (lit ''mode'', job_mode_json (job_mode job)),
        (lit ''recurring'', JBool (job_recurring_search_id job \<noteq> None)),
        (lit ''seen_urls'', JArray (map JString seen_urls))]"

definition agent_headers :: "runtime \<Rightarrow> net \<Rightarrow> agent_api \<Rightarrow> uuid \<Rightarrow> (rstr \<times> rstr) list" where
  "agent_headers RT N api i =
     net_trace N @
     [(lit ''X-Internal-Token'', ag_internal_token api),
      (lit ''X-Request-Id'', rt_uuid_display RT i)]"

definition dispatch_request :: "runtime \<Rightarrow> net \<Rightarrow> agent_api \<Rightarrow> research_job \<Rightarrow> rstr list \<Rightarrow> http_request" where
  "dispatch_request RT N api job seen_urls =
     \<lparr>rq_url = ag_base_url api @ lit ''/tasks'',
      rq_headers = agent_headers RT N api (job_id job),
      rq_body = task_request RT job seen_urls\<rparr>"

definition agent_post :: "net \<Rightarrow> http_request \<Rightarrow> unit out" where
  "agent_post N rq =
     post_checked N default_resolve (lit ''agent API unreachable: '') (lit ''agent API returned '') rq"

definition http_dispatch ::
  "runtime \<Rightarrow> net \<Rightarrow> agent_api \<Rightarrow> research_job \<Rightarrow> rstr list \<Rightarrow> unit out" where
  "http_dispatch RT N api job seen_urls = agent_post N (dispatch_request RT N api job seen_urls)"

definition noop_dispatch :: "research_job \<Rightarrow> rstr list \<Rightarrow> unit out" where
  "noop_dispatch job seen_urls = out_ret ()"

definition embed_request :: "runtime \<Rightarrow> net \<Rightarrow> agent_api \<Rightarrow> uuid \<Rightarrow> rstr \<Rightarrow> rstr \<Rightarrow> http_request" where
  "embed_request RT N api document_id name content =
     \<lparr>rq_url = ag_base_url api @ lit ''/embed'',
      rq_headers = agent_headers RT N api document_id,
      rq_body = JObject
        [(lit ''document_id'', JString (rt_uuid_display RT document_id)),
         (lit ''name'', JString name),
         (lit ''content'', JString content)]\<rparr>"

definition http_dispatch_embed ::
  "runtime \<Rightarrow> net \<Rightarrow> agent_api \<Rightarrow> uuid \<Rightarrow> rstr \<Rightarrow> rstr \<Rightarrow> unit out" where
  "http_dispatch_embed RT N api document_id name content =
     agent_post N (embed_request RT N api document_id name content)"

definition noop_dispatch_embed :: "uuid \<Rightarrow> rstr \<Rightarrow> rstr \<Rightarrow> unit out" where
  "noop_dispatch_embed document_id name content = out_ret ()"

section \<open>The digest webhook\<close>

definition digest_entry_json :: "net \<Rightarrow> digest_entry \<Rightarrow> json" where
  "digest_entry_json N e =
     JObject
       [(lit ''title'', JString (de_title e)),
        (lit ''url'', JString (de_url e)),
        (lit ''published_at'', json_opt (\<lambda>t. JString (net_time_text N t)) (de_published_at e))]"

definition digest_json :: "runtime \<Rightarrow> net \<Rightarrow> digest \<Rightarrow> json" where
  "digest_json RT N dg =
     JObject
       [(lit ''recurring_search_id'', JString (rt_uuid_display RT (dg_recurring_search_id dg))),
        (lit ''job_id'', JString (rt_uuid_display RT (dg_job_id dg))),
        (lit ''keyword'', JString (dg_keyword dg)),
        (lit ''new_count'', JInt (int (dg_new_count dg))),
        (lit ''new_results'', JArray (map (digest_entry_json N) (dg_new_results dg)))]"

definition ensure_public_host :: "net \<Rightarrow> rstr \<Rightarrow> bool \<Rightarrow> unit out" where
  "ensure_public_host N url allow_private h =
     (if allow_private then out_ret () h
      else case net_host N url of
        Inl e \<Rightarrow> out_fail (lit ''invalid webhook url: '' @ e) h
      | Inr None \<Rightarrow> out_fail (lit ''webhook url has no host'') h
      | Inr (Some host) \<Rightarrow>
          (case net_lookup N h host of
             Inl e \<Rightarrow>
               (Inl (PortError (lit ''cannot resolve webhook host: '' @ e)), [DnsLookup host])
           | Inr addrs \<Rightarrow>
               (if addrs = []
                then (Inl (PortError (lit ''webhook host did not resolve'')), [DnsLookup host])
                else case find is_blocked_ip addrs of
                  Some ip \<Rightarrow> (Inl (PortError (blocked_msg N ip)), [DnsLookup host])
                | None \<Rightarrow> (Inr (), [DnsLookup host]))))"

definition sign :: "net \<Rightarrow> rstr \<Rightarrow> nat list \<Rightarrow> rstr" where
  "sign N secret body =
     lit ''sha256='' @ concat (map hex_byte (net_hmac N (utf8 secret) body))"

record webhook_sender =
  wh_secret :: "rstr option"
  wh_allow_private :: bool

definition webhook_sender_new :: "rstr option \<Rightarrow> bool \<Rightarrow> webhook_sender" where
  "webhook_sender_new secret allow_private =
     \<lparr>wh_secret = (case secret of None \<Rightarrow> None | Some k \<Rightarrow> if k = [] then None else Some k),
      wh_allow_private = allow_private\<rparr>"

definition webhook_sender_default :: webhook_sender where
  "webhook_sender_default = webhook_sender_new None False"

definition webhook_request ::
  "runtime \<Rightarrow> net \<Rightarrow> webhook_sender \<Rightarrow> rstr \<Rightarrow> digest \<Rightarrow> http_request" where
  "webhook_request RT N wh url dg =
     (let body = digest_json RT N dg in
      \<lparr>rq_url = url,
       rq_headers =
         (lit ''content-type'', lit ''application/json'') #
         (case wh_secret wh of
            None \<Rightarrow> []
          | Some secret \<Rightarrow> [(lit ''X-Signature-256'', sign N secret (net_json_bytes N body))]),
       rq_body = body\<rparr>)"

definition webhook_send ::
  "runtime \<Rightarrow> net \<Rightarrow> webhook_sender \<Rightarrow> rstr \<Rightarrow> digest \<Rightarrow> unit out" where
  "webhook_send RT N wh url dg =
     out_bind (ensure_public_host N url (wh_allow_private wh)) (\<lambda>_.
       post_checked N (if wh_allow_private wh then default_resolve else public_only_resolve)
         (lit ''webhook unreachable: '') (lit ''webhook returned '') (webhook_request RT N wh url dg))"

definition noop_digest_send :: "rstr \<Rightarrow> digest \<Rightarrow> unit out" where
  "noop_digest_send url dg = out_ret ()"

section \<open>Channel notifiers\<close>

text \<open>Curly quotes are U+201C and U+201D, the bullet U+2022, the dash U+2014, a newline 10.\<close>

definition digest_to_text :: "digest \<Rightarrow> rstr" where
  "digest_to_text dg =
     lit ''New results for '' @ [0x201C] @ dg_keyword dg @ [0x201D] @ lit '' ('' @
     show_nat (dg_new_count dg) @ lit ''):'' @
     concat (map (\<lambda>e. [10, 0x2022, 32] @ de_title e @ [32, 0x2014, 32] @ de_url e)
       (dg_new_results dg))"

definition json_headers :: "(rstr \<times> rstr) list" where
  "json_headers = [(lit ''content-type'', lit ''application/json'')]"

definition slack_request :: "notification_channel \<Rightarrow> digest \<Rightarrow> http_request" where
  "slack_request channel dg =
     \<lparr>rq_url = ch_target channel, rq_headers = json_headers,
      rq_body = JObject [(lit ''text'', JString (digest_to_text dg))]\<rparr>"

definition slack_notify :: "net \<Rightarrow> bool \<Rightarrow> notification_channel \<Rightarrow> digest \<Rightarrow> unit out" where
  "slack_notify N allow_private channel dg =
     post_checked N (if allow_private then default_resolve else public_only_resolve)
       (lit ''slack unreachable: '') (lit ''slack returned '') (slack_request channel dg)"

definition telegram_new :: "rstr \<Rightarrow> rstr" where
  "telegram_new base_url = trim_end_slash base_url"

definition telegram_request :: "rstr \<Rightarrow> rstr \<Rightarrow> notification_channel \<Rightarrow> digest \<Rightarrow> http_request" where
  "telegram_request base_url token channel dg =
     \<lparr>rq_url = base_url @ lit ''/bot'' @ token @ lit ''/sendMessage'', rq_headers = json_headers,
      rq_body = JObject
        [(lit ''chat_id'', JString (ch_target channel)),
         (lit ''text'', JString (digest_to_text dg))]\<rparr>"

definition telegram_notify :: "net \<Rightarrow> rstr \<Rightarrow> notification_channel \<Rightarrow> digest \<Rightarrow> unit out" where
  "telegram_notify N base_url channel dg =
     (case ch_secret channel of
        None \<Rightarrow> out_fail (lit ''telegram channel has no bot token'')
      | Some token \<Rightarrow>
          post_checked N default_resolve
            (lit ''telegram unreachable: '') (lit ''telegram returned '')
            (telegram_request base_url token channel dg))"

type_synonym mailer = "rstr \<Rightarrow> rstr \<Rightarrow> rstr \<Rightarrow> unit out"

definition email_subject :: "digest \<Rightarrow> rstr" where
  "email_subject dg = lit ''New results for '' @ [0x201C] @ dg_keyword dg @ [0x201D]"

definition email_notify :: "mailer \<Rightarrow> notification_channel \<Rightarrow> digest \<Rightarrow> unit out" where
  "email_notify transport channel dg =
     transport (ch_target channel) (email_subject dg) (digest_to_text dg)"

definition lettre_send :: "net \<Rightarrow> mailer" where
  "lettre_send N to subject body h =
     (case net_mailbox N to of
        Some e \<Rightarrow> out_fail (lit ''invalid recipient address: '' @ e) h
      | None \<Rightarrow>
          (case net_mail_build N to subject body of
             Some e \<Rightarrow> out_fail (lit ''email build failed: '' @ e) h
           | None \<Rightarrow>
               (case net_mail N h to subject body of
                  Some e \<Rightarrow>
                    (Inl (PortError (lit ''smtp send failed: '' @ e)), [MailCall to subject body])
                | None \<Rightarrow> (Inr (), [MailCall to subject body]))))"

definition disabled_send :: mailer where
  "disabled_send to subject body = out_fail (lit ''email delivery is not configured'')"

definition dispatching_notify ::
  "(notification_channel \<Rightarrow> digest \<Rightarrow> unit out) \<Rightarrow> (notification_channel \<Rightarrow> digest \<Rightarrow> unit out) \<Rightarrow>
   (notification_channel \<Rightarrow> digest \<Rightarrow> unit out) \<Rightarrow> notification_channel \<Rightarrow> digest \<Rightarrow> unit out" where
  "dispatching_notify slack telegram email channel dg =
     (case ch_kind channel of
        Slack \<Rightarrow> slack channel dg
      | Telegram \<Rightarrow> telegram channel dg
      | Email \<Rightarrow> email channel dg)"

definition noop_notify :: "notification_channel \<Rightarrow> digest \<Rightarrow> unit out" where
  "noop_notify channel dg = out_ret ()"

section \<open>What a call sends\<close>

text \<open>
  \<open>posted rq r cs\<close>: the traffic \<open>cs\<close> of a call that ended in \<open>r\<close> holds at most one request, \<open>rq\<close>,
  and holds it if the call succeeded. \<open>all_public cs\<close>: no request went to an address the filter
  refuses.
\<close>

definition posted :: "http_request \<Rightarrow> port_error + unit \<Rightarrow> outcall list \<Rightarrow> bool" where
  "posted rq r cs \<longleftrightarrow> https cs = [rq] \<or> (https cs = [] \<and> r \<noteq> Inr ())"

definition all_public :: "outcall list \<Rightarrow> bool" where
  "all_public cs \<longleftrightarrow> (\<forall>addrs rq. HttpCall addrs rq \<in> set cs \<longrightarrow> (\<forall>ip \<in> set addrs. \<not> is_blocked_ip ip))"

definition quiet :: "port_error + unit \<Rightarrow> outcall list \<Rightarrow> bool" where
  "quiet r cs \<longleftrightarrow> r = Inr () \<and> cs = []"

definition mailed :: "rstr \<Rightarrow> rstr \<Rightarrow> rstr \<Rightarrow> port_error + unit \<Rightarrow> outcall list \<Rightarrow> bool" where
  "mailed to subject body r cs \<longleftrightarrow>
     cs = [MailCall to subject body] \<or> (cs = [] \<and> r \<noteq> Inr ())"

lemmas out_defs = out_ret_def out_fail_def out_bind_def

text \<open>A resolver sends name lookups only.\<close>

definition dns_only ::
  "(net \<Rightarrow> rstr \<Rightarrow> outcall list \<Rightarrow> (rstr + ip_addr list) \<times> outcall list) \<Rightarrow> bool" where
  "dns_only resolver \<longleftrightarrow> (\<forall>N name h. https (snd (resolver N name h)) = [])"

lemma dns_only_resolvers [simp]: "dns_only default_resolve" "dns_only public_only_resolve"
  by (auto simp: dns_only_def default_resolve_def public_only_resolve_def
      split: sum.splits option.splits)

lemma client_send_https:
  assumes run: "client_send N resolver rq h = (r, cs)" and dns: "dns_only resolver"
  shows "https cs = [rq] \<or> (https cs = [] \<and> (\<exists>e. r = Inl e))"
proof -
  have "https cs' = []" if "resolver N host h = (x, cs')" for host x cs'
    using dns that unfolding dns_only_def by (metis snd_conv)
  with run show ?thesis
    by (auto simp: client_send_def split: sum.splits option.splits prod.splits)
qed

lemma post_checked_posted:
  assumes "post_checked N resolver u g rq h = (r, cs)" and "dns_only resolver"
  shows "posted rq r cs"
proof -
  obtain r' cs' where c: "client_send N resolver rq h = (r', cs')" by fastforce
  from client_send_https [OF this assms(2)] assms(1) c show ?thesis
    by (cases r') (auto simp: post_checked_def posted_def split: if_splits)
qed

lemma public_resolve_public:
  "public_only_resolve N name h = (Inr addrs, cs) \<Longrightarrow> \<forall>ip \<in> set addrs. \<not> is_blocked_ip ip"
  by (auto simp: public_only_resolve_def find_None_iff split: sum.splits option.splits)

lemma ensure_public_host_https: "https (snd (ensure_public_host N url b h)) = []"
  by (auto simp: ensure_public_host_def out_defs split: sum.splits option.splits)

lemma http_dispatch_posted:
  "http_dispatch RT N api j urls h = (r, cs) \<Longrightarrow> posted (dispatch_request RT N api j urls) r cs"
  unfolding http_dispatch_def agent_post_def by (erule post_checked_posted) simp

lemma http_embed_posted:
  "http_dispatch_embed RT N api i name content h = (r, cs) \<Longrightarrow>
   posted (embed_request RT N api i name content) r cs"
  unfolding http_dispatch_embed_def agent_post_def by (erule post_checked_posted) simp

lemma webhook_posted:
  assumes "webhook_send RT N wh url dg h = (r, cs)"
  shows "posted (webhook_request RT N wh url dg) r cs"
proof -
  obtain r0 cs0 where e: "ensure_public_host N url (wh_allow_private wh) h = (r0, cs0)" by fastforce
  then have quiet0: "https cs0 = []" using ensure_public_host_https by (metis snd_conv)
  let ?p = "post_checked N (if wh_allow_private wh then default_resolve else public_only_resolve)
    (lit ''webhook unreachable: '') (lit ''webhook returned '') (webhook_request RT N wh url dg)"
  obtain r1 cs1 where p: "?p (h @ cs0) = (r1, cs1)" by fastforce
  have "posted (webhook_request RT N wh url dg) r1 cs1"
    by (rule post_checked_posted [OF p]) simp
  with assms e p quiet0 show ?thesis
    by (cases r0) (auto simp: webhook_send_def out_bind_def posted_def)
qed

text \<open>The resolver of the guarded clients lets no internal address through.\<close>

lemma client_send_public:
  assumes "\<And>host ip. net_target N rq = Inr host \<Longrightarrow> net_literal N host = Some ip \<Longrightarrow> \<not> is_blocked_ip ip"
    and "client_send N public_only_resolve rq h = (r, cs)"
  shows "all_public cs"
proof (cases "net_target N rq")
  case (Inl e)
  with assms(2) show ?thesis by (simp add: client_send_def all_public_def)
next
  case host: (Inr host)
  show ?thesis
  proof (cases "net_literal N host")
    case (Some ip)
    with host assms show ?thesis by (auto simp: client_send_def all_public_def)
  next
    case None
    obtain r0 cs0 where res: "public_only_resolve N host h = (r0, cs0)" by fastforce
    then have dns: "cs0 = [DnsLookup host]"
      by (auto simp: public_only_resolve_def split: sum.splits option.splits)
    show ?thesis
    proof (cases r0)
      case (Inl e)
      with host None res dns assms(2) show ?thesis by (auto simp: client_send_def all_public_def)
    next
      case (Inr addrs)
      with host None res dns assms(2) public_resolve_public [of N host h addrs cs0]
      show ?thesis by (auto simp: client_send_def all_public_def)
    qed
  qed
qed

lemma all_public_append [simp]: "all_public (cs @ ds) \<longleftrightarrow> all_public cs \<and> all_public ds"
  by (auto simp: all_public_def)

lemma post_checked_traffic:
  "post_checked N resolver u g rq h = (r, cs) \<Longrightarrow> \<exists>r'. client_send N resolver rq h = (r', cs)"
  by (cases "client_send N resolver rq h")
    (auto simp: post_checked_def split: sum.splits if_splits)

text \<open>
  Literal addresses skip the resolver. The webhook checks the host first; \<open>literal_agrees\<close> says
  that the URL parser, the name lookup and the client read a literal address the same way.
\<close>

definition literal_agrees :: "net \<Rightarrow> bool" where
  "literal_agrees N \<longleftrightarrow>
     (\<forall>rq host. net_target N rq = Inr host \<longrightarrow> net_host N (rq_url rq) = Inr (Some host)) \<and>
     (\<forall>h host ip addrs. net_literal N host = Some ip \<longrightarrow> net_lookup N h host = Inr addrs \<longrightarrow> ip \<in> set addrs)"

lemma ensure_public_host_ok:
  assumes "ensure_public_host N url False h = (Inr x, cs)"
  shows "\<exists>host addrs. net_host N url = Inr (Some host) \<and> net_lookup N h host = Inr addrs \<and>
    (\<forall>ip \<in> set addrs. \<not> is_blocked_ip ip)"
  using assms
  by (auto simp: ensure_public_host_def out_defs find_None_iff
      split: sum.splits option.splits if_splits)

lemma ensure_public_host_public: "all_public (snd (ensure_public_host N url b h))"
  by (auto simp: ensure_public_host_def out_defs all_public_def split: sum.splits option.splits)

lemma webhook_public:
  assumes agree: "literal_agrees N" and guarded: "\<not> wh_allow_private wh"
    and run: "webhook_send RT N wh url dg h = (r, cs)"
  shows "all_public cs"
proof -
  let ?rq = "webhook_request RT N wh url dg"
  have url: "rq_url ?rq = url" by (simp add: webhook_request_def Let_def)
  obtain r0 cs0 where e: "ensure_public_host N url False h = (r0, cs0)" by fastforce
  have pub0: "all_public cs0" using e ensure_public_host_public by (metis snd_conv)
  show ?thesis
  proof (cases r0)
    case (Inl err)
    with run e pub0 guarded show ?thesis by (simp add: webhook_send_def out_bind_def)
  next
    case (Inr x)
    obtain r1 cs1 where p: "post_checked N public_only_resolve (lit ''webhook unreachable: '')
        (lit ''webhook returned '') ?rq (h @ cs0) = (r1, cs1)" by fastforce
    from ensure_public_host_ok e Inr obtain host addrs where
      host: "net_host N url = Inr (Some host)" and look: "net_lookup N h host = Inr addrs"
      and pub: "\<forall>ip \<in> set addrs. \<not> is_blocked_ip ip" by metis
    have lit: "\<not> is_blocked_ip ip"
      if "net_target N ?rq = Inr host'" and "net_literal N host' = Some ip" for host' ip
    proof -
      from agree that(1) have "net_host N (rq_url ?rq) = Inr (Some host')"
        unfolding literal_agrees_def by blast
      with host have "host' = host" unfolding url by simp
      with agree that(2) look have "ip \<in> set addrs" unfolding literal_agrees_def by blast
      with pub show ?thesis by blast
    qed
    from post_checked_traffic [OF p] obtain r' where
      "client_send N public_only_resolve ?rq (h @ cs0) = (r', cs1)" ..
    from client_send_public [OF lit this] have "all_public cs1" .
    with run e Inr p pub0 guarded show ?thesis by (auto simp: webhook_send_def out_bind_def)
  qed
qed

section \<open>Adapters over the in-memory world\<close>

text \<open>
  \<open>im_out m\<close> runs an outgoing call in a world: it sees the traffic so far and adds its own. Each
  adapter keeps the contract of its port.
\<close>

definition im_out :: "'a out \<Rightarrow> (world, 'a) port" where
  "im_out m s = (case m (m_calls s) of (r, cs) \<Rightarrow> (r, s\<lparr>m_calls := m_calls s @ cs\<rparr>))"

lemma im_out_call_spec:
  assumes "\<And>h r cs. m h = (r, cs) \<Longrightarrow> P r cs"
  shows "call_spec world_wf im_abs (im_out m) P"
  unfolding call_spec_def
proof (intro allI impI)
  fix s
  assume wf: "world_wf s"
  obtain r cs where m: "m (m_calls s) = (r, cs)" by fastforce
  have "im_abs (s\<lparr>m_calls := m_calls s @ cs\<rparr>) = log_calls cs (im_abs s)"
    by (simp add: im_abs_def log_calls_def)
  moreover have "world_wf (s\<lparr>m_calls := m_calls s @ cs\<rparr>)" using wf by (simp add: world_wf_def)
  ultimately show "case im_out m s of (r, s') \<Rightarrow>
      world_wf s' \<and> (\<exists>cs. im_abs s' = log_calls cs (im_abs s) \<and> P r cs)"
    using assms [OF m] by (simp only: im_out_def m prod.case) blast
qed

lemma out_ret_quiet: "out_ret () h = (r, cs) \<Longrightarrow> quiet r cs"
  by (simp add: out_ret_def quiet_def)

lemma lettre_mailed: "lettre_send N to subject body h = (r, cs) \<Longrightarrow> mailed to subject body r cs"
  by (auto simp: lettre_send_def out_fail_def mailed_def split: option.splits)

end
