(* ===== verification/Wiring.thy ===== *)
theory Wiring
  imports Config Launch Run_Due Ingest Session Resources Outbound
begin

text \<open>
  \<open>main.rs\<close>: which adapters the program runs with, and the background loop. The adapters are
  chosen from the configuration as \<open>serve\<close> does; the repositories are the in-memory ones, the
  persistence of a configuration without a database. The use-case contracts of the earlier
  theories are interpreted on these definitions here.
\<close>

section \<open>The adapters of a configuration\<close>

definition agent_of :: "app_config \<Rightarrow> rstr \<Rightarrow> agent_api" where
  "agent_of cfg url = http_dispatcher_new url (ac_internal_token cfg)"

definition app_dispatch ::
  "runtime \<Rightarrow> net \<Rightarrow> app_config \<Rightarrow> research_job \<Rightarrow> rstr list \<Rightarrow> unit out" where
  "app_dispatch RT N cfg =
     (case ac_agent_api_url cfg of
        Some url \<Rightarrow> http_dispatch RT N (agent_of cfg url)
      | None \<Rightarrow> noop_dispatch)"

definition app_embed ::
  "runtime \<Rightarrow> net \<Rightarrow> app_config \<Rightarrow> uuid \<Rightarrow> rstr \<Rightarrow> rstr \<Rightarrow> unit out" where
  "app_embed RT N cfg =
     (case ac_agent_api_url cfg of
        Some url \<Rightarrow> http_dispatch_embed RT N (agent_of cfg url)
      | None \<Rightarrow> noop_dispatch_embed)"

definition app_webhook :: "app_config \<Rightarrow> webhook_sender" where
  "app_webhook cfg =
     webhook_sender_new (ac_digest_signing_secret cfg) (ac_digest_allow_private_webhooks cfg)"

text \<open>\<open>lettre_new\<close> is the library's check of the SMTP settings: an error, if any.\<close>

definition email_enabled :: "(smtp_config \<Rightarrow> rstr option) \<Rightarrow> app_config \<Rightarrow> bool" where
  "email_enabled lettre_new cfg =
     (case ac_smtp cfg of Some smtp \<Rightarrow> lettre_new smtp = None | None \<Rightarrow> False)"

definition configured_transport ::
  "(smtp_config \<Rightarrow> rstr option) \<Rightarrow> net \<Rightarrow> app_config \<Rightarrow> mailer" where
  "configured_transport lettre_new N cfg =
     (if email_enabled lettre_new cfg then lettre_send N else disabled_send)"

definition TELEGRAM_API :: rstr where "TELEGRAM_API = lit ''https://api.telegram.org''"

definition app_notify ::
  "(smtp_config \<Rightarrow> rstr option) \<Rightarrow> net \<Rightarrow> app_config \<Rightarrow> notification_channel \<Rightarrow> digest \<Rightarrow> unit out" where
  "app_notify lettre_new N cfg =
     dispatching_notify
       (slack_notify N (ac_digest_allow_private_webhooks cfg))
       (telegram_notify N (telegram_new TELEGRAM_API))
       (email_notify (configured_transport lettre_new N cfg))"

text \<open>The adapters as operations on the world, the way the use cases call them.\<close>

abbreviation app_disp :: "runtime \<Rightarrow> net \<Rightarrow> app_config \<Rightarrow> world job_dispatcher" where
  "app_disp RT N cfg \<equiv> \<lambda>j urls. im_out (app_dispatch RT N cfg j urls)"

abbreviation app_emb :: "runtime \<Rightarrow> net \<Rightarrow> app_config \<Rightarrow> world embed_dispatcher" where
  "app_emb RT N cfg \<equiv> \<lambda>i name content. im_out (app_embed RT N cfg i name content)"

abbreviation app_hook :: "runtime \<Rightarrow> net \<Rightarrow> app_config \<Rightarrow> world digest_sender" where
  "app_hook RT N cfg \<equiv> \<lambda>url dg. im_out (webhook_send RT N (app_webhook cfg) url dg)"

abbreviation app_chan ::
  "(smtp_config \<Rightarrow> rstr option) \<Rightarrow> net \<Rightarrow> app_config \<Rightarrow> world channel_notifier" where
  "app_chan lettre_new N cfg \<equiv> \<lambda>c dg. im_out (app_notify lettre_new N cfg c dg)"

section \<open>What they send\<close>

definition app_dispatch_sent ::
  "runtime \<Rightarrow> net \<Rightarrow> app_config \<Rightarrow> research_job \<Rightarrow> rstr list \<Rightarrow> port_error + unit \<Rightarrow> outcall list \<Rightarrow> bool"
  where
  "app_dispatch_sent RT N cfg j urls =
     (case ac_agent_api_url cfg of
        Some url \<Rightarrow> posted (dispatch_request RT N (agent_of cfg url) j urls)
      | None \<Rightarrow> quiet)"

definition app_embed_sent ::
  "runtime \<Rightarrow> net \<Rightarrow> app_config \<Rightarrow> uuid \<Rightarrow> rstr \<Rightarrow> rstr \<Rightarrow> port_error + unit \<Rightarrow> outcall list \<Rightarrow> bool"
  where
  "app_embed_sent RT N cfg i name content =
     (case ac_agent_api_url cfg of
        Some url \<Rightarrow> posted (embed_request RT N (agent_of cfg url) i name content)
      | None \<Rightarrow> quiet)"

definition app_hook_sent ::
  "runtime \<Rightarrow> net \<Rightarrow> app_config \<Rightarrow> rstr \<Rightarrow> digest \<Rightarrow> port_error + unit \<Rightarrow> outcall list \<Rightarrow> bool" where
  "app_hook_sent RT N cfg url dg = posted (webhook_request RT N (app_webhook cfg) url dg)"

definition app_channel_sent ::
  "(smtp_config \<Rightarrow> rstr option) \<Rightarrow> app_config \<Rightarrow> notification_channel \<Rightarrow> digest \<Rightarrow>
   port_error + unit \<Rightarrow> outcall list \<Rightarrow> bool" where
  "app_channel_sent lettre_new cfg c dg r cs \<longleftrightarrow>
     (case ch_kind c of
        Slack \<Rightarrow> posted (slack_request c dg) r cs
      | Telegram \<Rightarrow>
          (case ch_secret c of
             None \<Rightarrow> cs = [] \<and> r \<noteq> Inr ()
           | Some token \<Rightarrow> posted (telegram_request TELEGRAM_API token c dg) r cs)
      | Email \<Rightarrow>
          if email_enabled lettre_new cfg
          then mailed (ch_target c) (email_subject dg) (digest_to_text dg) r cs
          else cs = [] \<and> r \<noteq> Inr ())"

lemma app_dispatch_sent: "app_dispatch RT N cfg j urls h = (r, cs) \<Longrightarrow> app_dispatch_sent RT N cfg j urls r cs"
  unfolding app_dispatch_def app_dispatch_sent_def
  by (auto simp: noop_dispatch_def split: option.splits intro: http_dispatch_posted out_ret_quiet)

lemma app_embed_sent: "app_embed RT N cfg i name content h = (r, cs) \<Longrightarrow> app_embed_sent RT N cfg i name content r cs"
  unfolding app_embed_def app_embed_sent_def
  by (auto simp: noop_dispatch_embed_def split: option.splits intro: http_embed_posted out_ret_quiet)

lemma telegram_api: "telegram_new TELEGRAM_API = TELEGRAM_API"
  by (simp add: telegram_new_def TELEGRAM_API_def trim_end_slash_def lit_def)

lemma app_channel_sent:
  assumes "app_notify lettre_new N cfg c dg h = (r, cs)"
  shows "app_channel_sent lettre_new cfg c dg r cs"
proof (cases "ch_kind c")
  case Slack
  with assms show ?thesis
    by (auto simp: app_notify_def dispatching_notify_def slack_notify_def app_channel_sent_def
        intro: post_checked_posted split: if_splits)
next
  case Telegram
  with assms show ?thesis
    by (auto simp: app_notify_def dispatching_notify_def telegram_notify_def app_channel_sent_def
        telegram_api out_fail_def intro: post_checked_posted split: option.splits)
next
  case Email
  with assms show ?thesis
    by (auto simp: app_notify_def dispatching_notify_def email_notify_def app_channel_sent_def
        configured_transport_def disabled_send_def out_fail_def intro: lettre_mailed split: if_splits)
qed

section \<open>The use cases on the program's own adapters\<close>

interpretation app_jobs: job_dispatch_port
  "\<lambda>j urls. im_out (app_dispatch RT N cfg j urls)" world_wf im_abs "app_dispatch_sent RT N cfg"
  for RT N cfg
  by unfold_locales (rule im_out_call_spec, rule app_dispatch_sent)

interpretation app_launch: launch_ports
  "\<lambda>t. t" "im_jobs fadd" "\<lambda>j urls. im_out (app_dispatch RT N cfg j urls)" world_wf im_abs fadd "\<lambda>r. r"
  "app_dispatch_sent RT N cfg"
  for fadd RT N cfg
  by unfold_locales

interpretation app_due: run_due_ports
  "\<lambda>t. t" im_searches "im_jobs fadd" "\<lambda>j urls. im_out (app_dispatch RT N cfg j urls)" world_wf im_abs
  fadd "\<lambda>r. r"
  "app_dispatch_sent RT N cfg"
  for fadd RT N cfg
  by unfold_locales

interpretation app_ingest: ingest_ports
  "\<lambda>t. t" "im_jobs fadd" im_searches im_channels "\<lambda>url dg. im_out (webhook_send RT N (app_webhook cfg) url dg)"
  "\<lambda>c dg. im_out (app_notify lettre_new N cfg c dg)" world_wf im_abs fadd "\<lambda>r. r"
  "app_hook_sent RT N cfg" "app_channel_sent lettre_new cfg" False
  for fadd RT N cfg lettre_new
proof (unfold_locales, goal_cases)
  case (1 url dg)
  show ?case by (rule im_out_call_spec) (simp add: app_hook_sent_def webhook_posted)
next
  case (2 c dg)
  show ?case by (rule im_out_call_spec) (rule app_channel_sent)
qed (simp_all add: im_searches_def im_search_find_def im_channels_def im_channel_list_def)

interpretation app_account: account_ports "\<lambda>t. t" im_users im_tokens im_audit world_wf im_abs
  by unfold_locales

interpretation app_resource: resource_ports
  "\<lambda>t. t" im_users im_channels im_tokens "im_jobs fadd" im_searches "im_documents F"
  "\<lambda>i name content. im_out (app_embed RT N cfg i name content)" world_wf im_abs fadd "\<lambda>r. r"
  "app_embed_sent RT N cfg"
  for fadd F RT N cfg
  by unfold_locales (rule im_out_call_spec, rule app_embed_sent)

text \<open>The maps keep instants as they are.\<close>

lemmas app_launch_sat = app_launch.launch_sat [unfolded launch_now_same]
lemmas app_rotate_sat = app_account.rotate_sat [unfolded rotate_consumed_same]

end
