(* ===== verification/Background.thy ===== *)
theory Background
  imports Wiring
begin

text \<open>
  The background loop of \<open>main.rs\<close>: one tick of the leader runs the reaper, the scheduler and
  the purges. Every error is logged and the tick goes on; computing a retention cutoff panics
  when the instant cannot be represented, and a panic ends the loop. What the clock says at each
  reading and the ids drawn are the fields of \<open>tick_draw\<close>; \<open>from_std\<close> converts a duration and
  \<open>utc_min\<close> is the earliest instant of the date library.
\<close>

section \<open>The leader lock\<close>

record 's leader_lock =
  ll_acquire :: "'s \<Rightarrow> bool \<times> 's"
  ll_release :: "'s \<Rightarrow> 's"

definition noop_leader_lock :: "'s leader_lock" where
  "noop_leader_lock = \<lparr>ll_acquire = (\<lambda>s. (True, s)), ll_release = (\<lambda>s. s)\<rparr>"

section \<open>One tick\<close>

record tick_draw =
  tk_reap_now :: time
  tk_reap_clock :: "nat \<Rightarrow> time"
  tk_due_now :: time
  tk_due_draws :: "nat \<Rightarrow> due_draw"
  tk_tokens_now :: time
  tk_data_now :: time
  tk_audit_now :: time

datatype tick_panic = DateOverflow

definition minus_days :: "time \<Rightarrow> time \<Rightarrow> int \<Rightarrow> tick_panic + time" where
  "minus_days utc_min now n = (if now - days n < utc_min then Inl DateOverflow else Inr (now - days n))"

definition reaper_timeout :: "app_config \<Rightarrow> std_duration" where
  "reaper_timeout cfg = \<lparr>sd_secs = ac_job_timeout_minutes cfg * 60, sd_nanos = 0\<rparr>"

definition scheduler_quota :: "app_config \<Rightarrow> 32 word" where
  "scheduler_quota cfg = word_of_nat (ac_daily_search_quota cfg)"

definition purge_jobs ::
  "'s job_repo \<Rightarrow> app_config \<Rightarrow> time \<Rightarrow> time \<Rightarrow> ('s, tick_panic, unit) io" where
  "purge_jobs J cfg utc_min now =
     (if 0 < ac_data_retention_days cfg
      then io_bind (io_of (minus_days utc_min now (ac_data_retention_days cfg))) (\<lambda>cutoff.
           io_bind (io_result (jr_delete_finished_before J cutoff)) (\<lambda>_. io_ret ()))
      else io_ret ())"

definition purge_events ::
  "'s audit_port \<Rightarrow> app_config \<Rightarrow> time \<Rightarrow> time \<Rightarrow> ('s, tick_panic, unit) io" where
  "purge_events A cfg utc_min now =
     (if 0 < ac_security_event_retention_days cfg
      then io_bind (io_of (minus_days utc_min now (ac_security_event_retention_days cfg))) (\<lambda>cutoff.
           io_bind (io_result (au_delete_before A cutoff)) (\<lambda>_. io_ret ()))
      else io_ret ())"

definition tick_work ::
  "'s job_repo \<Rightarrow> 's recurring_repo \<Rightarrow> 's token_repo \<Rightarrow> 's audit_port \<Rightarrow> 's job_dispatcher \<Rightarrow>
   app_config \<Rightarrow> (std_duration \<Rightarrow> rstr + int) \<Rightarrow> time \<Rightarrow> tick_draw \<Rightarrow> ('s, tick_panic, unit) io" where
  "tick_work J R T A disp cfg from_std utc_min d =
     io_bind (io_result (fail_stale_jobs J from_std (reaper_timeout cfg) (tk_reap_now d) (tk_reap_clock d))) (\<lambda>_.
     io_bind (io_result (run_due_searches R J disp (scheduler_quota cfg) (tk_due_now d) (tk_due_draws d))) (\<lambda>_.
     io_bind (io_result (tr_delete_expired T (tk_tokens_now d))) (\<lambda>_.
     io_bind (purge_jobs J cfg utc_min (tk_data_now d)) (\<lambda>_.
     purge_events A cfg utc_min (tk_audit_now d)))))"

definition background_tick ::
  "'s leader_lock \<Rightarrow> 's job_repo \<Rightarrow> 's recurring_repo \<Rightarrow> 's token_repo \<Rightarrow> 's audit_port \<Rightarrow>
   's job_dispatcher \<Rightarrow> app_config \<Rightarrow> (std_duration \<Rightarrow> rstr + int) \<Rightarrow> time \<Rightarrow> tick_draw \<Rightarrow>
   ('s, tick_panic, unit) io" where
  "background_tick LL J R T A disp cfg from_std utc_min d s =
     (case ll_acquire LL s of (leads, s1) \<Rightarrow>
        if \<not> leads then (Inr (), s1)
        else
          case tick_work J R T A disp cfg from_std utc_min d s1 of
            (Inl p, s2) \<Rightarrow> (Inl p, s2)
          | (Inr _, s2) \<Rightarrow> (Inr (), ll_release LL s2))"

section \<open>What a tick leaves alone\<close>

text \<open>
  \<open>jobs_kept\<close>: every job is still there, moved along its lifecycle. \<open>tick_frame\<close> adds what a
  tick never writes, and that a token that is still stored is unchanged.
\<close>

definition jobs_kept :: "aworld \<Rightarrow> aworld \<Rightarrow> bool" where
  "jobs_kept w w' \<longleftrightarrow>
     (\<forall>i j. aw_jobs w i = Some j \<longrightarrow> (\<exists>j'. aw_jobs w' i = Some j' \<and> job_step\<^sup>*\<^sup>* j j'))"

definition owned_kept :: "aworld \<Rightarrow> aworld \<Rightarrow> bool" where
  "owned_kept w w' \<longleftrightarrow>
     aw_users w' = aw_users w \<and> aw_channels w' = aw_channels w \<and>
     aw_documents w' = aw_documents w \<and> aw_chunks w' = aw_chunks w \<and>
     dom (aw_recurring w') = dom (aw_recurring w)"

lemma jobs_kept_refl [simp]: "jobs_kept w w"
  by (auto simp: jobs_kept_def)

lemma jobs_kept_trans: "jobs_kept w w1 \<Longrightarrow> jobs_kept w1 w2 \<Longrightarrow> jobs_kept w w2"
  unfolding jobs_kept_def by (meson rtranclp_trans)

lemma owned_kept_refl [simp]: "owned_kept w w"
  by (simp add: owned_kept_def)

lemma owned_kept_trans: "owned_kept w w1 \<Longrightarrow> owned_kept w1 w2 \<Longrightarrow> owned_kept w w2"
  by (simp add: owned_kept_def)

lemma jobs_kept_same: "aw_jobs w' = aw_jobs w \<Longrightarrow> jobs_kept w w'"
  by (auto simp: jobs_kept_def)

lemma jobs_kept_grow: "aw_jobs w \<subseteq>\<^sub>m aw_jobs w' \<Longrightarrow> jobs_kept w w'"
  unfolding jobs_kept_def map_le_def by (metis domI rtranclp.rtrancl_refl)

lemma reaped_kept:
  assumes "reaped err S w w'"
  shows "jobs_kept w w'" and "owned_kept w w'" and "aw_tokens w' = aw_tokens w"
    and "aw_events w' = aw_events w" and "dom (aw_jobs w') = dom (aw_jobs w)"
    and "aw_recurring w' = aw_recurring w"
proof -
  have frame: "w'\<lparr>aw_jobs := aw_jobs w\<rparr> = w" using assms by (simp add: reaped_def)
  have "aw_users (w'\<lparr>aw_jobs := aw_jobs w\<rparr>) = aw_users w'"
    "aw_channels (w'\<lparr>aw_jobs := aw_jobs w\<rparr>) = aw_channels w'"
    "aw_documents (w'\<lparr>aw_jobs := aw_jobs w\<rparr>) = aw_documents w'"
    "aw_chunks (w'\<lparr>aw_jobs := aw_jobs w\<rparr>) = aw_chunks w'"
    "aw_recurring (w'\<lparr>aw_jobs := aw_jobs w\<rparr>) = aw_recurring w'"
    "aw_tokens (w'\<lparr>aw_jobs := aw_jobs w\<rparr>) = aw_tokens w'"
    "aw_events (w'\<lparr>aw_jobs := aw_jobs w\<rparr>) = aw_events w'"
    by simp_all
  then show "owned_kept w w'" "aw_tokens w' = aw_tokens w" "aw_events w' = aw_events w"
    "aw_recurring w' = aw_recurring w"
    unfolding frame by (simp_all add: owned_kept_def)
  have *: "case aw_jobs w i of None \<Rightarrow> aw_jobs w' i = None
      | Some j \<Rightarrow> \<exists>j'. aw_jobs w' i = Some j' \<and> job_step\<^sup>*\<^sup>* j j'" for i
    using assms [unfolded reaped_def, THEN conjunct2, rule_format, of i]
    by (auto split: option.splits if_splits intro: job_step.fail)
  show "jobs_kept w w'" unfolding jobs_kept_def
  proof (intro allI impI)
    fix i j
    assume "aw_jobs w i = Some j"
    with * [of i] show "\<exists>j'. aw_jobs w' i = Some j' \<and> job_step\<^sup>*\<^sup>* j j'" by simp
  qed
  show "dom (aw_jobs w') = dom (aw_jobs w)"
  proof (rule set_eqI)
    fix i
    show "i \<in> dom (aw_jobs w') \<longleftrightarrow> i \<in> dom (aw_jobs w)"
      using * [of i] by (cases "aw_jobs w i") auto
  qed
qed

lemma marked_dom: "dom (map_modify k f m) = dom m"
  by (auto simp: map_modify_def split: option.splits if_splits)

lemma due_step_kept:
  assumes "due_step sent quota now d x w started w'" and "dd_job_id d \<notin> dom (aw_jobs w)"
  shows "jobs_kept w w'" and "owned_kept w w'" and "aw_tokens w' = aw_tokens w"
    and "aw_events w' = aw_events w"
proof -
  show "jobs_kept w w'"
    using due_step_jobs [OF assms(1)] assms(2)
    by (intro jobs_kept_grow) (auto simp: map_le_def)
  have frame: "owned_kept w (mark_search now x (log_calls cs (add_job j w)))"
    "owned_kept w (mark_search now x w)" for cs j
    by (simp_all add: owned_kept_def mark_search_def marked_dom)
  show "owned_kept w w'" "aw_tokens w' = aw_tokens w" "aw_events w' = aw_events w"
    using assms(1) frame by (auto simp: due_step_def Let_def mark_search_def split: if_splits)
qed

lemma due_partial_kept:
  assumes "due_partial quota now d x w w'" and "dd_job_id d \<notin> dom (aw_jobs w)"
  shows "jobs_kept w w'" and "owned_kept w w'" and "aw_tokens w' = aw_tokens w"
    and "aw_events w' = aw_events w"
proof -
  have grow: "jobs_kept w (log_calls cs (add_job j w))" if "job_id j = dd_job_id d" for cs j
    using that assms(2) by (intro jobs_kept_grow) (auto simp: map_le_def)
  show "jobs_kept w w'"
    using assms(1) grow by (auto simp: due_partial_def dest!: recurring_job_new_fields)
  show "owned_kept w w'" "aw_tokens w' = aw_tokens w" "aw_events w' = aw_events w"
    using assms(1) by (auto simp: due_partial_def owned_kept_def)
qed

lemma due_runs_kept:
  "due_runs sent quota now draws k xs w n w' \<Longrightarrow> draws_fresh draws k (length xs) w \<Longrightarrow>
   jobs_kept w w' \<and> owned_kept w w' \<and> aw_tokens w' = aw_tokens w \<and> aw_events w' = aw_events w"
proof (induction rule: due_runs.induct)
  case (nil k w)
  show ?case by simp
next
  case (cons k x w started w1 xs n w2)
  have fresh: "dd_job_id (draws k) \<notin> dom (aw_jobs w)"
    and fresh1: "draws_fresh draws (Suc k) (length xs) w1"
    using draws_fresh_step [where draws = draws and k = k, OF _ cons.hyps(1)] cons.prems by simp_all
  show ?case
    using cons.IH [OF fresh1] due_step_kept [OF cons.hyps(1) fresh]
    by (auto intro: jobs_kept_trans owned_kept_trans)
qed

lemma draws_fresh_runs:
  "due_runs sent quota now draws k xs w n w' \<Longrightarrow> draws_fresh draws k (length xs + m) w \<Longrightarrow>
   draws_fresh draws (k + length xs) m w'"
proof (induction rule: due_runs.induct)
  case (cons k x w started w1 xs n w2)
  have "draws_fresh draws (Suc k) (length xs + m) w1"
    using draws_fresh_step(2) [where draws = draws and k = k, OF _ cons.hyps(1)] cons.prems by simp
  from cons.IH [OF this] show ?case by simp
qed simp

lemma due_outcome_kept:
  assumes out: "due_outcome sent quota now draws 0 0 due w r w'"
    and fresh: "draws_fresh draws 0 (length due) w"
  shows "jobs_kept w w' \<and> owned_kept w w' \<and> aw_tokens w' = aw_tokens w \<and> aw_events w' = aw_events w"
proof (cases r)
  case (Inr n)
  with out have "due_runs sent quota now draws 0 due w n w'" by (simp add: due_outcome_def)
  from due_runs_kept [OF this fresh] show ?thesis .
next
  case (Inl e)
  with out obtain done' x rest n w1 where due: "due = done' @ x # rest"
    and runs: "due_runs sent quota now draws 0 done' w n w1"
    and part: "due_partial quota now (draws (length done')) x w1 w'"
    by (auto simp: due_outcome_def)
  have "draws_fresh draws 0 (length done' + 1) w" and fresh': "draws_fresh draws 0 (length done') w"
    by (rule draws_fresh_mono [OF fresh], simp add: due)+
  then have "draws_fresh draws (length done') 1 w1" using draws_fresh_runs [OF runs, of 1] by simp
  then have "dd_job_id (draws (length done')) \<notin> dom (aw_jobs w1)" by (simp add: draws_fresh_def)
  from due_runs_kept [OF runs fresh'] due_partial_kept [OF part this] show ?thesis
    by (auto intro: jobs_kept_trans owned_kept_trans)
qed

section \<open>What a tick does\<close>

text \<open>
  A job may disappear only when it is a finished one-shot search older than the retention, a
  token only when it has expired, an event only when it is older than its retention.
\<close>

definition tick_outcome :: "app_config \<Rightarrow> tick_draw \<Rightarrow> aworld \<Rightarrow> aworld \<Rightarrow> bool" where
  "tick_outcome cfg d w w' \<longleftrightarrow>
     owned_kept w w' \<and>
     (\<forall>i t. aw_tokens w' i = Some t \<longrightarrow> aw_tokens w i = Some t) \<and>
     (\<forall>i t. aw_tokens w i = Some t \<longrightarrow> aw_tokens w' i = Some t \<or> is_expired (tk_tokens_now d) t) \<and>
     (\<forall>i j. aw_jobs w i = Some j \<longrightarrow>
        (\<exists>j'. job_step\<^sup>*\<^sup>* j j' \<and>
          (aw_jobs w' i = Some j' \<or>
           aw_jobs w' i = None \<and> 0 < ac_data_retention_days cfg \<and>
             purgeable (tk_data_now d - days (ac_data_retention_days cfg)) j'))) \<and>
     (aw_events w' = aw_events w \<or>
      0 < ac_security_event_retention_days cfg \<and>
      aw_events w' =
        filter (\<lambda>e. tk_audit_now d - days (ac_security_event_retention_days cfg) \<le> se_created_at e)
          (aw_events w))"

text \<open>The stages of a tick, in order: after the jobs have run, after the tokens, after the purge of jobs.\<close>

definition ran_jobs :: "aworld \<Rightarrow> aworld \<Rightarrow> bool" where
  "ran_jobs w w' \<longleftrightarrow>
     jobs_kept w w' \<and> owned_kept w w' \<and> aw_tokens w' = aw_tokens w \<and> aw_events w' = aw_events w"

lemma ran_jobs_refl [simp]: "ran_jobs w w"
  by (simp add: ran_jobs_def)

lemma ran_jobs_trans: "ran_jobs w w1 \<Longrightarrow> ran_jobs w1 w2 \<Longrightarrow> ran_jobs w w2"
  by (auto simp: ran_jobs_def intro: jobs_kept_trans owned_kept_trans)

lemma draws_fresh_dom: "dom (aw_jobs w') = dom (aw_jobs w) \<Longrightarrow> draws_fresh draws k n w' = draws_fresh draws k n w"
  by (simp add: draws_fresh_def)

lemma tick_outcomeI:
  assumes ran: "ran_jobs w w1"
    and tokens: "w2 = w1 \<or> w2 = w1\<lparr>aw_tokens := map_keep (\<lambda>_ t. \<not> is_expired (tk_tokens_now d) t) (aw_tokens w1)\<rparr>"
    and jobs: "w3 = w2 \<or> 0 < ac_data_retention_days cfg \<and>
      w3 = drop_jobs (purgeable (tk_data_now d - days (ac_data_retention_days cfg))) w2"
    and events: "w4 = w3 \<or> 0 < ac_security_event_retention_days cfg \<and> w4 = w3\<lparr>aw_events :=
      filter (\<lambda>e. tk_audit_now d - days (ac_security_event_retention_days cfg) \<le> se_created_at e)
        (aw_events w3)\<rparr>"
  shows "tick_outcome cfg d w w4"
proof -
  note kept = ran [unfolded ran_jobs_def]
  have owned: "owned_kept w1 w4"
    using tokens jobs events by (auto simp: owned_kept_def drop_jobs_def)
  have tok: "aw_tokens w4 = aw_tokens w2" "aw_events w3 = aw_events w1" "aw_jobs w4 = aw_jobs w3"
    "aw_jobs w2 = aw_jobs w1"
    using tokens jobs events by (auto simp: drop_jobs_def)
  have job: "\<exists>j'. job_step\<^sup>*\<^sup>* j j' \<and> (aw_jobs w4 i = Some j' \<or> aw_jobs w4 i = None \<and>
      0 < ac_data_retention_days cfg \<and> purgeable (tk_data_now d - days (ac_data_retention_days cfg)) j')"
    if j: "aw_jobs w i = Some j" for i j
  proof -
    from kept j obtain j' where j': "aw_jobs w1 i = Some j'" "job_step\<^sup>*\<^sup>* j j'"
      unfolding jobs_kept_def by blast
    with jobs tok(3,4) show ?thesis
      by (intro exI [of _ j']) (auto simp: drop_jobs_def map_keep_def split: if_splits)
  qed
  show ?thesis
    unfolding tick_outcome_def
    using kept owned tok tokens events job
    by (intro conjI allI impI) (auto intro: owned_kept_trans)
qed

lemma sat_bind_result_sat:
  assumes "sat invar \<alpha> m w P" and "\<And>r w'. P r w' \<Longrightarrow> sat invar \<alpha> (f r) w' Q"
  shows "sat invar \<alpha> (io_bind (io_result m) f) w Q"
  by (rule sat_bind, rule sat_result, rule sat_conseq [OF assms(1)]) (simp add: assms(2))

text \<open>The instants of a tick as the store compares them.\<close>

definition tick_seen :: "(time \<Rightarrow> time) \<Rightarrow> tick_draw \<Rightarrow> tick_draw" where
  "tick_seen prec d =
     d\<lparr>tk_tokens_now := prec (tk_tokens_now d), tk_data_now := prec (tk_data_now d),
       tk_audit_now := prec (tk_audit_now d)\<rparr>"

lemma tick_seen_exact [simp]: "tick_seen (\<lambda>t. t) d = d"
  by (simp add: tick_seen_def)

lemma tick_seen_fields [simp]:
  "tk_tokens_now (tick_seen prec d) = prec (tk_tokens_now d)"
  "tk_data_now (tick_seen prec d) = prec (tk_data_now d)"
  "tk_audit_now (tick_seen prec d) = prec (tk_audit_now d)"
  by (simp_all add: tick_seen_def)

locale tick_ports = run_due_ports prec R J disp invar \<alpha> fadd stored sent + token_port prec T invar \<alpha> +
    audit_log prec A invar \<alpha>
  for prec :: "time \<Rightarrow> time" and R :: "'s recurring_repo" and J :: "'s job_repo" and disp :: "'s job_dispatcher"
    and invar :: "'s \<Rightarrow> bool" and \<alpha> :: "'s \<Rightarrow> aworld" and fadd :: "f64 \<Rightarrow> f64 \<Rightarrow> f64"
    and stored :: "search_result \<Rightarrow> search_result"
    and sent :: "research_job \<Rightarrow> rstr list \<Rightarrow> port_error + unit \<Rightarrow> outcall list \<Rightarrow> bool"
    and T :: "'s token_repo" and A :: "'s audit_port"
begin

lemma reaper_kept:
  "sat invar \<alpha> (fail_stale_jobs J from_std timeout now clock) w
     (\<lambda>_ w'. ran_jobs w w' \<and> dom (aw_jobs w') = dom (aw_jobs w) \<and> aw_recurring w' = aw_recurring w)"
proof (cases "from_std timeout")
  case (Inl e)
  then show ?thesis by (simp add: fail_stale_jobs_def sat_throw)
next
  case (Inr dur)
  show ?thesis
    by (rule sat_conseq [OF fail_stale_sat [of from_std, OF Inr]])
      (elim exE bexE conjE, simp only: ran_jobs_def reaped_kept simp_thms)
qed

lemma scheduler_kept:
  assumes fresh: "due_draws_fresh draws w"
  shows "sat invar \<alpha> (run_due_searches R J disp quota now draws) w (\<lambda>_ w'. ran_jobs w w')"
  by (rule sat_conseq [OF run_due_sat [OF fresh]])
    (use due_outcome_kept in \<open>auto simp: ran_jobs_def\<close>)

lemma purge_jobs_sat:
  "sat invar \<alpha> (purge_jobs J cfg utc_min now) w
     (\<lambda>r w'. w' = w \<or> 0 < ac_data_retention_days cfg \<and>
        w' = drop_jobs (purgeable (prec now - days (ac_data_retention_days cfg))) w)"
  unfolding purge_jobs_def
  by (intro sat_flow sat_bind_result_port [OF job_purge])
    (auto simp: minus_days_def prec_units split: if_splits)

lemma purge_events_sat:
  "sat invar \<alpha> (purge_events A cfg utc_min now) w
     (\<lambda>r w'. w' = w \<or> 0 < ac_security_event_retention_days cfg \<and> w' = w\<lparr>aw_events :=
        filter (\<lambda>e. prec now - days (ac_security_event_retention_days cfg) \<le> se_created_at e) (aw_events w)\<rparr>)"
  unfolding purge_events_def
  by (intro sat_flow sat_bind_result_port [OF audit_purge])
    (auto simp: minus_days_def prec_units split: if_splits)

lemma tick_work_sat:
  assumes fresh: "due_draws_fresh (tk_due_draws d) w"
  shows "sat invar \<alpha> (tick_work J R T A disp cfg from_std utc_min d) w (\<lambda>_ w'. tick_outcome cfg (tick_seen prec d) w w')"
  unfolding tick_work_def
proof (rule sat_bind_result_sat [OF reaper_kept])
  fix r0 :: "port_error + nat" and w0
  assume w0: "ran_jobs w w0 \<and> dom (aw_jobs w0) = dom (aw_jobs w) \<and> aw_recurring w0 = aw_recurring w"
  then have fresh0: "due_draws_fresh (tk_due_draws d) w0"
    using fresh draws_fresh_dom unfolding due_draws_fresh_def by metis
  show "sat invar \<alpha> (io_bind (io_result (run_due_searches R J disp (scheduler_quota cfg) (tk_due_now d)
      (tk_due_draws d))) (\<lambda>_. io_bind (io_result (tr_delete_expired T (tk_tokens_now d)))
      (\<lambda>_. io_bind (purge_jobs J cfg utc_min (tk_data_now d)) (\<lambda>_. purge_events A cfg utc_min (tk_audit_now d)))))
      w0 (\<lambda>_ w'. tick_outcome cfg (tick_seen prec d) w w')"
  proof (rule sat_bind_result_sat [OF scheduler_kept [OF fresh0]])
    fix r1 :: "port_error + nat" and w1
    assume "ran_jobs w0 w1"
    with w0 have w1: "ran_jobs w w1" by (blast intro: ran_jobs_trans)
    have last: "sat invar \<alpha> (io_bind (purge_jobs J cfg utc_min (tk_data_now d))
        (\<lambda>_. purge_events A cfg utc_min (tk_audit_now d))) w2 (\<lambda>_ w'. tick_outcome cfg (tick_seen prec d) w w')"
      if w2: "w2 = w1 \<or> w2 = w1\<lparr>aw_tokens := map_keep (\<lambda>_ t. \<not> is_expired (prec (tk_tokens_now d)) t) (aw_tokens w1)\<rparr>"
      for w2
    proof -
      have seen: "w2 = w1 \<or> w2 = w1\<lparr>aw_tokens :=
          map_keep (\<lambda>_ t. \<not> is_expired (tk_tokens_now (tick_seen prec d)) t) (aw_tokens w1)\<rparr>"
        using w2 by simp
      note result = tick_outcomeI [OF w1 seen, unfolded tick_seen_fields]
      show ?thesis
        by (rule sat_bind, rule sat_conseq [OF purge_jobs_sat])
          (auto split: sum.split intro!: sat_conseq [OF purge_events_sat] intro: result)
    qed
    show "sat invar \<alpha> (io_bind (io_result (tr_delete_expired T (tk_tokens_now d)))
        (\<lambda>_. io_bind (purge_jobs J cfg utc_min (tk_data_now d)) (\<lambda>_. purge_events A cfg utc_min (tk_audit_now d))))
        w1 (\<lambda>_ w'. tick_outcome cfg (tick_seen prec d) w w')"
      by (rule sat_bind_result_port [OF token_delete_expired]) (simp_all add: last)
  qed
qed

end

interpretation app_tick: tick_ports
  "\<lambda>t. t" im_searches "im_jobs fadd" "\<lambda>j urls. im_out (app_dispatch RT N cfg j urls)" world_wf im_abs
  fadd "\<lambda>r. r"
  "app_dispatch_sent RT N cfg" im_tokens im_audit
  for fadd RT N cfg
  by unfold_locales

end
