(* ===== verification/Demo.thy ===== *)
theory Demo
  imports Background
begin

text \<open>
  A concrete environment on which the properties are evaluated: an identity hash, an echoing
  network whose names resolve to 8.8.8.8, a development configuration, and small draws.
\<close>

definition demo_runtime :: runtime where
  "demo_runtime =
     \<lparr>rt_lower = (\<lambda>s. s), rt_sha256 = map (\<lambda>b. b mod 256),
      rt_uuid_display = (\<lambda>u. show_nat (unat u)), rt_uuid_simple = (\<lambda>u. show_nat (unat u))\<rparr>"

definition demo_net :: net where
  "demo_net =
     \<lparr>net_host = (\<lambda>url. Inr (Some url)), net_target = (\<lambda>rq. Inr (rq_url rq)),
      net_literal = (\<lambda>host. if host = lit ''169.254.169.254'' then Some (V4 0xA9FEA9FE) else None),
      net_lookup = (\<lambda>h host. if host = lit ''169.254.169.254'' then Inr [V4 0xA9FEA9FE]
                              else Inr [V4 0x08080808]),
      net_send = (\<lambda>h rq. Inr 200), net_status_text = show_nat, net_ip_text = (\<lambda>ip. []),
      net_trace = [], net_json_bytes = (\<lambda>j. []), net_hmac = (\<lambda>k m. []),
      net_time_text = (\<lambda>t. []), net_mailbox = (\<lambda>a. None), net_mail_build = (\<lambda>a b c. None),
      net_mail = (\<lambda>h a b c. None)\<rparr>"

definition demo_config :: app_config where
  "demo_config =
     \<lparr>ac_jwt_secret = lit ''insecure-dev-secret'', ac_internal_token = lit ''change-me'',
      ac_agent_api_url = None, ac_database_url = None, ac_job_timeout_minutes = 15,
      ac_database_max_connections = 10, ac_scheduler_tick_seconds = 60, ac_daily_search_quota = 20,
      ac_rate_limits = rate_limit_config_default, ac_refresh_token_days = 30,
      ac_bind_addr = lit ''0.0.0.0:8000'', ac_digest_signing_secret = None,
      ac_digest_allow_private_webhooks = False, ac_security_event_retention_days = 90,
      ac_data_retention_days = 0, ac_smtp = None, ac_warnings = []\<rparr>"

definition demo_hasher :: password_hasher where
  "demo_hasher = \<lparr>ph_hash = (\<lambda>salt pw. Inr (salt @ pw)), ph_verify = (\<lambda>pw h. suffix pw h)\<rparr>"

definition demo_tokens :: token_service where
  "demo_tokens =
     \<lparr>ts_issue = (\<lambda>t u. Inr (show_nat (unat u))),
      ts_verify = (\<lambda>t tok. if tok = show_nat 7 then Some 7 else None)\<rparr>"

definition demo_launch :: launch_draw where
  "demo_launch = \<lparr>ld_now = 0, ld_job_id = 1, ld_created = 0, ld_failed = 0\<rparr>"

definition demo_due :: "nat \<Rightarrow> due_draw" where
  "demo_due k = \<lparr>dd_job_id = word_of_nat k, dd_created = 0, dd_failed = 0\<rparr>"

definition demo_token_draw :: token_draw where
  "demo_token_draw = \<lparr>td_first = 3, td_second = 4, td_now = 0, td_id = 5\<rparr>"

definition demo_float :: f32_ops where
  "demo_float = \<lparr>f_mul = (\<lambda>x y. x), f_div = (\<lambda>x y. x), f_sqrt = (\<lambda>x. x), f_sum = (\<lambda>xs. 0)\<rparr>"

lemma im_abs_empty [simp]:
  "aw_users (im_abs empty_world) = Map.empty" "aw_channels (im_abs empty_world) = Map.empty"
  "aw_tokens (im_abs empty_world) = Map.empty" "aw_jobs (im_abs empty_world) = Map.empty"
  "aw_recurring (im_abs empty_world) = Map.empty" "aw_documents (im_abs empty_world) = Map.empty"
  by (simp_all add: im_abs_def empty_world_def)

lemma empty_world_simps [simp]:
  "m_users empty_world = []" "m_channels empty_world = []" "m_tokens empty_world = []"
  "m_jobs empty_world = []" "m_results empty_world = []" "m_steps empty_world = []"
  "m_searches empty_world = []" "m_events empty_world = []" "m_documents empty_world = []"
  "m_chunks empty_world = []" "m_calls empty_world = []"
  by (simp_all add: empty_world_def)

text \<open>The job that user 7 creates for the keyword \<open>go\<close>, and a world that holds it.\<close>

definition demo_job :: research_job where
  "demo_job =
     \<lparr>job_id = 1, job_user_id = 7, job_keyword = [103, 111], job_mode = Workflow,
      job_status = Pending, job_error = None, job_question = None, job_answer = None,
      job_recurring_search_id = None, job_usage = job_usage_default, job_created_at = 0,
      job_completed_at = None\<rparr>"

lemma demo_job_new: "research_job_new 1 0 7 [32, 103, 111] = Inr demo_job"
  by (simp add: research_job_new_def Let_def trim_def is_whitespace_def MAX_KEYWORD_LEN_def
      demo_job_def default_mode_def now_utc_def)

definition demo_world :: world where
  "demo_world = empty_world\<lparr>m_jobs := [(1, demo_job)]\<rparr>"

lemma world_wf_demo [simp]: "world_wf demo_world"
  by (simp add: world_wf_def demo_world_def hm_wf_Cons demo_job_def)

lemma world_wf_empty [simp]: "world_wf empty_world"
  by (simp add: world_wf_def empty_world_def)

end
