(* ===== verification/Guarantees_Searches.thy ===== *)
theory Guarantees_Searches
  imports Demo
begin

text \<open>
  The properties of research jobs and recurring searches, stated on the program as \<open>main.rs\<close>
  wires it without a database: in-memory repositories and the adapters of the configuration.
\<close>

section \<open>Facts the proofs share\<close>

lemma record_step_total:
  "record_step (im_jobs fadd) i st s = (r, s') \<Longrightarrow> r = Inr () \<or> r = Inl JobNotFound"
  by (auto simp: record_step_def find_job_def io_defs im_jobs_def im_job_find_def im_append_step_def
      Let_def split: option.splits)

lemma shown_results:
  assumes "mset raw = mset stored"
  shows "mset (sort_by_publication_date raw) = mset stored"
    and "sorted_wrt (\<lambda>a b. sr_published_at b \<le> sr_published_at a) (sort_by_publication_date raw)"
    and "sort_by_publication_date raw =
           filter dated (sort_by_publication_date raw) @ filter (\<lambda>x. \<not> dated x) (sort_by_publication_date raw)"
proof -
  show "mset (sort_by_publication_date raw) = mset stored"
    using assms by (simp add: sort_by_publication_date_desc)
  show sorted: "sorted_wrt (\<lambda>a b. sr_published_at b \<le> sr_published_at a) (sort_by_publication_date raw)"
    by (simp add: sort_by_publication_date_desc sorted_sort_desc)
  show "sort_by_publication_date raw =
      filter dated (sort_by_publication_date raw) @ filter (\<lambda>x. \<not> dated x) (sort_by_publication_date raw)"
    by (rule desc_dated_first [OF sorted])
qed


section \<open>Launching and answering\<close>

text \<open>
  C12. Launching a search ends in one of the five ways its contract lists. Quota and validation
  refusals leave every table as it was; a dispatch failure leaves the job behind as failed, with
  the reason; a launch that succeeds has stored exactly one pending job with the trimmed keyword
  and has posted that job, and nothing else, to the agent.
\<close>

theorem launch_search_correct:
  assumes "world_wf s" and "ld_job_id d \<notin> dom (aw_jobs (im_abs s))"
  shows "case launch_search (im_jobs fadd) (app_disp RT N cfg) quota d user keyword mode s of
           (r, s') \<Rightarrow> world_wf s' \<and>
             launch_outcome (app_dispatch_sent RT N cfg) quota d user keyword mode (im_abs s) r (im_abs s')"
  by (rule sat_case [OF app_launch_sat]) (rule assms)+

lemma launch_search_correct_witness:
  "case launch_search (im_jobs (+)) (app_disp demo_runtime demo_net demo_config) 20 demo_launch 7
          [103, 111] Workflow empty_world of
     (r, s') \<Rightarrow> world_wf s' \<and>
       launch_outcome (app_dispatch_sent demo_runtime demo_net demo_config) 20 demo_launch 7
         [103, 111] Workflow (im_abs empty_world) r (im_abs s')"
  by (rule launch_search_correct) (simp_all add: demo_launch_def)



section \<open>The lifecycle of a job\<close>

text \<open>
  C22. In every state a job can reach from its creation through the operations of the domain, its
  keyword is valid, it has a completion instant exactly when it is finished, an error exactly
  when it failed, a question whenever it waits for an answer, and only trimmed, bounded texts.
\<close>

theorem job_lifecycle_inv:
  assumes "job_reachable job"
  shows "job_inv job"
  by (rule job_reachable_inv [OF assms])

lemma job_lifecycle_inv_witness:
  "job_inv (job_fail 5 (lit ''boom'') (job_start (with_mode Agent
     demo_job)))"
proof -
  from job_reachable.new [OF demo_job_new, of Agent] show ?thesis
    by (intro job_lifecycle_inv job_reachable.step [OF _ job_step.fail]
        job_reachable.step [OF _ job_step.start])
qed

text \<open>
  Finished work stays finished: whatever operations follow, in any order, a completed job
  stays completed, and a failed one never becomes pending, running or waiting again.
\<close>

lemma finished_jobs_stay_finished:
  assumes "job_step\<^sup>*\<^sup>* job job'"
  shows "(job_status job = Completed \<longrightarrow> job_status job' = Completed) \<and>
         (job_is_finished job \<longrightarrow> job_is_finished job')"
  using job_steps_completed [OF assms] job_steps_finished [OF assms] by blast

lemma finished_jobs_stay_finished_witness:
  "job_status (job_fail 9 (lit ''late'') (job_start (job_complete 3 demo_job))) = Completed"
proof -
  let ?job = "job_complete 3 demo_job"
  have "job_step\<^sup>*\<^sup>* ?job (job_fail 9 (lit ''late'') (job_start ?job))"
    by (meson job_step.start job_step.fail rtranclp.rtrancl_into_rtrancl rtranclp.rtrancl_refl)
  from finished_jobs_stay_finished [OF this] show ?thesis by (simp add: job_complete_def)
qed

text \<open>
  A keyword is accepted exactly when its trimmed form has between 1 and 200 characters; the
  refusal names the bound that was missed; the stored keyword is the trimmed one, so that a
  stored keyword is accepted again.
\<close>

theorem research_job_new_spec:
  "research_job_new i t u k =
     (if trim k = [] then Inl EmptyKeyword
      else if 200 < length (trim k) then Inl KeywordTooLong
      else research_job_new i t u (trim k)) \<and>
   (\<forall>job. research_job_new i t u k = Inr job \<longrightarrow>
      job_keyword job = trim k \<and> job_status job = Pending \<and> job_user_id job = u \<and>
      job_created_at job \<le> t \<and> t < job_created_at job + microsecond)"
  using now_utc_le [of t] now_utc_gt [of t]
  by (auto simp: research_job_new_def Let_def MAX_KEYWORD_LEN_def split: if_splits)

lemma research_job_new_spec_witness:
  "job_keyword demo_job = [103, 111] \<and> job_status demo_job = Pending \<and> job_user_id demo_job = 7"
  using research_job_new_spec [of 1 0 7 "[32, 103, 111]"]
  by (simp add: demo_job_new trim_def is_whitespace_def)

section \<open>The background work\<close>



text \<open>
  C28. The reaper fails only jobs that are pending or running and older than the timeout, with
  the timeout as the reason; when it returns, it has failed every such job and reports their
  number. Nothing else in the world changes.
\<close>

theorem fail_stale_jobs_correct:
  assumes "world_wf s" and "from_std timeout = Inr dur"
  shows "case fail_stale_jobs (im_jobs fadd) from_std timeout now clock s of
           (r, s') \<Rightarrow> world_wf s' \<and>
             (\<exists>S \<subseteq> {j \<in> ran (aw_jobs (im_abs s)). stale (now - dur) j}.
                reaped (timeout_error timeout) S (im_abs s) (im_abs s') \<and>
                (\<forall>n. r = Inr n \<longrightarrow>
                   S = {j \<in> ran (aw_jobs (im_abs s)). stale (now - dur) j} \<and> n = card S))"
  by (rule sat_case [OF app_launch.fail_stale_sat [where from_std = from_std, OF assms(2)] assms(1)])

lemma fail_stale_jobs_correct_witness:
  "case fail_stale_jobs (im_jobs (+)) (\<lambda>d. Inr (int (sd_secs d) * second)) \<lparr>sd_secs = 60, sd_nanos = 0\<rparr>
          (61 * second) (\<lambda>_. 61 * second) demo_world of
     (r, s') \<Rightarrow> world_wf s' \<and>
       (\<exists>S \<subseteq> {j \<in> ran (aw_jobs (im_abs demo_world)). stale (61 * second - 60 * second) j}.
          reaped (timeout_error \<lparr>sd_secs = 60, sd_nanos = 0\<rparr>) S (im_abs demo_world) (im_abs s') \<and>
          (\<forall>n. r = Inr n \<longrightarrow>
             S = {j \<in> ran (aw_jobs (im_abs demo_world)). stale (61 * second - 60 * second) j} \<and>
             n = card S))"
  by (rule fail_stale_jobs_correct) simp_all

text \<open>
  An answered clarification keeps the creation instant of its job. A reaper tick that comes
  right after the answer, when the question was asked more than the timeout ago, therefore
  includes the resumed job among those it fails, however recent the answer is.
\<close>

lemma answered_job_is_reapable:
  assumes "job_provide_answer answer old = Inr job" and "job_created_at old < now - dur"
  shows "stale (now - dur) job"
  using assms by (auto simp: job_provide_answer_Inr stale_def)

lemma answered_job_is_reapable_witness:
  "stale (61 * second - 60 * second)
     (projr (job_provide_answer [121] (demo_job\<lparr>job_status := AwaitingInput\<rparr>)))"
  by (rule answered_job_is_reapable [where old = "demo_job\<lparr>job_status := AwaitingInput\<rparr>" and answer = "[121]"])
    (simp_all add: job_provide_answer_def Let_def trim_def is_whitespace_def MAX_ANSWER_LEN_def demo_job_def
      second_def)

section \<open>The callbacks of the agent\<close>



text \<open>
  Recording the same journal step twice, as a worker that retries does, leaves the world as
  recording it once does, and both calls succeed or fail together.
\<close>

lemma record_step_idempotent:
  assumes "world_wf s" and "record_step (im_jobs fadd) i st s = (r, s')"
  shows "\<exists>s''. record_step (im_jobs fadd) i st s' = (r, s'') \<and> im_abs s'' = im_abs s'"
proof -
  note run = satD [OF app_ingest.record_step_sat _ refl]
  obtain q u where again: "record_step (im_jobs fadd) i st s' = (q, u)" by fastforce
  have ok: "world_wf s'" and out: "ingest_outcome i (im_abs s) (\<lambda>job w'. w' = add_step i st (im_abs s)) r (im_abs s')"
    using run [OF assms] by simp_all
  have out': "ingest_outcome i (im_abs s') (\<lambda>job w'. w' = add_step i st (im_abs s')) q (im_abs u)"
    using run [OF ok again] by simp
  have jobs: "aw_jobs (im_abs s') = aw_jobs (im_abs s)"
    using out by (auto simp: ingest_outcome_def add_step_def simp del: im_abs_simps
        split: sum.splits ingest_error.splits)
  consider "r = Inl JobNotFound" "aw_jobs (im_abs s) i = None" "im_abs s' = im_abs s"
    | job where "r = Inr ()" "aw_jobs (im_abs s) i = Some job" "im_abs s' = add_step i st (im_abs s)"
    using out record_step_total [OF assms(2)] by (auto simp: ingest_outcome_def simp del: im_abs_simps)
  then have "q = r \<and> im_abs u = im_abs s'"
  proof cases
    case 1
    then show ?thesis
      using out' record_step_total [OF again] jobs
      by (auto simp: ingest_outcome_def simp del: im_abs_simps)
  next
    case 2
    then show ?thesis
      using out' record_step_total [OF again] jobs
      by (auto simp: ingest_outcome_def simp del: im_abs_simps)
  qed
  with again show ?thesis by blast
qed

lemma record_step_idempotent_witness:
  "\<exists>s''. record_step (im_jobs (+)) 1 \<lparr>step_seq = 1, step_kind = [], step_detail = [], step_reason = [],
              step_new_hits = 0\<rparr> (snd (record_step (im_jobs (+)) 1 \<lparr>step_seq = 1, step_kind = [],
              step_detail = [], step_reason = [], step_new_hits = 0\<rparr> demo_world)) = (Inr (), s'') \<and>
         im_abs s'' = im_abs (snd (record_step (im_jobs (+)) 1 \<lparr>step_seq = 1, step_kind = [],
              step_detail = [], step_reason = [], step_new_hits = 0\<rparr> demo_world))"
  by (rule record_step_idempotent [where s = demo_world], simp)
    (simp add: record_step_def find_job_def io_defs im_jobs_def im_job_find_def im_append_step_def
      demo_world_def hm_get_def Let_def)

section \<open>Reading\<close>

text \<open>
  C35. A job is shown to its owner only: to anyone else, and for an unknown id, the answer is the
  same empty one. The owner gets the stored results, each exactly once, those with a date first
  and the most recent on top, those without a date last in their stored order.
\<close>

theorem search_get_correct:
  assumes "world_wf s"
  shows "case search_get (im_jobs fadd) user i s of
           (r, s') \<Rightarrow> world_wf s' \<and> im_abs s' = im_abs s \<and>
             (case r of
                Inl e \<Rightarrow> True
              | Inr None \<Rightarrow> \<forall>job. aw_jobs (im_abs s) i = Some job \<longrightarrow> job_user_id job \<noteq> user
              | Inr (Some (job, rs, steps)) \<Rightarrow>
                  aw_jobs (im_abs s) i = Some job \<and> job_user_id job = user \<and>
                  steps = aw_steps (im_abs s) i \<and> mset rs = mset (aw_results (im_abs s) i) \<and>
                  sorted_wrt (\<lambda>a b. sr_published_at b \<le> sr_published_at a) rs \<and>
                  rs = filter dated rs @ filter (\<lambda>x. \<not> dated x) rs)"
proof -
  have "sat world_wf im_abs (search_get (im_jobs fadd) user i) (im_abs s)
     (\<lambda>r w'. w' = im_abs s \<and>
        (case r of
           Inl e \<Rightarrow> True
         | Inr None \<Rightarrow> \<forall>job. aw_jobs (im_abs s) i = Some job \<longrightarrow> job_user_id job \<noteq> user
         | Inr (Some (job, rs, steps)) \<Rightarrow>
             aw_jobs (im_abs s) i = Some job \<and> job_user_id job = user \<and>
             steps = aw_steps (im_abs s) i \<and> mset rs = mset (aw_results (im_abs s) i) \<and>
             sorted_wrt (\<lambda>a b. sr_published_at b \<le> sr_published_at a) rs \<and>
             rs = filter dated rs @ filter (\<lambda>x. \<not> dated x) rs))"
    (is "sat _ _ _ _ ?Q")
  proof (rule sat_conseq [OF app_resource.search_get_sat], elim conjE)
    fix r :: "port_error + (research_job \<times> search_result list \<times> agent_step list) option" and w'
    assume w': "w' = im_abs s" and r: "case r of Inl e \<Rightarrow> True
         | Inr None \<Rightarrow> \<forall>job. aw_jobs (im_abs s) i = Some job \<longrightarrow> job_user_id job \<noteq> user
         | Inr (Some (job, rs, steps)) \<Rightarrow>
             aw_jobs (im_abs s) i = Some job \<and> job_user_id job = user \<and> steps = aw_steps (im_abs s) i \<and>
             (\<exists>raw. mset raw = mset (aw_results (im_abs s) i) \<and> rs = sort_by_publication_date raw)"
    show "?Q r w'"
    proof (cases "\<exists>job rs steps. r = Inr (Some (job, rs, steps))")
      case True
      then obtain job rs steps where found: "r = Inr (Some (job, rs, steps))" by blast
      with r obtain raw where raw: "mset raw = mset (aw_results (im_abs s) i)"
        and rs: "rs = sort_by_publication_date raw" by auto
      show ?thesis
        unfolding found rs sum.case option.case prod.case
        using r shown_results [OF raw] by (intro conjI w') (simp_all only: found sum.case option.case prod.case)
    next
      case False
      with r w' show ?thesis by (auto split: sum.splits option.splits)
    qed
  qed
  from sat_case [OF this assms] show ?thesis .
qed

lemma search_get_correct_witness:
  "case search_get (im_jobs (+)) 7 1 demo_world of
     (r, s') \<Rightarrow> world_wf s' \<and> im_abs s' = im_abs demo_world \<and>
       (case r of
          Inl e \<Rightarrow> True
        | Inr None \<Rightarrow> \<forall>job. aw_jobs (im_abs demo_world) 1 = Some job \<longrightarrow> job_user_id job \<noteq> 7
        | Inr (Some (job, rs, steps)) \<Rightarrow>
            aw_jobs (im_abs demo_world) 1 = Some job \<and> job_user_id job = 7 \<and>
            steps = aw_steps (im_abs demo_world) 1 \<and> mset rs = mset (aw_results (im_abs demo_world) 1) \<and>
            sorted_wrt (\<lambda>a b. sr_published_at b \<le> sr_published_at a) rs \<and>
            rs = filter dated rs @ filter (\<lambda>x. \<not> dated x) rs)"
  by (rule search_get_correct) simp

end
