(* ===== verification/Guarantees_Accounts.thy ===== *)
theory Guarantees_Accounts
  imports Demo
begin

text \<open>
  The properties of accounts, sessions and what a user owns, stated on the program as
  \<open>main.rs\<close> wires it without a database.
\<close>

section \<open>Facts the proofs share\<close>

lemma rotate_run:
  assumes "world_wf s" and "td_id (rtd_token d) \<notin> dom (aw_tokens (im_abs s))"
    and "rotate_session RT im_tokens S im_audit ttl d presented s = (r, s')"
  shows "world_wf s' \<and> rotate_outcome RT S ttl d presented (im_abs s) r (im_abs s')"
  using satD [OF app_rotate_sat [OF assms(2)] assms(1) refl assms(3)] .

text \<open>After a successful rotation the presented hash belongs to a token that is marked as used.\<close>

lemma rotate_marks:
  assumes ok: "tokens_inv w" and out: "rotate_outcome RT S ttl d presented w (Inr st) w1"
    and fresh: "fresh_hash RT (rtd_token d) w"
  shows "(\<exists>t \<in> ran (aw_tokens w1). rt_token_hash t = token_hash RT presented) \<and>
         (\<forall>t \<in> ran (aw_tokens w1). rt_token_hash t = token_hash RT presented \<longrightarrow> is_consumed t)"
proof -
  from out obtain t where t: "aw_tokens w (rt_id t) = Some t"
    and hash: "rt_token_hash t = token_hash RT presented" and rot: "rotated RT ttl d t w w1"
    by (auto simp: rotate_outcome_def Let_def)
  let ?old = "consume (rtd_consumed d) t" and ?new = "fst (successor RT ttl d t)"
  have ids: "rt_id ?new \<noteq> rt_id t" using fresh t by (auto simp: fresh_hash_def successor_def)
  have w1: "aw_tokens w1 = (aw_tokens w)(rt_id t \<mapsto> ?old, rt_id ?new \<mapsto> ?new)"
    using rot t by (simp add: rotated_def add_token_def consume_token_def)
  then have old: "aw_tokens w1 (rt_id t) = Some ?old" using ids by simp
  have old_hash: "rt_token_hash ?old = token_hash RT presented" using hash by (simp add: consume_def)
  have "is_consumed u" if "u \<in> ran (aw_tokens w1)" "rt_token_hash u = token_hash RT presented" for u
  proof -
    from that(1) obtain j where j: "aw_tokens w1 j = Some u" by (auto simp: ran_def)
    have "j = rt_id t"
      using tokens_inv_hash [OF rotated_inv [OF ok t rot fresh] j old] that(2) old_hash by simp
    with j old have "u = ?old" by simp
    then show ?thesis by (simp add: consume_def is_consumed_def)
  qed
  moreover have "?old \<in> ran (aw_tokens w1)" using old by (rule ranI)
  ultimately show ?thesis using old_hash by blast
qed

text \<open>In memory only the signing of the access token can fail, and only for a live token.\<close>

lemma rotate_infrastructure:
  assumes "world_wf s"
    and "rotate_session RT im_tokens S im_audit ttl d presented s = (Inl (RefreshInfrastructure e), s')"
  shows "\<exists>t \<in> ran (aw_tokens (im_abs s)). rt_token_hash t = token_hash RT presented \<and> \<not> is_consumed t"
proof -
  let ?found = "find (\<lambda>t. rt_token_hash t = token_hash RT presented) (hm_values (m_tokens s))"
  have "\<exists>t. ?found = Some t \<and> \<not> is_consumed t"
    using assms(2)
    by (auto simp: rotate_session_def io_defs im_tokens_def im_find_by_hash_def im_delete_family_def
        im_audit_def im_record_def im_token_delete_def split: option.splits if_splits prod.splits)
  then obtain t where t: "?found = Some t" "\<not> is_consumed t" by blast
  then have "t \<in> set (hm_values (m_tokens s))" "rt_token_hash t = token_hash RT presented"
    by (auto simp: find_Some_iff)
  with t(2) assms(1) show ?thesis by (auto simp: world_wf_def set_hm_values)
qed

lemma rotate_refuses_used:
  assumes wf: "world_wf s" and fresh: "td_id (rtd_token d) \<notin> dom (aw_tokens (im_abs s))"
    and run: "rotate_session RT im_tokens S im_audit ttl d presented s = (r, s')"
    and known: "\<exists>t \<in> ran (aw_tokens (im_abs s)). rt_token_hash t = token_hash RT presented"
    and used: "\<forall>t \<in> ran (aw_tokens (im_abs s)). rt_token_hash t = token_hash RT presented \<longrightarrow> is_consumed t"
  shows "r = Inl InvalidToken"
proof (cases r)
  case (Inl e)
  show ?thesis
  proof (cases e)
    case (RefreshInfrastructure p)
    from rotate_infrastructure [OF wf run [unfolded Inl RefreshInfrastructure]] used show ?thesis by blast
  qed (simp add: Inl)
next
  case (Inr st)
  with rotate_run [OF wf fresh run] obtain t where "aw_tokens (im_abs s) (rt_id t) = Some t"
    "rt_token_hash t = token_hash RT presented" "\<not> is_consumed t"
    by (auto simp: rotate_outcome_def rotated_def Let_def simp del: im_abs_simps)
  with used show ?thesis by (auto intro: ranI)
qed

lemma demo_fresh_hash [simp]: "fresh_hash demo_runtime d (im_abs empty_world)"
  by (simp add: fresh_hash_def)

definition demo_user :: user where
  "demo_user = \<lparr>user_id = 7, user_email = [97, 64, 98], user_password_hash = [112], user_created_at = 0\<rparr>"

definition demo_rotate :: rotate_draw where
  "demo_rotate =
     \<lparr>rtd_event_id = 20, rtd_event_now = 0, rtd_now = 0, rtd_consumed = 0,
      rtd_token = \<lparr>td_first = 30, td_second = 31, td_now = 0, td_id = 32\<rparr>, rtd_access = 0\<rparr>"

definition demo_token :: refresh_token where
  "demo_token = fst (issue demo_runtime 6 demo_token_draw 7 30)"

definition demo_session :: world where
  "demo_session = empty_world\<lparr>m_users := [(7, demo_user)], m_tokens := [(5, demo_token)]\<rparr>"

lemma demo_token_fields [simp]:
  "rt_id demo_token = 5" "rt_family_id demo_token = 6" "rt_user_id demo_token = 7"
  "rt_consumed_at demo_token = None" "is_consumed demo_token = False" "rt_expires_at demo_token = days 30"
  "rt_token_hash demo_token = token_hash demo_runtime (token_plaintext demo_runtime demo_token_draw)"
  by (simp_all add: demo_token_def issue_def issue_in_family_def Let_def demo_token_draw_def
      is_consumed_def now_utc_def)

lemma world_wf_session [simp]: "world_wf demo_session"
  by (simp add: world_wf_def demo_session_def hm_wf_Cons demo_user_def)

lemma demo_session_tokens: "aw_tokens (im_abs demo_session) = [5 \<mapsto> demo_token]"
  by (rule ext) (simp add: demo_session_def hm_get_def)

lemma demo_session_inv: "tokens_inv (im_abs demo_session)"
  by (simp add: tokens_inv_def demo_session_tokens keyed_def del: im_abs_simps)

definition demo_rotate2 :: rotate_draw where
  "demo_rotate2 = demo_rotate\<lparr>rtd_token := \<lparr>td_first = 50, td_second = 51, td_now = 0, td_id = 52\<rparr>\<rparr>"

text \<open>Presenting the token of the demo session.\<close>

definition demo_present :: "rotate_draw \<Rightarrow> world \<Rightarrow> (refresh_error + session_tokens) \<times> world" where
  "demo_present d =
     rotate_session demo_runtime im_tokens demo_tokens im_audit 30 d
       (token_plaintext demo_runtime demo_token_draw)"

lemma demo_rotate_fresh: "fresh_hash demo_runtime (rtd_token demo_rotate) (im_abs demo_session)"
  by (simp add: fresh_hash_def demo_session_tokens demo_rotate_def token_hash_def token_plaintext_def
      demo_runtime_def demo_token_draw_def show_nat.simps utf8_char_def hex_byte_def hex_digit_def
      del: im_abs_simps)

lemma demo_present_value:
  "\<exists>st t. demo_present demo_rotate demo_session =
     (Inr st, demo_session\<lparr>m_tokens := [(5, consume 0 demo_token), (32, t)]\<rparr>)"
  by (simp add: demo_present_def rotate_session_def io_defs im_tokens_def im_find_by_hash_def
      im_mark_consumed_def im_token_insert_def hm_modify_def hm_insert_def hm_values_def
      is_expired_def days_def second_def demo_session_def issue_in_family_def Let_def demo_rotate_def
      demo_tokens_def) (rule exI, rule refl)

lemma demo_present_ok:
  "rotate_session demo_runtime im_tokens demo_tokens im_audit 30 demo_rotate
     (token_plaintext demo_runtime demo_token_draw) demo_session =
   (Inr (projr (fst (demo_present demo_rotate demo_session))), snd (demo_present demo_rotate demo_session))"
  using demo_present_value by (auto simp: demo_present_def)

lemma demo_rotate2_fresh:
  "td_id (rtd_token demo_rotate2) \<notin> dom (aw_tokens (im_abs (snd (demo_present demo_rotate demo_session))))"
  using demo_present_value by (auto simp: demo_rotate2_def hm_get_def)

section \<open>Sessions\<close>

text \<open>
  C27. Presenting a refresh token ends in one of the ways the rotation contract lists: an unknown
  token is refused and nothing changes; a token that was already used is refused and every token
  of its session is deleted, with the event recorded; an expired one is deleted; a live one is
  marked as used and followed by a fresh token of the same session and the same user.
\<close>

theorem rotate_session_correct:
  assumes "world_wf s" and "td_id (rtd_token d) \<notin> dom (aw_tokens (im_abs s))"
  shows "case rotate_session RT im_tokens S im_audit ttl d presented s of
           (r, s') \<Rightarrow> world_wf s' \<and> rotate_outcome RT S ttl d presented (im_abs s) r (im_abs s')"
  by (rule sat_case [OF app_rotate_sat [OF assms(2)] assms(1)])

lemma rotate_session_correct_witness:
  "case rotate_session demo_runtime im_tokens demo_tokens im_audit 30 demo_rotate [1, 2] demo_session of
     (r, s') \<Rightarrow> world_wf s' \<and>
       rotate_outcome demo_runtime demo_tokens 30 demo_rotate [1, 2] (im_abs demo_session) r (im_abs s')"
  by (rule rotate_session_correct) (simp_all add: demo_session_tokens demo_rotate_def del: im_abs_simps)

text \<open>
  C13. Theft detection: if a refresh token was rotated and is presented once more, the second
  presentation is refused and the whole session is revoked. The token the first presentation
  obtained is no longer stored, and no other session has lost a token.
\<close>

theorem replayed_token_revokes_session:
  assumes "world_wf s" and "tokens_inv (im_abs s)" and "fresh_hash RT (rtd_token d) (im_abs s)"
    and "rotate_session RT im_tokens S im_audit ttl d presented s = (Inr st, s1)"
    and "td_id (rtd_token d') \<notin> dom (aw_tokens (im_abs s1))"
    and "rotate_session RT im_tokens S im_audit ttl' d' presented s1 = (r, s2)"
  shows "r = Inl InvalidToken \<and>
         (\<exists>t. aw_tokens (im_abs s) (rt_id t) = Some t \<and> rt_token_hash t = token_hash RT presented \<and>
            aw_tokens (im_abs s2) =
              map_keep (\<lambda>_ u. rt_family_id u \<noteq> rt_family_id t) (aw_tokens (im_abs s1)) \<and>
            token_hash RT (st_refresh_token st) \<notin> rt_token_hash ` ran (aw_tokens (im_abs s2)))"
proof -
  have fresh: "td_id (rtd_token d) \<notin> dom (aw_tokens (im_abs s))"
    using assms(3) by (simp add: fresh_hash_def)
  note out1 = rotate_run [OF assms(1) fresh assms(4)]
  have "rotate_outcome RT S ttl' d' presented (im_abs s1) r (im_abs s2)"
    using rotate_run [OF _ assms(5,6)] out1 by blast
  moreover have "r = Inl InvalidToken"
    using rotate_refuses_used [OF _ assms(5,6)] rotate_marks [OF assms(2) _ assms(3)] out1 by blast
  ultimately show ?thesis
    using rotate_replay [OF assms(2) _ assms(3)] out1 by blast
qed

lemma replayed_token_revokes_session_witness:
  "fst (demo_present demo_rotate2 (snd (demo_present demo_rotate demo_session))) = Inl InvalidToken \<and>
   (\<exists>t. aw_tokens (im_abs demo_session) (rt_id t) = Some t \<and>
      rt_token_hash t = token_hash demo_runtime (token_plaintext demo_runtime demo_token_draw) \<and>
      aw_tokens (im_abs (snd (demo_present demo_rotate2 (snd (demo_present demo_rotate demo_session))))) =
        map_keep (\<lambda>_ u. rt_family_id u \<noteq> rt_family_id t)
          (aw_tokens (im_abs (snd (demo_present demo_rotate demo_session)))) \<and>
      token_hash demo_runtime (st_refresh_token (projr (fst (demo_present demo_rotate demo_session)))) \<notin>
        rt_token_hash ` ran (aw_tokens (im_abs (snd (demo_present demo_rotate2
          (snd (demo_present demo_rotate demo_session)))))))"
  by (rule replayed_token_revokes_session [where S = demo_tokens and ttl = 30 and d = demo_rotate and
        ttl' = 30 and d' = demo_rotate2, OF world_wf_session demo_session_inv demo_rotate_fresh
        demo_present_ok demo_rotate2_fresh])
    (simp add: demo_present_def)

text \<open>
  A session is a chain: rotating and logging in, whatever they return, keep the invariant
  that a stored hash names one token and that a session has at most one token that was not used.
\<close>

theorem sessions_stay_chains:
  assumes "world_wf s" and "tokens_inv (im_abs s)"
    and "fresh_hash RT (rtd_token d) (im_abs s)" and "fresh_hash RT (lgd_token g) (im_abs s)"
    and "\<forall>t \<in> ran (aw_tokens (im_abs s)). rt_family_id t \<noteq> lgd_family g"
  shows "tokens_inv (im_abs (snd (rotate_session RT im_tokens S im_audit ttl d presented s))) \<and>
         tokens_inv (im_abs (snd (login_user RT im_users H S im_tokens ttl g email password s)))"
proof
  have "td_id (rtd_token d) \<notin> dom (aw_tokens (im_abs s))" "td_id (lgd_token g) \<notin> dom (aw_tokens (im_abs s))"
    using assms(3,4) by (simp_all add: fresh_hash_def)
  note rotate = sat_run [OF app_rotate_sat [OF this(1)] assms(1)]
    and login = sat_run [OF app_account.login_sat [OF this(2)] assms(1)]
  show "tokens_inv (im_abs (snd (rotate_session RT im_tokens S im_audit ttl d presented s)))"
    by (rule rotate_outcome_inv [OF rotate [THEN conjunct2] assms(2,3)])
  show "tokens_inv (im_abs (snd (login_user RT im_users H S im_tokens ttl g email password s)))"
    by (rule login_outcome_inv [OF login [THEN conjunct2] assms(2,4,5)])
qed

lemma sessions_stay_chains_witness:
  "tokens_inv (im_abs (snd (rotate_session demo_runtime im_tokens demo_tokens im_audit 30 demo_rotate
     (token_plaintext demo_runtime demo_token_draw) demo_session))) \<and>
   tokens_inv (im_abs (snd (login_user demo_runtime im_users demo_hasher demo_tokens im_tokens 30
     \<lparr>lgd_family = 40, lgd_token = rtd_token demo_rotate, lgd_access = 0\<rparr> [97, 64, 98] [112] demo_session)))"
  by (rule sessions_stay_chains)
    (simp_all add: demo_session_inv demo_rotate_fresh demo_session_tokens del: im_abs_simps)

text \<open>
  Logging out deletes the tokens of the session the presented token belongs to, and only
  those; an unknown token changes nothing. No refresh token of the session works afterwards.
\<close>

lemma revoke_session_correct:
  assumes "world_wf s"
  shows "case revoke_session RT im_tokens presented s of
           (r, s') \<Rightarrow> world_wf s' \<and>
             (case r of
                Inl e \<Rightarrow> im_abs s' = im_abs s
              | Inr _ \<Rightarrow>
                  (im_abs s' = im_abs s \<and>
                   (\<forall>t \<in> ran (aw_tokens (im_abs s)). rt_token_hash t \<noteq> token_hash RT presented)) \<or>
                  (\<exists>t. aw_tokens (im_abs s) (rt_id t) = Some t \<and>
                       rt_token_hash t = token_hash RT presented \<and>
                       im_abs s' = drop_family (rt_family_id t) (im_abs s)))"
  by (rule sat_case [OF app_account.revoke_sat assms])

lemma revoke_session_correct_witness:
  "case revoke_session demo_runtime im_tokens [1] demo_session of
     (r, s') \<Rightarrow> world_wf s' \<and>
       (case r of
          Inl e \<Rightarrow> im_abs s' = im_abs demo_session
        | Inr _ \<Rightarrow>
            (im_abs s' = im_abs demo_session \<and>
             (\<forall>t \<in> ran (aw_tokens (im_abs demo_session)). rt_token_hash t \<noteq> token_hash demo_runtime [1])) \<or>
            (\<exists>t. aw_tokens (im_abs demo_session) (rt_id t) = Some t \<and>
                 rt_token_hash t = token_hash demo_runtime [1] \<and>
                 im_abs s' = drop_family (rt_family_id t) (im_abs demo_session)))"
  by (rule revoke_session_correct) simp

section \<open>Accounts\<close>

text \<open>
  C37. Registration accepts exactly a normalised address with an \<open>@\<close> and at least three bytes, a
  password of at least eight bytes, and an address no account has; the new account stores what
  the hasher returned, never the password, and no two accounts ever share an address.
\<close>

theorem register_user_correct:
  assumes "world_wf s" and "emails_unique (im_abs s)" and "rgd_id d \<notin> dom (aw_users (im_abs s))"
  shows "case register_user RT im_users H d email password s of
           (r, s') \<Rightarrow> world_wf s' \<and> emails_unique (im_abs s') \<and>
             register_outcome RT H d email password (im_abs s) r (im_abs s')"
  using sat_run [OF app_account.register_sat [OF assms(3)] assms(1), of RT H email password]
    register_outcome_unique [OF _ assms(2)]
  by (auto simp: case_prod_beta)

lemma register_user_correct_witness:
  "case register_user demo_runtime im_users demo_hasher \<lparr>rgd_salt = [1], rgd_id = 8, rgd_now = 0\<rparr>
          [97, 64, 99] [112, 112, 112, 112, 112, 112, 112, 112] demo_session of
     (r, s') \<Rightarrow> world_wf s' \<and> emails_unique (im_abs s') \<and>
       register_outcome demo_runtime demo_hasher \<lparr>rgd_salt = [1], rgd_id = 8, rgd_now = 0\<rparr> [97, 64, 99]
         [112, 112, 112, 112, 112, 112, 112, 112] (im_abs demo_session) r (im_abs s')"
  by (rule register_user_correct [OF world_wf_session])
    (simp_all add: emails_unique_def demo_session_def hm_get_def domIff)

text \<open>
  A login succeeds only for a stored account whose hash verifies the password, and then
  stores exactly one token, the first of a fresh session. An unknown address and a wrong password
  are refused with the same error and leave the world unchanged.
\<close>

lemma login_user_correct:
  assumes "world_wf s" and "td_id (lgd_token d) \<notin> dom (aw_tokens (im_abs s))"
  shows "case login_user RT im_users H S im_tokens ttl d email password s of
           (r, s') \<Rightarrow> world_wf s' \<and> login_outcome RT H S ttl d email password (im_abs s) r (im_abs s')"
  by (rule sat_case [OF app_account.login_sat [OF assms(2)] assms(1)])

lemma login_user_correct_witness:
  "case login_user demo_runtime im_users demo_hasher demo_tokens im_tokens 30
          \<lparr>lgd_family = 40, lgd_token = demo_token_draw, lgd_access = 0\<rparr> [97, 64, 98] [112] empty_world of
     (r, s') \<Rightarrow> world_wf s' \<and>
       login_outcome demo_runtime demo_hasher demo_tokens 30
         \<lparr>lgd_family = 40, lgd_token = demo_token_draw, lgd_access = 0\<rparr> [97, 64, 98] [112]
         (im_abs empty_world) r (im_abs s')"
  by (rule login_user_correct) simp_all

end
