(* ===== verification/Guarantees_Resources.thy ===== *)
theory Guarantees_Resources
  imports Demo
begin

text \<open>
  The properties of what a user owns besides jobs: recurring searches, notification channels and
  the knowledge base.
\<close>

section \<open>Recurring searches\<close>

text \<open>
  C29. A user never owns more than 20 recurring searches: creating one is refused at the cap, and
  otherwise stores exactly the validated search, with the trimmed keyword, an interval between a
  minute and a week, and a webhook address that is empty or starts with \<open>http://\<close> or \<open>https://\<close>.
\<close>

theorem recurring_create_correct:
  assumes "world_wf s" and "cap_ok (im_abs s)" and "i \<notin> dom (aw_recurring (im_abs s))"
  shows "case recurring_create im_searches i t u k m n hook s of
           (r, s') \<Rightarrow> world_wf s' \<and> cap_ok (im_abs s') \<and>
             create_outcome i t u k m n hook (im_abs s) r (im_abs s') \<and>
             (\<forall>x. r = Inr x \<longrightarrow> recurring_wf x \<and> rs_user_id x = u \<and> rs_last_run_at x = None)"
proof -
  obtain r s' where run: "recurring_create im_searches i t u k m n hook s = (r, s')" by fastforce
  have out: "world_wf s'" "create_outcome i t u k m n hook (im_abs s) r (im_abs s')"
    using satD [OF app_resource.create_sat [OF assms(3)] assms(1) refl run] by blast+
  have key: "keyed rs_id (aw_recurring (im_abs s))"
    by (rule im_search.recurring_keyed [OF assms(1)])
  have "recurring_wf x \<and> rs_user_id x = u \<and> rs_last_run_at x = None" if "r = Inr x" for x
  proof -
    from out(2) that have new: "recurring_search_new i t u k m n hook = Inr x"
      by (simp add: create_outcome_def Let_def)
    from recurring_search_new_Inr [OF new] show ?thesis by blast
  qed
  with run out create_outcome_cap [OF out(2) assms(2) key assms(3)] show ?thesis by simp
qed

lemma recurring_create_correct_witness:
  "case recurring_create im_searches 3 0 7 [103] Workflow 60 None empty_world of
     (r, s') \<Rightarrow> world_wf s' \<and> cap_ok (im_abs s') \<and>
       create_outcome 3 0 7 [103] Workflow 60 None (im_abs empty_world) r (im_abs s') \<and>
       (\<forall>x. r = Inr x \<longrightarrow> recurring_wf x \<and> rs_user_id x = 7 \<and> rs_last_run_at x = None)"
  by (rule recurring_create_correct) (simp_all add: cap_ok_def owned_searches_def)

text \<open>
  The schedule of a recurring search: it is due at once when it never ran; after a run it is
  due again exactly when its interval has passed since that run, never at the instant of the run
  itself, and once due it stays due until it runs.
\<close>

lemma recurring_schedule:
  assumes "recurring_wf x"
  shows "(rs_last_run_at x = None \<longrightarrow> is_due now x) \<and>
         (is_due now (mark_ran t x) \<longleftrightarrow> t + minutes (int (unat (rs_interval_minutes x))) \<le> now) \<and>
         \<not> is_due t (mark_ran t x) \<and>
         (is_due now x \<and> now \<le> later \<longrightarrow> is_due later x)"
  using not_due_after_mark_ran [OF assms] is_due_mono
  by (intro conjI impI is_due_mark_ran) (simp add: is_due_def, blast+)

definition demo_search :: recurring_search where
  "demo_search =
     \<lparr>rs_id = 3, rs_user_id = 7, rs_keyword = [103], rs_mode = Workflow, rs_interval_minutes = 60,
      rs_webhook_url = None, rs_created_at = 0, rs_last_run_at = None\<rparr>"

lemma demo_search_wf: "recurring_wf demo_search"
  by (simp add: demo_search_def recurring_wf_def valid_keyword_def trim_def is_whitespace_def MAX_KEYWORD_LEN_def)

lemma recurring_schedule_witness:
  "is_due 5 demo_search \<and> \<not> is_due 0 (mark_ran 0 demo_search) \<and>
   \<not> is_due (minutes 59) (mark_ran 0 demo_search) \<and> is_due (minutes 60) (mark_ran 0 demo_search)"
  using recurring_schedule [OF demo_search_wf, of "minutes 60" 0 "minutes 60"]
    recurring_schedule [OF demo_search_wf, of "minutes 59" 0 5] recurring_schedule [OF demo_search_wf, of 5 0 5]
  by (simp add: demo_search_def minutes_def second_def)

section \<open>Notification channels\<close>

text \<open>
  A channel is accepted exactly when its trimmed target has between 1 and 2048 characters,
  its trimmed secret, if any, at most 512, and the kind's own rule holds: an \<open>https://\<close> address
  for Slack, a bot token for Telegram, an address with a name before its first \<open>@\<close> and a dotted
  domain after it for e-mail. What is stored is trimmed.
\<close>

lemma notification_channel_accepts:
  "(\<exists>c. notification_channel_new i t u kind target secret = Inr c) \<longleftrightarrow>
     trim target \<noteq> [] \<and> length (trim target) \<le> 2048 \<and>
     (\<forall>s. trimmed_option secret = Some s \<longrightarrow> length s \<le> 512) \<and>
     (case kind of
        Slack \<Rightarrow> prefix (lit ''https://'') (trim target)
      | Telegram \<Rightarrow> trimmed_option secret \<noteq> None
      | Email \<Rightarrow> \<exists>a d. trim target = a @ 64 # d \<and> 64 \<notin> set a \<and> a \<noteq> [] \<and> 46 \<in> set d \<and> hd d \<noteq> 46)"
  unfolding notification_channel_new_shape kind_check_None email_target_ok_iff
  by (auto simp: MAX_TARGET_LEN_def MAX_SECRET_LEN_def split: channel_kind.splits)

lemma notification_channel_accepts_witness:
  "(\<exists>c. notification_channel_new 1 0 7 Email [97, 64, 98, 46, 99] None = Inr c) \<longleftrightarrow>
     trim [97, 64, 98, 46, 99] \<noteq> [] \<and> length (trim [97, 64, 98, 46, 99]) \<le> 2048 \<and>
     (\<forall>s. trimmed_option None = Some s \<longrightarrow> length s \<le> 512) \<and>
     (\<exists>a d. trim [97, 64, 98, 46, 99] = a @ 64 # d \<and> 64 \<notin> set a \<and> a \<noteq> [] \<and> 46 \<in> set d \<and> hd d \<noteq> 46)"
  using notification_channel_accepts [of 1 0 7 Email "[97, 64, 98, 46, 99]" None] by simp

text \<open>
  The kinds and their wire names correspond one to one: parsing a name gives the kind it is
  the name of, and every other string is refused.
\<close>

theorem channel_kind_roundtrip:
  "channel_kind_parse (channel_kind_as_str k) = Some k \<and>
   (channel_kind_parse v = None \<longleftrightarrow> v \<notin> range channel_kind_as_str)"
  using channel_kind_parse_as_str channel_kind_parse_Some
  by (metis (no_types, lifting) not_None_eq rangeE rangeI)

section \<open>Knowledge base\<close>

text \<open>
  C36. Retrieval for a job only ever returns chunks of documents of the job's owner, each stored
  chunk at most once and at most \<open>k\<close> in all, none for a negative \<open>k\<close>, and changes nothing.
\<close>

theorem retrieve_for_job_correct:
  assumes "world_wf s"
  shows "case retrieve_for_job (im_documents F) (im_jobs fadd) i query k s of
           (r, s') \<Rightarrow> world_wf s' \<and> im_abs s' = im_abs s \<and>
             (case r of
                Inl KnowledgeJobNotFound \<Rightarrow> aw_jobs (im_abs s) i = None
              | Inl e \<Rightarrow> True
              | Inr found \<Rightarrow> \<exists>job cs. aw_jobs (im_abs s) i = Some job \<and> found = map retrieved_of cs \<and>
                  mset cs \<subseteq># {#c \<in># aw_chunks (im_abs s). sc_user_id c = job_user_id job#} \<and>
                  length cs \<le> nat k)"
  by (rule sat_case [OF app_resource.retrieve_sat assms])

lemma retrieve_for_job_correct_witness:
  "case retrieve_for_job (im_documents demo_float) (im_jobs (+)) 1 [] 4 demo_world of
     (r, s') \<Rightarrow> world_wf s' \<and> im_abs s' = im_abs demo_world \<and>
       (case r of
          Inl KnowledgeJobNotFound \<Rightarrow> aw_jobs (im_abs demo_world) 1 = None
        | Inl e \<Rightarrow> True
        | Inr found \<Rightarrow> \<exists>job cs. aw_jobs (im_abs demo_world) 1 = Some job \<and> found = map retrieved_of cs \<and>
            mset cs \<subseteq># {#c \<in># aw_chunks (im_abs demo_world). sc_user_id c = job_user_id job#} \<and>
            length cs \<le> nat 4)"
  by (rule retrieve_for_job_correct) simp

text \<open>
  An upload is refused with nothing stored unless name and content are valid; otherwise the
  document is stored and handed to the agent once. The caller always gets the document as it was
  created, \<open>pending\<close>: after a failed hand-over the stored one says \<open>failed\<close>, with the reason.
\<close>

lemma upload_document_correct:
  assumes "world_wf s" and "i \<notin> dom (aw_documents (im_abs s))"
  shows "case upload_document (im_documents F) (app_emb RT N cfg) i t u name content s of
           (r, s') \<Rightarrow> world_wf s' \<and>
             upload_outcome (app_embed_sent RT N cfg) i t u name content (im_abs s) r (im_abs s')"
  by (rule sat_case [OF app_resource.upload_sat [OF assms(2)] assms(1)])

lemma upload_document_correct_witness:
  "case upload_document (im_documents demo_float) (app_emb demo_runtime demo_net demo_config) 4 0 7
          [110] [99] empty_world of
     (r, s') \<Rightarrow> world_wf s' \<and>
       upload_outcome (app_embed_sent demo_runtime demo_net demo_config) 4 0 7 [110] [99]
         (im_abs empty_world) r (im_abs s')"
  by (rule upload_document_correct) simp_all

text \<open>
  Storing the chunks of a known document makes it ready and adds every chunk under the
  document's name and owner; chunks of other documents stay as they are. An unknown document is
  refused with nothing changed.
\<close>

lemma store_document_chunks_correct:
  assumes "world_wf s"
  shows "case store_document_chunks (im_documents F) i ns s of
           (r, s') \<Rightarrow> world_wf s' \<and> store_chunks_outcome i ns (im_abs s) r (im_abs s')"
  by (rule sat_case [OF app_resource.store_chunks_sat assms])

lemma store_document_chunks_correct_witness:
  "case store_document_chunks (im_documents demo_float) 4 [] demo_world of
     (r, s') \<Rightarrow> world_wf s' \<and> store_chunks_outcome 4 [] (im_abs demo_world) r (im_abs s')"
  by (rule store_document_chunks_correct) simp

end
