(* ===== verification/Rate_Limit.thy ===== *)
theory Rate_Limit
  imports Prelude
begin

text \<open>
  \<open>adapters/http/rate_limit.rs\<close>: the fixed-window limiter, in memory or in Redis. An
  \<open>Instant\<close> is a number of nanoseconds; \<open>duration_since\<close> saturates at zero. The counter is an
  \<open>u32\<close> and wraps. A Redis round trip is the parameter \<open>incr\<close>: the bucket's new count, or an
  error. The lemmas bound what a client gets through in any stretch of time as long as a window.
\<close>

section \<open>The in-memory limiter\<close>

type_synonym hits = "(rstr, int \<times> 32 word) hashmap"

record fixed_window =
  fw_max_per_window :: "32 word"
  fw_window :: int
  fw_hits :: hits

definition fixed_window_per_minute :: "32 word \<Rightarrow> fixed_window" where
  "fixed_window_per_minute max_hits =
     \<lparr>fw_max_per_window = max_hits, fw_window = 60 * second, fw_hits = []\<rparr>"

definition duration_since :: "int \<Rightarrow> int \<Rightarrow> int" where
  "duration_since now start = max 0 (now - start)"

definition allow_at :: "rstr \<Rightarrow> int \<Rightarrow> fixed_window \<Rightarrow> bool \<times> fixed_window" where
  "allow_at key now lim =
     (let hits = hm_retain (\<lambda>_ (start, _). duration_since now start < fw_window lim) (fw_hits lim);
          (start, hit_count) = (case hm_get hits key of None \<Rightarrow> (now, 0) | Some entry \<Rightarrow> entry);
          (start, hit_count) = (if fw_window lim \<le> duration_since now start then (now, 0) else (start, hit_count));
          hit_count = hit_count + 1 in
      (hit_count \<le> fw_max_per_window lim, lim\<lparr>fw_hits := hm_insert key (start, hit_count) hits\<rparr>))"

section \<open>The distributed limiter\<close>

record redis_window =
  rw_max_per_window :: "32 word"
  rw_window_secs :: nat
  rw_scope :: rstr

definition redis_window_per_minute ::
  "(rstr \<Rightarrow> rstr option) \<Rightarrow> rstr \<Rightarrow> 32 word \<Rightarrow> rstr \<Rightarrow> rstr + redis_window" where
  "redis_window_per_minute open_url url max_hits scope =
     (case open_url url of
        Some e \<Rightarrow> Inl (lit ''invalid redis url: '' @ e)
      | None \<Rightarrow> Inr \<lparr>rw_max_per_window = max_hits, rw_window_secs = 60, rw_scope = scope\<rparr>)"

definition redis_bucket :: "redis_window \<Rightarrow> rstr \<Rightarrow> nat \<Rightarrow> rstr" where
  "redis_bucket lim key now_secs =
     lit ''rl:'' @ rw_scope lim @ lit '':'' @ key @ lit '':'' @ show_nat (now_secs div rw_window_secs lim)"

definition redis_try_allow ::
  "(rstr \<Rightarrow> rstr + 32 word) \<Rightarrow> redis_window \<Rightarrow> rstr \<Rightarrow> nat \<Rightarrow> rstr + bool" where
  "redis_try_allow incr lim key now_secs =
     (case incr (redis_bucket lim key now_secs) of
        Inl e \<Rightarrow> Inl e
      | Inr hit_count \<Rightarrow> Inr (hit_count \<le> rw_max_per_window lim))"

definition redis_allow :: "(rstr \<Rightarrow> rstr + 32 word) \<Rightarrow> redis_window \<Rightarrow> rstr \<Rightarrow> nat \<Rightarrow> bool" where
  "redis_allow incr lim key now_secs =
     (case redis_try_allow incr lim key now_secs of Inl e \<Rightarrow> True | Inr allowed \<Rightarrow> allowed)"

datatype limiter = InMemoryLimiter fixed_window | RedisLimiter redis_window

definition limiter_per_minute ::
  "(rstr \<Rightarrow> rstr option) \<Rightarrow> 32 word \<Rightarrow> rstr \<Rightarrow> rstr option \<Rightarrow> limiter" where
  "limiter_per_minute open_url max_hits scope redis_url =
     (case redis_url of
        None \<Rightarrow> InMemoryLimiter (fixed_window_per_minute max_hits)
      | Some url \<Rightarrow>
          (case redis_window_per_minute open_url url max_hits scope of
             Inr lim \<Rightarrow> RedisLimiter lim
           | Inl e \<Rightarrow> InMemoryLimiter (fixed_window_per_minute max_hits)))"

text \<open>The clocks of a hit: the process's monotonic one and the wall clock in seconds.\<close>

definition limiter_allow ::
  "(rstr \<Rightarrow> rstr + 32 word) \<Rightarrow> int \<Rightarrow> nat \<Rightarrow> rstr \<Rightarrow> limiter \<Rightarrow> bool \<times> limiter" where
  "limiter_allow incr now now_secs key lim =
     (case lim of
        InMemoryLimiter fw \<Rightarrow> (case allow_at key now fw of (b, fw') \<Rightarrow> (b, InMemoryLimiter fw'))
      | RedisLimiter rw \<Rightarrow> (redis_allow incr rw key now_secs, lim))"

section \<open>The middleware\<close>

text \<open>
  The parts of a request the limiter reads: the first \<open>X-Forwarded-For\<close> header, if it is a
  valid string, and the address of the peer.
\<close>

record client_info =
  cl_forwarded_for :: "rstr option"
  cl_peer_ip :: "rstr option"

definition client_key :: "client_info \<Rightarrow> rstr" where
  "client_key request =
     (case cl_forwarded_for request of
        Some v \<Rightarrow> trim (hd (split_on 44 v))
      | None \<Rightarrow> (case cl_peer_ip request of Some ip \<Rightarrow> ip | None \<Rightarrow> lit ''unknown''))"

definition too_many_requests :: rstr where
  "too_many_requests = lit ''too many requests, slow down''"

text \<open>The handler runs only when the limiter lets the request through; \<open>Inl\<close> is the 429 response.\<close>

definition rate_limit ::
  "(rstr \<Rightarrow> rstr + 32 word) \<Rightarrow> int \<Rightarrow> nat \<Rightarrow> client_info \<Rightarrow> limiter \<Rightarrow>
   (nat \<times> rstr + unit) \<times> limiter" where
  "rate_limit incr now now_secs request lim =
     (case limiter_allow incr now now_secs (client_key request) lim of
        (allowed, lim') \<Rightarrow> (if \<not> allowed then Inl (429, too_many_requests) else Inr (), lim'))"

section \<open>What gets through\<close>

fun run_hits :: "(rstr \<times> int) list \<Rightarrow> fixed_window \<Rightarrow> bool list \<times> fixed_window" where
  "run_hits [] lim = ([], lim)"
| "run_hits ((key, now) # evs) lim =
     (let (b, lim1) = allow_at key now lim; (bs, lim2) = run_hits evs lim1 in (b # bs, lim2))"

definition admitted :: "rstr \<Rightarrow> (rstr \<times> int) list \<Rightarrow> fixed_window \<Rightarrow> nat" where
  "admitted key evs lim =
     length (filter (\<lambda>((k, _), b). k = key \<and> b) (zip evs (fst (run_hits evs lim))))"

definition asked :: "rstr \<Rightarrow> (rstr \<times> int) list \<Rightarrow> nat" where
  "asked key evs = length (filter (\<lambda>(k, _). k = key) evs)"

definition entry_of :: "fixed_window \<Rightarrow> rstr \<Rightarrow> (int \<times> 32 word) option" where
  "entry_of lim key = hm_get (fw_hits lim) key"

lemma admitted_Nil [simp]: "admitted key [] lim = 0"
  by (simp add: admitted_def)

lemma admitted_Cons:
  "admitted key ((k, t) # evs) lim =
     (if k = key \<and> fst (allow_at k t lim) then 1 else 0) + admitted key evs (snd (allow_at k t lim))"
  by (simp add: admitted_def Let_def split: prod.split)

lemma asked_simps [simp]:
  "asked key [] = 0"
  "asked key ((k, t) # evs) = (if k = key then Suc (asked key evs) else asked key evs)"
  by (simp_all add: asked_def)

definition hits_wf :: "fixed_window \<Rightarrow> bool" where
  "hits_wf lim \<longleftrightarrow> distinct (map fst (fw_hits lim))"

lemma retain_get:
  "distinct (map fst m) \<Longrightarrow> hm_get (hm_retain P m) = map_keep P (hm_get m)"
proof (induction m)
  case Nil
  then show ?case by (auto simp: hm_retain_def map_keep_def)
next
  case (Cons kv m)
  obtain k v where kv: "kv = (k, v)" by (cases kv)
  with Cons.prems have fresh: "map_of m k = None" and d: "distinct (map fst m)"
    by (auto simp: map_of_eq_None_iff)
  have IH: "hm_get (hm_retain P m) x = map_keep P (hm_get m) x" for x
    using Cons.IH [OF d] by simp
  with fresh have none: "hm_get (hm_retain P m) k = None"
    by (simp add: map_keep_def hm_get_def)
  show ?case
  proof
    fix x
    show "hm_get (hm_retain P (kv # m)) x = map_keep P (hm_get (kv # m)) x"
      using IH [of x] none by (cases "x = k") (auto simp: kv hm_retain_def hm_get_def map_keep_def)
  qed
qed

text \<open>One hit, seen through the entries: the entry the key ends up with, and the others.\<close>

definition live :: "fixed_window \<Rightarrow> int \<Rightarrow> int \<times> 32 word \<Rightarrow> bool" where
  "live lim now entry \<longleftrightarrow> duration_since now (fst entry) < fw_window lim"

definition next_entry :: "fixed_window \<Rightarrow> rstr \<Rightarrow> int \<Rightarrow> int \<times> 32 word" where
  "next_entry lim key now =
     (case entry_of lim key of
        Some (start, hit_count) \<Rightarrow> if live lim now (start, hit_count) then (start, hit_count + 1) else (now, 1)
      | None \<Rightarrow> (now, 1))"

lemma allow_at_spec:
  assumes wf: "hits_wf lim"
  shows "fst (allow_at key now lim) \<longleftrightarrow> snd (next_entry lim key now) \<le> fw_max_per_window lim"
    and "entry_of (snd (allow_at key now lim)) =
           (map_keep (\<lambda>_ e. live lim now e) (entry_of lim))(key \<mapsto> next_entry lim key now)"
    and "hits_wf (snd (allow_at key now lim))"
    and "fw_max_per_window (snd (allow_at key now lim)) = fw_max_per_window lim"
    and "fw_window (snd (allow_at key now lim)) = fw_window lim"
proof -
  let ?keep = "\<lambda>_ (start, _). duration_since now start < fw_window lim"
  let ?hits = "hm_retain ?keep (fw_hits lim)"
  have keep: "?keep = (\<lambda>_ e. live lim now e)" by (intro ext) (simp add: live_def split: prod.split)
  have get: "hm_get ?hits = map_keep (\<lambda>_ e. live lim now e) (entry_of lim)"
    using retain_get wf unfolding keep by (simp add: hits_wf_def entry_of_def [abs_def])
  have res: "allow_at key now lim =
      (snd (next_entry lim key now) \<le> fw_max_per_window lim,
       lim\<lparr>fw_hits := hm_insert key (next_entry lim key now) ?hits\<rparr>)"
  proof (cases "entry_of lim key")
    case None
    then show ?thesis
      by (simp add: allow_at_def Let_def get map_keep_def next_entry_def)
  next
    case (Some e)
    then show ?thesis
      by (cases e) (auto simp: allow_at_def Let_def get map_keep_def next_entry_def live_def)
  qed
  show "fst (allow_at key now lim) \<longleftrightarrow> snd (next_entry lim key now) \<le> fw_max_per_window lim"
    "fw_max_per_window (snd (allow_at key now lim)) = fw_max_per_window lim"
    "fw_window (snd (allow_at key now lim)) = fw_window lim"
    by (simp_all add: res)
  show "entry_of (snd (allow_at key now lim)) =
      (map_keep (\<lambda>_ e. live lim now e) (entry_of lim))(key \<mapsto> next_entry lim key now)"
    by (simp add: res entry_of_def [abs_def] hm_get_insert get)
  have "distinct (map fst ?hits)"
    using wf by (simp add: hits_wf_def hm_retain_def distinct_map_filter)
  then show "hits_wf (snd (allow_at key now lim))"
    by (simp add: res hits_wf_def hm_insert_def AList.distinct_update)
qed

text \<open>
  Hits whose times all lie in one window's length. \<open>room\<close> is what the entry of a key leaves of
  the limit. An entry that started in the stretch stays live throughout it.
\<close>

definition within :: "int \<Rightarrow> fixed_window \<Rightarrow> (rstr \<times> int) list \<Rightarrow> bool" where
  "within a lim evs \<longleftrightarrow> (\<forall>(k, t) \<in> set evs. a \<le> t \<and> t < a + fw_window lim)"

definition limit_of :: "fixed_window \<Rightarrow> nat" where
  "limit_of lim = unat (fw_max_per_window lim)"

definition counts_below :: "nat \<Rightarrow> fixed_window \<Rightarrow> bool" where
  "counts_below n lim \<longleftrightarrow> (\<forall>k start c. entry_of lim k = Some (start, c) \<longrightarrow> unat c \<le> n)"

definition spare :: "fixed_window \<Rightarrow> rstr \<Rightarrow> nat" where
  "spare lim key =
     (case entry_of lim key of None \<Rightarrow> limit_of lim | Some (start, c) \<Rightarrow> limit_of lim - unat c)"

lemma within_simps [simp]:
  "within a lim []"
  "within a lim ((k, t) # evs) \<longleftrightarrow> a \<le> t \<and> t < a + fw_window lim \<and> within a lim evs"
  by (auto simp: within_def)

lemma unat_Suc: "unat c \<le> n \<Longrightarrow> n < 2 ^ 32 - 1 \<Longrightarrow> unat (c + 1) = unat c + 1" for c :: "32 word"
  by (subst unat_plus_simple [THEN iffD1]) (simp_all add: no_olen_add_nat)

lemma allow_at_window [simp]:
  "hits_wf lim \<Longrightarrow> within a (snd (allow_at k t lim)) evs = within a lim evs"
  "hits_wf lim \<Longrightarrow> limit_of (snd (allow_at k t lim)) = limit_of lim"
  by (simp_all add: within_def limit_of_def allow_at_spec)

lemma allow_at_counts:
  assumes wf: "hits_wf lim" and below: "counts_below n lim" and small: "n < 2 ^ 32 - 1"
  shows "counts_below (Suc n) (snd (allow_at k t lim))"
  unfolding counts_below_def
proof (intro allI impI)
  fix k' start c
  assume "entry_of (snd (allow_at k t lim)) k' = Some (start, c)"
  then consider "k' = k" "next_entry lim k t = (start, c)" | "entry_of lim k' = Some (start, c)"
    by (auto simp: allow_at_spec [OF wf] split: if_splits)
  then show "unat c \<le> Suc n"
  proof cases
    case 1
    then show ?thesis
      using below small unat_Suc [of _ n]
      by (auto simp: next_entry_def counts_below_def split: option.splits if_splits)
  next
    case 2
    with below show ?thesis by (force simp: counts_below_def)
  qed
qed

text \<open>A window that opened in the stretch admits exactly what its room allows.\<close>

lemma admitted_open_window:
  "hits_wf lim \<Longrightarrow> within a lim evs \<Longrightarrow> counts_below n lim \<Longrightarrow> n + length evs < 2 ^ 32 \<Longrightarrow>
   (\<And>start c. entry_of lim key = Some (start, c) \<Longrightarrow> a \<le> start) \<Longrightarrow>
   admitted key evs lim = min (spare lim key) (asked key evs)"
proof (induction evs arbitrary: lim n)
  case Nil
  then show ?case by simp
next
  case (Cons ev evs)
  obtain k t where ev: "ev = (k, t)" by fastforce
  let ?lim = "snd (allow_at k t lim)"
  note spec = allow_at_spec [OF Cons.prems(1)]
  have t: "a \<le> t" "t < a + fw_window lim" and rest: "within a lim evs"
    using Cons.prems(2) by (simp_all add: ev)
  have live: "live lim t (start, c)" if "a \<le> start" for start c
    using t that by (simp add: live_def duration_since_def)
  have small: "n < 2 ^ 32 - 1" using Cons.prems(4) by simp
  have next_start: "a \<le> fst (next_entry lim k t)" if "k = key"
    using that Cons.prems(5) t by (auto simp: next_entry_def split: option.splits)
  have IH: "admitted key evs ?lim = min (spare ?lim key) (asked key evs)"
  proof (rule Cons.IH [where n = "Suc n"])
    show "counts_below (Suc n) ?lim" by (rule allow_at_counts [OF Cons.prems(1,3) small])
    show "within a ?lim evs" using rest Cons.prems(1) by simp
    show "a \<le> start" if "entry_of ?lim key = Some (start, c)" for start c
      using that Cons.prems(5) next_start by (auto simp: spec split: if_splits)
  qed (use Cons.prems(4) spec in auto)
  show ?case
  proof (cases "k = key")
    case False
    have "entry_of ?lim key = entry_of lim key"
      using False Cons.prems(5) live by (auto simp: spec map_keep_def split: option.splits)
    then have "spare ?lim key = spare lim key"
      using Cons.prems(1) by (simp add: spare_def split: option.split)
    with False IH show ?thesis by (simp add: ev admitted_Cons)
  next
    case True
    let ?used = "case entry_of lim key of None \<Rightarrow> 0 | Some (start, c) \<Rightarrow> unat c"
    have one: "unat (snd (next_entry lim key t)) = ?used + 1"
      using Cons.prems(3,5) live small unat_Suc [of _ n]
      by (auto simp: next_entry_def counts_below_def split: option.splits)
    have spare: "spare lim key = limit_of lim - ?used"
      by (simp add: spare_def split: option.split)
    have spare': "spare ?lim key = limit_of lim - unat (snd (next_entry lim key t))"
      using True Cons.prems(1) by (simp add: spare_def spec split: prod.splits)
    have ok: "fst (allow_at key t lim) \<longleftrightarrow> unat (snd (next_entry lim key t)) \<le> limit_of lim"
      using spec True by (simp add: limit_of_def word_le_nat_alt)
    show ?thesis
      using IH ok spare' unfolding spare one ev admitted_Cons asked_simps
      by (cases "fst (allow_at key t lim)") (simp_all add: True)
  qed
qed

text \<open>Any state: at most the rest of the window under way and one more.\<close>

lemma admitted_any_window:
  "hits_wf lim \<Longrightarrow> within a lim evs \<Longrightarrow> counts_below n lim \<Longrightarrow> n + length evs < 2 ^ 32 \<Longrightarrow>
   admitted key evs lim \<le> spare lim key + limit_of lim"
proof (induction evs arbitrary: lim n)
  case Nil
  then show ?case by simp
next
  case (Cons ev evs)
  obtain k t where ev: "ev = (k, t)" by fastforce
  let ?lim = "snd (allow_at k t lim)"
  note spec = allow_at_spec [OF Cons.prems(1)]
  have t: "a \<le> t" and rest: "within a lim evs" using Cons.prems(2) by (simp_all add: ev)
  have small: "n < 2 ^ 32 - 1" using Cons.prems(4) by simp
  have later: "admitted key evs ?lim \<le> spare ?lim key + limit_of lim"
    using Cons.IH [of ?lim "Suc n"] allow_at_counts [OF Cons.prems(1,3) small, of k t] rest
      Cons.prems(1,4) spec(3) by simp
  show ?case
  proof (cases "\<exists>start c. entry_of lim key = Some (start, c) \<and> live lim t (start, c)")
    case True
    then obtain start c where e: "entry_of lim key = Some (start, c)" "live lim t (start, c)" by blast
    have c: "unat (c + 1) = unat c + 1"
      using Cons.prems(3) e(1) small unat_Suc [of c n] by (auto simp: counts_below_def)
    show ?thesis
    proof (cases "k = key")
      case False
      then have "spare ?lim key = spare lim key"
        using e Cons.prems(1) by (simp add: spare_def spec map_keep_def)
      with later False show ?thesis by (simp add: ev admitted_Cons)
    next
      case True
      then have "next_entry lim k t = (start, c + 1)" using e by (simp add: next_entry_def)
      then have "spare ?lim key = limit_of lim - (unat c + 1)"
        and "fst (allow_at k t lim) \<longleftrightarrow> unat c + 1 \<le> limit_of lim"
        using True Cons.prems(1) c by (simp_all add: spare_def spec limit_of_def word_le_nat_alt)
      with later True e show ?thesis by (auto simp: ev admitted_Cons spare_def)
    qed
  next
    case stale: False
    text \<open>The old entry plays no part any more: count from a window that opens now.\<close>
    have new: "next_entry lim key t = (t, 1)"
      using stale by (auto simp: next_entry_def split: option.splits)
    show ?thesis
    proof (cases "k = key")
      case True
      have "admitted key evs ?lim = min (spare ?lim key) (asked key evs)"
      proof (rule admitted_open_window [where n = "Suc n" and a = a])
        show "counts_below (Suc n) ?lim" by (rule allow_at_counts [OF Cons.prems(1,3) small])
        show "a \<le> start" if "entry_of ?lim key = Some (start, c)" for start c
          using that True new t by (simp add: spec)
      qed (use rest Cons.prems(1,4) spec in auto)
      moreover have "spare ?lim key = limit_of lim - 1"
        using True new Cons.prems(1) by (simp add: spare_def spec)
      moreover have "fst (allow_at k t lim) \<longleftrightarrow> 1 \<le> limit_of lim"
        using True new by (simp add: spec limit_of_def word_le_nat_alt)
      ultimately show ?thesis using True by (auto simp: ev admitted_Cons)
    next
      case False
      have none: "entry_of ?lim key = None"
        using False stale by (auto simp: spec map_keep_def split: option.splits)
      have "admitted key evs ?lim = min (spare ?lim key) (asked key evs)"
      proof (rule admitted_open_window [where n = "Suc n" and a = a])
        show "counts_below (Suc n) ?lim" by (rule allow_at_counts [OF Cons.prems(1,3) small])
      qed (use none rest Cons.prems(1,4) spec in auto)
      moreover have "spare ?lim key = limit_of lim" using none Cons.prems(1) by (simp add: spare_def)
      ultimately show ?thesis using False by (auto simp: ev admitted_Cons)
    qed
  qed
qed

lemma snd_run_hits_Cons:
  "snd (run_hits ((k, t) # evs) lim) = snd (run_hits evs (snd (allow_at k t lim)))"
  by (simp add: Let_def split: prod.split)

lemma run_hits_append:
  "snd (run_hits (evs @ evs') lim) = snd (run_hits evs' (snd (run_hits evs lim)))"
  by (induction evs arbitrary: lim) (auto simp: snd_run_hits_Cons simp del: run_hits.simps(2))

lemma run_hits_state:
  "hits_wf lim \<Longrightarrow> counts_below n lim \<Longrightarrow> n + length evs < 2 ^ 32 \<Longrightarrow>
   hits_wf (snd (run_hits evs lim)) \<and> counts_below (n + length evs) (snd (run_hits evs lim)) \<and>
   fw_max_per_window (snd (run_hits evs lim)) = fw_max_per_window lim \<and>
   fw_window (snd (run_hits evs lim)) = fw_window lim"
proof (induction evs arbitrary: lim n)
  case Nil
  then show ?case by simp
next
  case (Cons ev evs)
  obtain k t where ev: "ev = (k, t)" by fastforce
  let ?lim = "snd (allow_at k t lim)"
  note spec = allow_at_spec [OF Cons.prems(1)]
  have "counts_below (Suc n) ?lim"
    by (rule allow_at_counts [OF Cons.prems(1,2)]) (use Cons.prems(3) in simp)
  from Cons.IH [OF spec(3) this] Cons.prems(3) spec(4,5) show ?case
    by (simp add: ev snd_run_hits_Cons del: run_hits.simps(2))
qed

lemma fresh_limiter [simp]:
  "hits_wf (fixed_window_per_minute m)" "counts_below 0 (fixed_window_per_minute m)"
  "limit_of (fixed_window_per_minute m) = unat m" "spare (fixed_window_per_minute m) key = unat m"
  "entry_of (fixed_window_per_minute m) key = None"
  by (simp_all add: hits_wf_def counts_below_def limit_of_def spare_def entry_of_def
      fixed_window_per_minute_def)

lemma any_window_bound:
  assumes "length before + length evs < 2 ^ 32"
    and "within a (fixed_window_per_minute m) evs"
  shows "admitted key evs (snd (run_hits before (fixed_window_per_minute m))) \<le> 2 * unat m"
proof -
  let ?lim = "snd (run_hits before (fixed_window_per_minute m))"
  have st: "hits_wf ?lim" "counts_below (length before) ?lim" "limit_of ?lim = unat m"
    "fw_window ?lim = fw_window (fixed_window_per_minute m)"
    using run_hits_state [OF fresh_limiter(1) fresh_limiter(2), of before m] assms(1)
    by (simp_all add: limit_of_def) (simp add: fixed_window_per_minute_def)
  have "within a ?lim evs" using assms(2) st(4) by (simp add: within_def)
  from admitted_any_window [OF st(1) this st(2) assms(1), of key]
  have "admitted key evs ?lim \<le> spare ?lim key + unat m" using st(3) by simp
  moreover have "spare ?lim key \<le> unat m"
    using st(3) by (simp add: spare_def split: option.split)
  ultimately show ?thesis by simp
qed

end
