(* ===== verification/Guarantees_Edges.thy ===== *)
theory Guarantees_Edges
  imports Demo Rate_Limit
begin

text \<open>
  The properties at the edges of the program: outgoing requests, rate limits, configuration and
  the background loop.
\<close>

section \<open>Outgoing requests\<close>

text \<open>
  C16. Delivering a webhook with the guard on never opens a connection to a blocked address,
  whatever the network answers, even if the name resolves differently for the check and for the
  connection. The one assumption is that URL parsing and the HTTP client agree on the host of a
  URL and that a literal address resolves to itself.
\<close>

theorem webhook_reaches_public_hosts_only:
  assumes "literal_agrees N" and "\<not> wh_allow_private wh"
  shows "all_public (snd (webhook_send RT N wh url dg h))"
  using webhook_public [OF assms] by (metis prod.collapse)

definition demo_digest :: digest where
  "demo_digest =
     \<lparr>dg_recurring_search_id = 3, dg_job_id = 1, dg_keyword = [103], dg_new_count = 0, dg_new_results = []\<rparr>"

lemma demo_net_agrees: "literal_agrees demo_net"
  by (simp add: literal_agrees_def demo_net_def)

lemma webhook_reaches_public_hosts_only_witness:
  "all_public (snd (webhook_send demo_runtime demo_net (webhook_sender_new None False)
     (lit ''169.254.169.254'') demo_digest []))"
  by (rule webhook_reaches_public_hosts_only [OF demo_net_agrees]) (simp add: webhook_sender_new_def)




text \<open>
  C38. The blocked IPv4 addresses are exactly twelve ranges: the null and the broadcast address,
  the private, shared, loopback, link-local and multicast networks and the three documentation
  networks. An IPv6 address is blocked exactly when it is the unspecified or the loopback one,
  unique local, link local or multicast, or carries a blocked IPv4 address.
\<close>

theorem blocked_addresses:
  "(is_blocked_ip (V4 a) \<longleftrightarrow> (\<exists>(lo, hi) \<in> set blocked_v4_ranges. lo \<le> a \<and> a \<le> hi)) \<and>
   (is_blocked_ip (V6 b) \<longleftrightarrow>
      (\<exists>(lo, hi) \<in> set blocked_v6_ranges. lo \<le> b \<and> b \<le> hi) \<or>
      (\<exists>v4. to_ipv4_mapped b = Some v4 \<and> is_blocked_v4 v4)) \<and>
   (is_blocked_ip (V4 a) \<longrightarrow> is_blocked_ip (V6 (mapped_v6 a)))"
  using blocked_v4 [of a] blocked_v6 [of b] blocked_v6 [of "mapped_v6 a"] by simp

lemma blocked_addresses_witness:
  "is_blocked_ip (V4 0x7F000001) \<and> is_blocked_ip (V6 (mapped_v6 0x7F000001)) \<and> is_blocked_ip (V6 1) \<and>
   \<not> is_blocked_ip (V4 0x08080808)"
proof -
  have "\<exists>(lo, hi) \<in> set blocked_v4_ranges. lo \<le> 0x7F000001 \<and> 0x7F000001 \<le> hi"
    by (rule bexI [of _ "(0x7F000000, 0x7FFFFFFF)"]) (simp_all add: blocked_v4_ranges_def)
  moreover have "\<exists>(lo, hi) \<in> set blocked_v6_ranges. lo \<le> 1 \<and> 1 \<le> hi"
    by (rule bexI [of _ "(0, 1)"]) (simp_all add: blocked_v6_ranges_def)
  moreover have "\<not> (\<exists>(lo, hi) \<in> set blocked_v4_ranges. lo \<le> 0x08080808 \<and> 0x08080808 \<le> hi)"
    by (simp add: blocked_v4_ranges_def)
  ultimately show ?thesis
    using blocked_addresses [of "0x7F000001" 1] blocked_addresses [of "0x08080808" 1] by blast
qed

section \<open>Rate limits\<close>

text \<open>
  C30. Whatever the traffic was before, in any window a client is let through at most twice the
  configured number of times: the budget that was left plus one full budget. The counter of 32
  bits must not have wrapped.
\<close>

theorem rate_limit_any_window:
  assumes "length before + length evs < 2 ^ 32"
    and "within a (fixed_window_per_minute m) evs"
  shows "admitted key evs (snd (run_hits before (fixed_window_per_minute m))) \<le> 2 * unat m"
  by (rule any_window_bound [OF assms])

lemma rate_limit_any_window_witness:
  "admitted [1] [([1], 5), ([1], 6)] (snd (run_hits [([1], 0)] (fixed_window_per_minute 1))) \<le> 2 * unat (1 :: 32 word)"
  by (rule rate_limit_any_window [where a = 5]) (simp_all add: fixed_window_per_minute_def second_def)

text \<open>
  A client that was not seen before gets exactly its budget in its first minute: the first
  \<open>m\<close> requests pass and the others are refused, whatever other clients do in between.
\<close>

lemma rate_limit_first_window:
  assumes "length evs < 2 ^ 32" and "within a (fixed_window_per_minute m) evs"
  shows "admitted key evs (fixed_window_per_minute m) = min (unat m) (asked key evs)"
  using admitted_open_window [of "fixed_window_per_minute m" a evs 0 key] assms by simp

lemma rate_limit_first_window_witness:
  "admitted [1] [([1], 5), ([2], 6), ([1], 7)] (fixed_window_per_minute 1) =
     min (unat (1 :: 32 word)) (asked [1] [([1], 5), ([2], 6), ([1], 7)])"
  by (rule rate_limit_first_window [where a = 5]) (simp_all add: fixed_window_per_minute_def second_def)

section \<open>Configuration\<close>

text \<open>
  In production the program starts only if all four required settings are present, non-empty
  and not one of the placeholders, and then uses exactly those values; the error names precisely
  the settings that are unusable. Outside production it always starts.
\<close>

lemma config_production:
  "(from_lookup lookup = Inl missing \<longleftrightarrow>
      lookup (lit ''APP_ENV'') = Some (lit ''production'') \<and> missing \<noteq> [] \<and>
      missing = filter (\<lambda>name. \<not> usable lookup name) REQUIRED_IN_PRODUCTION) \<and>
   (from_lookup lookup = Inr c \<and> lookup (lit ''APP_ENV'') = Some (lit ''production'') \<longrightarrow>
      Some (ac_jwt_secret c) = lookup (lit ''JWT_SECRET'') \<and>
      Some (ac_internal_token c) = lookup (lit ''INTERNAL_API_TOKEN'') \<and>
      ac_jwt_secret c \<notin> set PLACEHOLDERS \<and> ac_internal_token c \<notin> set PLACEHOLDERS \<and>
      ac_database_url c = lookup (lit ''DATABASE_URL'') \<and>
      ac_agent_api_url c = lookup (lit ''AGENT_API_URL''))"
proof -
  have "missing_required REQUIRED_IN_PRODUCTION lookup =
      filter (\<lambda>name. \<not> usable lookup name) REQUIRED_IN_PRODUCTION"
    unfolding missing_required_def
    by (rule filter_cong) (auto simp: usable_def split: option.split)
  moreover have "ac_jwt_secret c \<notin> set PLACEHOLDERS \<and> ac_internal_token c \<notin> set PLACEHOLDERS"
    if "from_lookup lookup = Inr c" "lookup (lit ''APP_ENV'') = Some (lit ''production'')"
  proof -
    have "lit ''JWT_SECRET'' \<in> set REQUIRED_IN_PRODUCTION" "lit ''INTERNAL_API_TOKEN'' \<in> set REQUIRED_IN_PRODUCTION"
      by (simp_all add: REQUIRED_IN_PRODUCTION_def)
    with from_lookup_production [OF that(2,1)] show ?thesis
      unfolding usable_def by (metis option.inject)
  qed
  ultimately show ?thesis
    using from_lookup_production [of lookup c] by (auto simp: from_lookup_Inl)
qed

definition demo_env :: env where
  "demo_env name = (if name = lit ''APP_ENV'' then Some (lit ''production'') else Some [120])"

lemma demo_env_usable: "filter (\<lambda>name. \<not> usable demo_env name) REQUIRED_IN_PRODUCTION = []"
  by (simp add: demo_env_def usable_def REQUIRED_IN_PRODUCTION_def PLACEHOLDERS_def lit_def)

lemma config_production_witness:
  "\<exists>c. from_lookup demo_env = Inr c \<and> Some (ac_jwt_secret c) = demo_env (lit ''JWT_SECRET'') \<and>
       ac_jwt_secret c \<notin> set PLACEHOLDERS \<and> ac_agent_api_url c = demo_env (lit ''AGENT_API_URL'')"
proof -
  have "from_lookup demo_env \<noteq> Inl missing" for missing
    using config_production [of demo_env missing demo_config] demo_env_usable by simp
  then obtain c where c: "from_lookup demo_env = Inr c" by (metis sum.exhaust)
  moreover have "demo_env (lit ''APP_ENV'') = Some (lit ''production'')" by (simp add: demo_env_def)
  ultimately show ?thesis using config_production [of demo_env "[]" c] by blast
qed

text \<open>
  Numbers in the environment: the decimal text of any number that fits is read back as that
  number, nothing out of range is ever accepted, and the values the program divides by or waits
  on are at least one.
\<close>

lemma config_numbers:
  "(n \<le> largest \<longrightarrow> parse_uint largest (show_nat n) = Some n) \<and>
   (parse_uint largest raw = Some k \<longrightarrow> k \<le> largest) \<and>
   (from_lookup lookup = Inr c \<longrightarrow>
      1 \<le> ac_database_max_connections c \<and> 1 \<le> ac_scheduler_tick_seconds c \<and>
      ac_daily_search_quota c \<le> u32_max \<and> ac_job_timeout_minutes c \<le> u32_max)"
  by (intro conjI impI; (rule parse_uint_show parse_uint_le from_lookup_bounds; assumption))

lemma config_numbers_witness:
  "parse_uint u16_max (show_nat 587) = Some 587 \<and>
   1 \<le> ac_scheduler_tick_seconds (projr (from_lookup (\<lambda>_. None)))"
proof -
  have "from_lookup (\<lambda>_. None) = Inr (projr (from_lookup (\<lambda>_. None)))"
    by (simp add: from_lookup_def Let_def lit_def)
  then show ?thesis
    using config_numbers [where n = 587 and largest = u16_max and lookup = "\<lambda>_. None"
        and c = "projr (from_lookup (\<lambda>_. None))" and raw = "[]" and k = 0]
    by (simp add: u16_max_def)
qed

section \<open>The background loop\<close>


definition demo_tick :: tick_draw where
  "demo_tick =
     \<lparr>tk_reap_now = 0, tk_reap_clock = (\<lambda>_. 0), tk_due_now = 0, tk_due_draws = demo_due,
      tk_tokens_now = 0, tk_data_now = 0, tk_audit_now = 0\<rparr>"


text \<open>
  A retention that reaches back before the first instant the date library can represent ends
  the loop: the purge of the jobs panics, the tick does not complete and the lock is not released.
\<close>

lemma retention_overflow_panics:
  assumes "ll_acquire LL s = (True, s1)"
    and "0 < ac_data_retention_days cfg" and "tk_data_now d - days (ac_data_retention_days cfg) < utc_min"
  shows "fst (background_tick LL J R T A disp cfg from_std utc_min d s) = Inl DateOverflow"
  using assms
  by (auto simp: background_tick_def tick_work_def io_defs purge_jobs_def minus_days_def
      split: prod.splits sum.splits)

lemma retention_overflow_panics_witness:
  "fst (background_tick noop_leader_lock (im_jobs (+)) im_searches im_tokens im_audit
     (app_disp demo_runtime demo_net demo_config) (demo_config\<lparr>ac_data_retention_days := 4294967295\<rparr>)
     (\<lambda>d. Inr (int (sd_secs d) * second)) (- days 365000) demo_tick demo_world) = Inl DateOverflow"
  by (rule retention_overflow_panics)
    (simp_all add: noop_leader_lock_def demo_tick_def days_def second_def)

end
