(* ===== verification/Http_Base.thy ===== *)
theory Http_Base
  imports Wiring Rate_Limit
begin

text \<open>
  The ground of the inbound HTTP adapter (\<open>adapters/http/mod.rs\<close>, \<open>security_headers.rs\<close>,
  \<open>request_id.rs\<close>): responses, request headers, the extractors and guards the handlers share,
  and the two outermost middlewares. A handler is a function from the store to a response and
  the store it leaves. What the extractors of the framework make of a path or a body is an
  argument: a rejection response, or the value.
\<close>

section \<open>Responses\<close>

datatype body = NoBody | TextBody rstr | JsonBody json | EventStream

record response =
  rsp_status :: nat
  rsp_headers :: "(rstr \<times> rstr) list"
  rsp_body :: body

text \<open>\<open>HeaderMap::insert\<close> replaces what was stored under the name.\<close>

definition set_header :: "rstr \<Rightarrow> rstr \<Rightarrow> response \<Rightarrow> response" where
  "set_header name v r = r\<lparr>rsp_headers := filter (\<lambda>(n, _). n \<noteq> name) (rsp_headers r) @ [(name, v)]\<rparr>"

definition empty_reply :: "nat \<Rightarrow> response" where
  "empty_reply status = \<lparr>rsp_status = status, rsp_headers = [], rsp_body = NoBody\<rparr>"

definition text_reply :: "nat \<Rightarrow> rstr \<Rightarrow> response" where
  "text_reply status t =
     \<lparr>rsp_status = status, rsp_headers = [(lit ''content-type'', lit ''text/plain; charset=utf-8'')],
      rsp_body = TextBody t\<rparr>"

definition json_reply :: "nat \<Rightarrow> json \<Rightarrow> response" where
  "json_reply status j =
     \<lparr>rsp_status = status, rsp_headers = [(lit ''content-type'', lit ''application/json'')],
      rsp_body = JsonBody j\<rparr>"

definition error_body :: "nat \<Rightarrow> rstr \<Rightarrow> response" where
  "error_body status message = json_reply status (JObject [(lit ''error'', JString message)])"

definition internal_error :: response where
  "internal_error = error_body 500 (lit ''internal error'')"

section \<open>Request headers\<close>

type_synonym byte = "8 word"
type_synonym headers = "(rstr \<times> byte list) list"

text \<open>\<open>HeaderValue::to_str\<close> succeeds on visible ASCII and tabs only.\<close>

definition visible_ascii :: "nat \<Rightarrow> bool" where
  "visible_ascii b \<longleftrightarrow> b = 9 \<or> (32 \<le> b \<and> b < 127)"

definition to_str :: "byte list \<Rightarrow> rstr option" where
  "to_str v = (if list_all (\<lambda>b. visible_ascii (unat b)) v then Some (map unat v) else None)"

definition header_str :: "headers \<Rightarrow> rstr \<Rightarrow> rstr option" where
  "header_str hs name = Option.bind (map_of hs name) to_str"

definition bytes_of :: "rstr \<Rightarrow> byte list" where
  "bytes_of s = map word_of_nat (utf8 s)"

definition client_ip :: "headers \<Rightarrow> rstr option" where
  "client_ip hs =
     (case header_str hs (lit ''x-forwarded-for'') of
        None \<Rightarrow> None
      | Some v \<Rightarrow> let ip = trim (hd (split_on 44 v)) in if ip = [] then None else Some ip)"

section \<open>The services\<close>

text \<open>
  \<open>AppState\<close>: the use cases share these ports and settings. \<open>sv_time_text\<close> is how a timestamp is
  written in JSON, \<open>sv_ready\<close> the readiness probe.
\<close>

record 's services =
  sv_users :: "'s user_repo"
  sv_jobs :: "'s job_repo"
  sv_tokens :: "'s token_repo"
  sv_recurring :: "'s recurring_repo"
  sv_channels :: "'s channel_repo"
  sv_documents :: "'s document_repo"
  sv_audit :: "'s audit_port"
  sv_dispatch :: "'s job_dispatcher"
  sv_digests :: "'s digest_sender"
  sv_notify :: "'s channel_notifier"
  sv_embed :: "'s embed_dispatcher"
  sv_hasher :: password_hasher
  sv_token_service :: token_service
  sv_ready :: "'s \<Rightarrow> bool"
  sv_email_enabled :: bool
  sv_internal_token :: rstr
  sv_quota :: "32 word"
  sv_refresh_ttl_days :: int
  sv_runtime :: runtime
  sv_time_text :: "time \<Rightarrow> rstr"

definition record_security_event :: "'s services \<Rightarrow> security_event \<Rightarrow> 's \<Rightarrow> 's" where
  "record_security_event A ev s = snd (au_record (sv_audit A) ev s)"

section \<open>Extractors and guards\<close>

definition strip_prefix :: "rstr \<Rightarrow> rstr \<Rightarrow> rstr option" where
  "strip_prefix p v = (if prefix p v then Some (drop (length p) v) else None)"

definition auth_user :: "'s services \<Rightarrow> time \<Rightarrow> headers \<Rightarrow> response + uuid" where
  "auth_user A now hs =
     (case Option.bind (Option.bind (header_str hs (lit ''authorization'')) (strip_prefix (lit ''Bearer '')))
             (ts_verify (sv_token_service A) now) of
        None \<Rightarrow> Inl (error_body 401 (lit ''invalid or missing access token''))
      | Some user \<Rightarrow> Inr user)"

definition authed ::
  "'s services \<Rightarrow> time \<Rightarrow> headers \<Rightarrow> (uuid \<Rightarrow> 's \<Rightarrow> response \<times> 's) \<Rightarrow> 's \<Rightarrow> response \<times> 's" where
  "authed A now hs handler s =
     (case auth_user A now hs of Inl rejection \<Rightarrow> (rejection, s) | Inr user \<Rightarrow> handler user s)"

definition extracted :: "response + 'b \<Rightarrow> ('b \<Rightarrow> 's \<Rightarrow> response \<times> 's) \<Rightarrow> 's \<Rightarrow> response \<times> 's" where
  "extracted x handler s = (case x of Inl rejection \<Rightarrow> (rejection, s) | Inr b \<Rightarrow> handler b s)"

text \<open>A use case, and what is answered for each of its results.\<close>

definition respond :: "('s, 'e, 'a) io \<Rightarrow> ('e + 'a \<Rightarrow> response) \<Rightarrow> 's \<Rightarrow> response \<times> 's" where
  "respond m f s = (case m s of (r, s') \<Rightarrow> (f r, s'))"

text \<open>\<open>diff |= x ^ y\<close> over all bytes; only the lengths may end the comparison early.\<close>

definition constant_time_eq :: "byte list \<Rightarrow> byte list \<Rightarrow> bool" where
  "constant_time_eq a b =
     (if length a \<noteq> length b then False
      else foldl (\<lambda>diff (x, y). Bit_Operations.or diff (Bit_Operations.xor x y)) 0 (zip a b) = 0)"

definition check_internal_token :: "'s services \<Rightarrow> headers \<Rightarrow> response option" where
  "check_internal_token A hs =
     (let matches = (case map_of hs (lit ''x-internal-token'') of
                       None \<Rightarrow> False
                     | Some v \<Rightarrow> constant_time_eq v (bytes_of (sv_internal_token A))) in
      if \<not> matches then Some (error_body 401 (lit ''invalid or missing internal token'')) else None)"

definition internal :: "'s services \<Rightarrow> headers \<Rightarrow> ('s \<Rightarrow> response \<times> 's) \<Rightarrow> 's \<Rightarrow> response \<times> 's" where
  "internal A hs handler s =
     (case check_internal_token A hs of Some rejection \<Rightarrow> (rejection, s) | None \<Rightarrow> handler s)"

lemmas guard_defs = authed_def extracted_def internal_def respond_def

section \<open>The refresh cookie\<close>

definition REFRESH_COOKIE :: rstr where "REFRESH_COOKIE = lit ''refresh_token''"

definition show_int :: "int \<Rightarrow> rstr" where
  "show_int n = (if n < 0 then 45 # show_nat (nat (- n)) else show_nat (nat n))"

definition refresh_cookie :: "rstr \<Rightarrow> int \<Rightarrow> rstr" where
  "refresh_cookie v max_age_seconds =
     REFRESH_COOKIE @ lit ''='' @ v @
     lit ''; HttpOnly; Secure; SameSite=Strict; Path=/api/auth; Max-Age='' @ show_int max_age_seconds"

definition clear_refresh_cookie :: rstr where
  "clear_refresh_cookie = refresh_cookie [] 0"

text \<open>\<open>split(';')\<close>, \<open>split_once('=')\<close> on each trimmed pair, the first pair of the right name.\<close>

definition read_refresh_cookie :: "headers \<Rightarrow> rstr option" where
  "read_refresh_cookie hs =
     (case header_str hs (lit ''cookie'') of
        None \<Rightarrow> None
      | Some v \<Rightarrow>
          (case find (\<lambda>(name, _). name = REFRESH_COOKIE)
                  (List.map_filter (\<lambda>pair. split_once 61 (trim pair)) (split_on 59 v)) of
             None \<Rightarrow> None
           | Some (_, found) \<Rightarrow> if found = [] then None else Some found))"

definition session_response :: "'s services \<Rightarrow> session_tokens \<Rightarrow> response" where
  "session_response A tokens =
     set_header (lit ''set-cookie'')
       (refresh_cookie (st_refresh_token tokens) (sv_refresh_ttl_days A * 86400))
       (json_reply 200 (JObject
          [(lit ''access_token'', JString (st_access_token tokens)),
           (lit ''token_type'', JString (lit ''Bearer''))]))"

section \<open>The outermost middlewares\<close>

text \<open>39 is the apostrophe.\<close>

definition CONTENT_SECURITY_POLICY :: rstr where
  "CONTENT_SECURITY_POLICY =
     lit ''default-src '' @ [39] @ lit ''none'' @ [39] @ lit ''; frame-ancestors '' @ [39] @
     lit ''none'' @ [39]"

definition security_headers :: "response \<Rightarrow> response" where
  "security_headers r =
     set_header (lit ''content-security-policy'') CONTENT_SECURITY_POLICY
       (set_header (lit ''referrer-policy'') (lit ''no-referrer'')
         (set_header (lit ''x-frame-options'') (lit ''DENY'')
           (set_header (lit ''x-content-type-options'') (lit ''nosniff'') r)))"

definition incoming_id :: "headers \<Rightarrow> rstr option" where
  "incoming_id hs =
     (case header_str hs (lit ''x-request-id'') of
        None \<Rightarrow> None
      | Some raw \<Rightarrow>
          let v = trim raw in
          if v \<noteq> [] \<and> byte_len v \<le> 128 \<and> list_all (\<lambda>c. 33 \<le> c \<and> c \<le> 126) v then Some v else None)"

text \<open>\<open>fresh\<close> is the text of the id drawn when the request carries none that is acceptable.\<close>

definition request_id :: "rstr \<Rightarrow> headers \<Rightarrow> response \<Rightarrow> response" where
  "request_id fresh hs r =
     (let i = (case incoming_id hs of Some v \<Rightarrow> v | None \<Rightarrow> fresh) in
      if list_all visible_ascii i then set_header (lit ''x-request-id'') i r else r)"

section \<open>Facts about the guards\<close>

lemma or_eq_0: "Bit_Operations.or a b = 0 \<longleftrightarrow> a = 0 \<and> b = 0" for a b :: "'a::len word"
  by (auto simp: bit_eq_iff bit_or_iff)

lemma xor_eq_0: "Bit_Operations.xor a b = 0 \<longleftrightarrow> a = b" for a b :: "'a::len word"
  by (auto simp: bit_eq_iff bit_xor_iff)

lemma constant_time_eq_fold:
  "length a = length b \<Longrightarrow>
   foldl (\<lambda>diff (x, y). Bit_Operations.or diff (Bit_Operations.xor x y)) d (zip a b) = 0 \<longleftrightarrow>
     d = 0 \<and> a = b" for a b :: "byte list"
  by (induction a b arbitrary: d rule: list_induct2) (auto simp: or_eq_0 xor_eq_0)

lemma constant_time_eq_iff: "constant_time_eq a b \<longleftrightarrow> a = b"
  by (auto simp: constant_time_eq_def constant_time_eq_fold)

lemma check_internal_token_iff:
  "check_internal_token A hs = None \<longleftrightarrow>
     map_of hs (lit ''x-internal-token'') = Some (bytes_of (sv_internal_token A))"
  by (auto simp: check_internal_token_def Let_def constant_time_eq_iff split: option.split)

section \<open>Reading cookies\<close>

text \<open>What a browser sends for a list of cookies, each name and value made of cookie characters.\<close>

fun cookie_header :: "(rstr \<times> rstr) list \<Rightarrow> rstr" where
  "cookie_header [] = []"
| "cookie_header [(n, v)] = n @ 61 # v"
| "cookie_header ((n, v) # rest) = n @ 61 # v @ 59 # 32 # cookie_header rest"

definition cookie_char :: "nat \<Rightarrow> bool" where
  "cookie_char c \<longleftrightarrow> 33 \<le> c \<and> c < 127 \<and> c \<noteq> 59"

definition cookie_ok :: "rstr \<times> rstr \<Rightarrow> bool" where
  "cookie_ok c \<longleftrightarrow> list_all cookie_char (fst c) \<and> 61 \<notin> set (fst c) \<and> list_all cookie_char (snd c)"

lemma split_on_none [simp]: "d \<notin> set a \<Longrightarrow> split_on d a = [a]"
  by (induction a) auto

lemma split_on_append: "d \<notin> set a \<Longrightarrow> split_on d (a @ d # b) = a # split_on d b"
  by (induction a) auto

lemma trim_padded:
  assumes "s \<noteq> []" and "\<not> is_whitespace (hd s)" and "\<not> is_whitespace (last s)"
  shows "trim s = s" and "trim (32 # s) = s"
proof -
  show "trim s = s" using assms by (intro trim_id) simp
  then show "trim (32 # s) = s" by (simp add: trim_def is_whitespace_def)
qed

lemma cookie_char_not_ws: "cookie_char c \<Longrightarrow> \<not> is_whitespace c"
  by (auto simp: cookie_char_def is_whitespace_def)

lemma cookie_pair:
  assumes "cookie_ok (n, v)"
  shows "split_once 61 (trim (n @ 61 # v)) = Some (n, v)"
    and "split_once 61 (trim (32 # n @ 61 # v)) = Some (n, v)"
    and "59 \<notin> set (n @ 61 # v)" and "59 \<notin> set (32 # n @ 61 # v)"
proof -
  have chars: "\<forall>c \<in> set n \<union> set v. cookie_char c" and eq: "61 \<notin> set n"
    using assms by (auto simp: cookie_ok_def list_all_iff)
  have eqs: "cookie_char 61" by (simp add: cookie_char_def)
  have hd: "hd (n @ 61 # v) \<in> set n \<union> set v \<union> {61}" by (cases n) auto
  have last: "last (n @ 61 # v) \<in> set n \<union> set v \<union> {61}" by (cases v rule: rev_cases) auto
  have nows: "\<not> is_whitespace c" if "c \<in> set n \<union> set v \<union> {61}" for c
    using that chars eqs cookie_char_not_ws by auto
  have ws: "\<not> is_whitespace (hd (n @ 61 # v))" "\<not> is_whitespace (last (n @ 61 # v))"
    by (rule nows [OF hd], rule nows [OF last])
  have trim: "trim (n @ 61 # v) = n @ 61 # v" "trim (32 # n @ 61 # v) = n @ 61 # v"
    using trim_padded [OF _ ws] by simp_all
  show "split_once 61 (trim (n @ 61 # v)) = Some (n, v)" "split_once 61 (trim (32 # n @ 61 # v)) = Some (n, v)"
    unfolding trim split_once_Some using eq by simp_all
  show "59 \<notin> set (n @ 61 # v)" "59 \<notin> set (32 # n @ 61 # v)"
    using chars by (auto simp: cookie_char_def)
qed

lemma cookies_parsed:
  "ps \<noteq> [] \<Longrightarrow> list_all cookie_ok ps \<Longrightarrow> pre = [] \<or> pre = [32] \<Longrightarrow>
   List.map_filter (\<lambda>pair. split_once 61 (trim pair)) (split_on 59 (pre @ cookie_header ps)) = ps"
proof (induction ps arbitrary: pre rule: cookie_header.induct)
  case (2 n v)
  then have ok: "cookie_ok (n, v)" by simp
  have "pre @ cookie_header [(n, v)] = n @ 61 # v \<or> pre @ cookie_header [(n, v)] = 32 # n @ 61 # v"
    using 2 by auto
  then show ?case
    using cookie_pair [OF ok] by (elim disjE) (simp_all only: split_on_none map_filter_simps, simp_all)
next
  case (3 n v p ps)
  then have ok: "cookie_ok (n, v)" and rest: "list_all cookie_ok (p # ps)" by simp_all
  let ?rest = "32 # cookie_header (p # ps)"
  have IH: "List.map_filter (\<lambda>pair. split_once 61 (trim pair)) (split_on 59 ?rest) = p # ps"
    using "3.IH" [of "[32]"] rest by simp
  have "pre @ cookie_header ((n, v) # p # ps) = (n @ 61 # v) @ 59 # ?rest \<or>
        pre @ cookie_header ((n, v) # p # ps) = (32 # n @ 61 # v) @ 59 # ?rest"
    using 3 by auto
  moreover have "List.map_filter (\<lambda>pair. split_once 61 (trim pair)) (split_on 59 (x @ 59 # ?rest)) = (n, v) # p # ps"
    if "split_once 61 (trim x) = Some (n, v)" "59 \<notin> set x" for x
    unfolding split_on_append [OF that(2)] using IH that(1) by (simp add: map_filter_simps)
  ultimately show ?case using cookie_pair [OF ok] by metis
qed simp

lemma find_map_of: "map_option snd (find (\<lambda>(n, _). n = k) ps) = map_of ps k"
  by (induction ps) auto

lemma read_refresh_cookie_spec:
  assumes "ps \<noteq> []" and "list_all cookie_ok ps" and "header_str hs (lit ''cookie'') = Some (cookie_header ps)"
  shows "read_refresh_cookie hs =
           (case map_of ps REFRESH_COOKIE of None \<Rightarrow> None | Some v \<Rightarrow> if v = [] then None else Some v)"
proof -
  have "List.map_filter (\<lambda>pair. split_once 61 (trim pair)) (split_on 59 (cookie_header ps)) = ps"
    using cookies_parsed [OF assms(1,2), of "[]"] by simp
  then show ?thesis
    using assms(3) find_map_of [of REFRESH_COOKIE ps]
    by (cases "find (\<lambda>(n, _). n = REFRESH_COOKIE) ps")
      (auto simp: read_refresh_cookie_def dest: sym)
qed

text \<open>Visible text survives the way over the wire.\<close>

lemma to_str_bytes:
  assumes "list_all visible_ascii v"
  shows "to_str (map word_of_nat v) = Some v"
proof -
  have "unat (word_of_nat c :: byte) = c" if "c \<in> set v" for c
    using assms that by (auto simp: list_all_iff visible_ascii_def unat_of_nat)
  then have "map unat (map word_of_nat v :: byte list) = v" by (simp add: map_idI)
  moreover have "list_all (\<lambda>b. visible_ascii (unat b)) bs = list_all visible_ascii (map unat bs)" for bs :: "byte list"
    by (induction bs) auto
  ultimately show ?thesis using assms by (simp only: to_str_def if_True)
qed

end
