(* ===== verification/Http_Public.thy ===== *)
theory Http_Public
  imports Http_Base
begin

text \<open>
  The public surface of \<open>adapters/http/mod.rs\<close>: what the client gets to see of the domain (the
  views), and one handler per route. \<open>now\<close> is the clock the bearer token is verified against,
  \<open>hs\<close> the request headers, \<open>path\<close> and \<open>body\<close> the outcomes of the framework's extractors, in
  the order in which the handler's arguments are extracted.
\<close>

section \<open>Views\<close>

definition uuid_json :: "'s services \<Rightarrow> uuid \<Rightarrow> json" where
  "uuid_json A i = JString (rt_uuid_display (sv_runtime A) i)"

definition time_json :: "'s services \<Rightarrow> time \<Rightarrow> json" where
  "time_json A t = JString (sv_time_text A t)"

text \<open>A number that is not finite has no JSON form and is written \<open>null\<close>.\<close>

definition f64_json :: "f64 \<Rightarrow> json" where
  "f64_json x = (if take_bit 11 (drop_bit 52 x) = 0x7FF then JNull else JFloat x)"

fun job_status_json :: "job_status \<Rightarrow> json" where
  "job_status_json Pending = JString (lit ''pending'')"
| "job_status_json Running = JString (lit ''running'')"
| "job_status_json AwaitingInput = JString (lit ''awaiting_input'')"
| "job_status_json Completed = JString (lit ''completed'')"
| "job_status_json Failed = JString (lit ''failed'')"

fun date_confidence_json :: "date_confidence \<Rightarrow> json" where
  "date_confidence_json High = JString (lit ''high'')"
| "date_confidence_json Medium = JString (lit ''medium'')"
| "date_confidence_json Unknown = JString (lit ''unknown'')"

fun event_type_json :: "event_type \<Rightarrow> json" where
  "event_type_json Announcement = JString (lit ''announcement'')"
| "event_type_json Release = JString (lit ''release'')"
| "event_type_json Funding = JString (lit ''funding'')"
| "event_type_json Legal = JString (lit ''legal'')"
| "event_type_json Incident = JString (lit ''incident'')"
| "event_type_json Research = JString (lit ''research'')"
| "event_type_json Opinion = JString (lit ''opinion'')"
| "event_type_json Other = JString (lit ''other'')"

definition job_usage_json :: "job_usage \<Rightarrow> json" where
  "job_usage_json u =
     JObject
       [(lit ''llm_calls'', JInt (sint (llm_calls u))),
        (lit ''llm_input_tokens'', JInt (sint (llm_input_tokens u))),
        (lit ''llm_output_tokens'', JInt (sint (llm_output_tokens u))),
        (lit ''search_calls'', JInt (sint (search_calls u))),
        (lit ''cost_usd'', f64_json (cost_usd u))]"

definition job_view :: "'s services \<Rightarrow> research_job \<Rightarrow> (rstr \<times> json) list" where
  "job_view A job =
     [(lit ''id'', uuid_json A (job_id job)),
      (lit ''keyword'', JString (job_keyword job)),
      (lit ''mode'', job_mode_json (job_mode job)),
      (lit ''status'', job_status_json (job_status job)),
      (lit ''error'', json_opt JString (job_error job)),
      (lit ''question'', json_opt JString (job_question job)),
      (lit ''answer'', json_opt JString (job_answer job)),
      (lit ''recurring_search_id'', json_opt (uuid_json A) (job_recurring_search_id job)),
      (lit ''usage'', job_usage_json (job_usage job)),
      (lit ''created_at'', time_json A (job_created_at job)),
      (lit ''completed_at'', json_opt (time_json A) (job_completed_at job))]"

definition search_result_json :: "'s services \<Rightarrow> search_result \<Rightarrow> json" where
  "search_result_json A r =
     JObject
       [(lit ''title'', JString (sr_title r)),
        (lit ''url'', JString (sr_url r)),
        (lit ''snippet'', JString (sr_snippet r)),
        (lit ''published_at'', json_opt (time_json A) (sr_published_at r)),
        (lit ''date_confidence'', date_confidence_json (sr_date_confidence r)),
        (lit ''event_type'', event_type_json (sr_event_type r)),
        (lit ''summary'', json_opt JString (sr_summary r)),
        (lit ''is_new'', JBool (sr_is_new r)),
        (lit ''raw'', sr_raw r)]"

definition agent_step_json :: "agent_step \<Rightarrow> json" where
  "agent_step_json st =
     JObject
       [(lit ''seq'', JInt (step_seq st)),
        (lit ''kind'', JString (step_kind st)),
        (lit ''detail'', JString (step_detail st)),
        (lit ''reason'', JString (step_reason st)),
        (lit ''new_hits'', JInt (step_new_hits st))]"

definition job_detail_json ::
  "'s services \<Rightarrow> research_job \<Rightarrow> search_result list \<Rightarrow> agent_step list \<Rightarrow> json" where
  "job_detail_json A job results steps =
     JObject (job_view A job @
       [(lit ''results'', JArray (map (search_result_json A) results)),
        (lit ''steps'', JArray (map agent_step_json steps))])"

definition recurring_search_json :: "'s services \<Rightarrow> recurring_search \<Rightarrow> json" where
  "recurring_search_json A x =
     JObject
       [(lit ''id'', uuid_json A (rs_id x)),
        (lit ''keyword'', JString (rs_keyword x)),
        (lit ''mode'', job_mode_json (rs_mode x)),
        (lit ''interval_minutes'', JInt (uint (rs_interval_minutes x))),
        (lit ''webhook_url'', json_opt JString (rs_webhook_url x)),
        (lit ''created_at'', time_json A (rs_created_at x)),
        (lit ''last_run_at'', json_opt (time_json A) (rs_last_run_at x))]"

definition channel_view :: "'s services \<Rightarrow> notification_channel \<Rightarrow> json" where
  "channel_view A c =
     JObject
       [(lit ''id'', uuid_json A (ch_id c)),
        (lit ''kind'', JString (channel_kind_as_str (ch_kind c))),
        (lit ''target'', JString (ch_target c)),
        (lit ''created_at'', time_json A (ch_created_at c))]"

definition profile_response :: "'s services \<Rightarrow> user \<Rightarrow> notification_channel list \<Rightarrow> json" where
  "profile_response A u channels =
     JObject
       [(lit ''email'', JString (user_email u)),
        (lit ''created_at'', time_json A (user_created_at u)),
        (lit ''channels'', JArray (map (channel_view A) channels)),
        (lit ''email_enabled'', JBool (sv_email_enabled A))]"

definition document_view :: "'s services \<Rightarrow> document \<Rightarrow> json" where
  "document_view A d =
     JObject
       [(lit ''id'', uuid_json A (doc_id d)),
        (lit ''name'', JString (doc_name d)),
        (lit ''status'', JString (document_status_as_str (doc_status d))),
        (lit ''error'', json_opt JString (doc_error d)),
        (lit ''created_at'', time_json A (doc_created_at d))]"

section \<open>Accounts and sessions\<close>

record credentials =
  cr_email :: rstr
  cr_password :: rstr

fun register_reply :: "'s services \<Rightarrow> register_error + user \<Rightarrow> response" where
  "register_reply A (Inr u) =
     json_reply 201 (JObject [(lit ''id'', uuid_json A (user_id u)), (lit ''email'', JString (user_email u))])"
| "register_reply A (Inl EmailTaken) = error_body 409 (lit ''email already registered'')"
| "register_reply A (Inl InvalidEmail) = error_body 422 (lit ''invalid email address'')"
| "register_reply A (Inl PasswordTooShort) = error_body 422 (lit ''password must be at least 8 characters'')"
| "register_reply A (Inl (RegisterInfrastructure e)) = internal_error"

definition http_register ::
  "'s services \<Rightarrow> register_draw \<Rightarrow> response + credentials \<Rightarrow> 's \<Rightarrow> response \<times> 's" where
  "http_register A d body =
     extracted body (\<lambda>b.
       respond (register_user (sv_runtime A) (sv_users A) (sv_hasher A) d (cr_email b) (cr_password b))
         (register_reply A))"

text \<open>
  The throttle is keyed by the normalised address and asked before the password is looked at.
  \<open>incr\<close>, \<open>instant\<close> and \<open>secs\<close> are what the limiter reads; the event's id and instant are drawn.
\<close>

record event_draw =
  ed_id :: uuid
  ed_now :: time

definition http_login ::
  "'s services \<Rightarrow> (rstr \<Rightarrow> rstr + 32 word) \<Rightarrow> int \<Rightarrow> nat \<Rightarrow> login_draw \<Rightarrow> event_draw \<Rightarrow> headers \<Rightarrow>
   response + credentials \<Rightarrow> 's \<times> limiter \<Rightarrow> response \<times> 's \<times> limiter" where
  "http_login A incr instant secs d ed hs body st =
     (case st of (s, throttle) \<Rightarrow>
      case body of
        Inl rejection \<Rightarrow> (rejection, s, throttle)
      | Inr b \<Rightarrow>
          let email_key = normalise_email (sv_runtime A) (cr_email b);
              ip = client_ip hs;
              event = (\<lambda>kind. security_event_new (ed_id ed) (ed_now ed) kind None ip email_key) in
          case limiter_allow incr instant secs email_key throttle of
            (allowed, throttle) \<Rightarrow>
              if \<not> allowed then
                (error_body 429 (lit ''too many login attempts, slow down''),
                 record_security_event A (event LoginThrottled) s, throttle)
              else
                case login_user (sv_runtime A) (sv_users A) (sv_hasher A) (sv_token_service A)
                       (sv_tokens A) (sv_refresh_ttl_days A) d (cr_email b) (cr_password b) s of
                  (Inr tokens, s) \<Rightarrow> (session_response A tokens, s, throttle)
                | (Inl InvalidCredentials, s) \<Rightarrow>
                    (error_body 401 (lit ''invalid credentials''),
                     record_security_event A (event LoginFailed) s, throttle)
                | (Inl (LoginInfrastructure e), s) \<Rightarrow> (internal_error, s, throttle))"

definition clearing_cookie :: "response \<Rightarrow> response" where
  "clearing_cookie r = set_header (lit ''set-cookie'') clear_refresh_cookie r"

fun refresh_reply :: "'s services \<Rightarrow> refresh_error + session_tokens \<Rightarrow> response" where
  "refresh_reply A (Inr tokens) = session_response A tokens"
| "refresh_reply A (Inl InvalidToken) =
     clearing_cookie (error_body 401 (lit ''invalid or expired refresh token''))"
| "refresh_reply A (Inl (RefreshInfrastructure e)) = internal_error"

definition http_refresh :: "'s services \<Rightarrow> rotate_draw \<Rightarrow> headers \<Rightarrow> 's \<Rightarrow> response \<times> 's" where
  "http_refresh A d hs s =
     (case read_refresh_cookie hs of
        None \<Rightarrow> (error_body 401 (lit ''missing refresh token''), s)
      | Some presented \<Rightarrow>
          respond (rotate_session (sv_runtime A) (sv_tokens A) (sv_token_service A) (sv_audit A)
                    (sv_refresh_ttl_days A) d presented) (refresh_reply A) s)"

definition http_logout :: "'s services \<Rightarrow> headers \<Rightarrow> 's \<Rightarrow> response \<times> 's" where
  "http_logout A hs s =
     (clearing_cookie (empty_reply 204),
      case read_refresh_cookie hs of
        None \<Rightarrow> s
      | Some presented \<Rightarrow> snd (revoke_session (sv_runtime A) (sv_tokens A) presented s))"

definition http_delete_account :: "'s services \<Rightarrow> time \<Rightarrow> headers \<Rightarrow> 's \<Rightarrow> response \<times> 's" where
  "http_delete_account A now hs =
     authed A now hs (\<lambda>user.
       respond (delete_account (sv_users A) (sv_jobs A) (sv_recurring A) (sv_tokens A) (sv_channels A)
                 (sv_documents A) user)
         (\<lambda>r. case r of Inr _ \<Rightarrow> clearing_cookie (empty_reply 204) | Inl e \<Rightarrow> internal_error))"

section \<open>Profile\<close>

fun profile_reply :: "'s services \<Rightarrow> profile_error + user \<times> notification_channel list \<Rightarrow> response" where
  "profile_reply A (Inr (u, channels)) = json_reply 200 (profile_response A u channels)"
| "profile_reply A (Inl ProfileNotFound) = error_body 404 (lit ''account not found'')"
| "profile_reply A (Inl e) = internal_error"

definition http_get_profile :: "'s services \<Rightarrow> time \<Rightarrow> headers \<Rightarrow> 's \<Rightarrow> response \<times> 's" where
  "http_get_profile A now hs =
     authed A now hs (\<lambda>user.
       respond (profile_view (sv_users A) (sv_channels A) user) (profile_reply A))"

record create_channel_request =
  cc_kind :: rstr
  cc_target :: rstr
  cc_secret :: "rstr option"

fun channel_reply :: "'s services \<Rightarrow> profile_error + notification_channel \<Rightarrow> response" where
  "channel_reply A (Inr c) = json_reply 201 (channel_view A c)"
| "channel_reply A (Inl (InvalidChannel e)) = error_body 422 (channel_error_msg e)"
| "channel_reply A (Inl EmailNotConfigured) =
     error_body 422 (lit ''email delivery is not configured on this server'')"
| "channel_reply A (Inl e) = internal_error"

definition http_create_channel ::
  "'s services \<Rightarrow> uuid \<Rightarrow> time \<Rightarrow> time \<Rightarrow> headers \<Rightarrow> response + create_channel_request \<Rightarrow> 's \<Rightarrow>
   response \<times> 's" where
  "http_create_channel A new_id created now hs body =
     authed A now hs (\<lambda>user. extracted body (\<lambda>b s.
       case channel_kind_parse (cc_kind b) of
         None \<Rightarrow> (error_body 422 (lit ''unknown channel kind''), s)
       | Some kind \<Rightarrow>
           respond (add_channel (sv_channels A) (sv_email_enabled A) new_id created user kind
                     (cc_target b) (cc_secret b)) (channel_reply A) s))"

text \<open>Deletions of what a user owns: found, not found, failed.\<close>

fun deleted_reply :: "rstr \<Rightarrow> port_error + bool \<Rightarrow> response" where
  "deleted_reply missing (Inr True) = empty_reply 204"
| "deleted_reply missing (Inr False) = error_body 404 missing"
| "deleted_reply missing (Inl e) = internal_error"

definition http_delete_channel ::
  "'s services \<Rightarrow> time \<Rightarrow> headers \<Rightarrow> response + uuid \<Rightarrow> 's \<Rightarrow> response \<times> 's" where
  "http_delete_channel A now hs path =
     authed A now hs (\<lambda>user. extracted path (\<lambda>i.
       respond (remove_channel (sv_channels A) user i) (deleted_reply (lit ''channel not found''))))"

section \<open>Knowledge base\<close>

fun list_reply :: "('a \<Rightarrow> json) \<Rightarrow> 'e + 'a list \<Rightarrow> response" where
  "list_reply view (Inr xs) = json_reply 200 (JArray (map view xs))"
| "list_reply view (Inl e) = internal_error"

definition http_list_documents :: "'s services \<Rightarrow> time \<Rightarrow> headers \<Rightarrow> 's \<Rightarrow> response \<times> 's" where
  "http_list_documents A now hs =
     authed A now hs (\<lambda>user.
       respond (list_documents (sv_documents A) user) (list_reply (document_view A)))"

record create_document_request =
  cd_name :: rstr
  cd_content :: rstr

fun document_reply :: "'s services \<Rightarrow> knowledge_error + document \<Rightarrow> response" where
  "document_reply A (Inr d) = json_reply 201 (document_view A d)"
| "document_reply A (Inl (KnowledgeInvalid e)) = error_body 422 (document_error_msg e)"
| "document_reply A (Inl e) = internal_error"

definition http_create_document ::
  "'s services \<Rightarrow> uuid \<Rightarrow> time \<Rightarrow> time \<Rightarrow> headers \<Rightarrow> response + create_document_request \<Rightarrow> 's \<Rightarrow>
   response \<times> 's" where
  "http_create_document A new_id created now hs body =
     authed A now hs (\<lambda>user. extracted body (\<lambda>b.
       respond (upload_document (sv_documents A) (sv_embed A) new_id created user (cd_name b) (cd_content b))
         (document_reply A)))"

definition http_delete_document ::
  "'s services \<Rightarrow> time \<Rightarrow> headers \<Rightarrow> response + uuid \<Rightarrow> 's \<Rightarrow> response \<times> 's" where
  "http_delete_document A now hs path =
     authed A now hs (\<lambda>user. extracted path (\<lambda>i.
       respond (delete_document (sv_documents A) user i) (deleted_reply (lit ''document not found''))))"

section \<open>Searches\<close>

record create_search_request =
  cs_keyword :: rstr
  cs_mode :: job_mode

definition quota_exceeded_msg :: "32 word \<Rightarrow> rstr" where
  "quota_exceeded_msg q =
     lit ''daily search quota reached ('' @ show_nat (unat q) @ lit '' searches per 24h)''"

text \<open>An exceeded quota is also recorded as a security event.\<close>

definition http_create_search ::
  "'s services \<Rightarrow> launch_draw \<Rightarrow> event_draw \<Rightarrow> time \<Rightarrow> headers \<Rightarrow> response + create_search_request \<Rightarrow>
   's \<Rightarrow> response \<times> 's" where
  "http_create_search A d ed now hs body =
     authed A now hs (\<lambda>user. extracted body (\<lambda>b s.
       case launch_search (sv_jobs A) (sv_dispatch A) (sv_quota A) d user (cs_keyword b) (cs_mode b) s of
         (Inr job, s) \<Rightarrow> (json_reply 202 (JObject [(lit ''job_id'', uuid_json A (job_id job))]), s)
       | (Inl (LaunchInvalidJob e), s) \<Rightarrow> (error_body 422 (job_error_msg e), s)
       | (Inl (LaunchQuotaExceeded q), s) \<Rightarrow>
           (error_body 429 (quota_exceeded_msg q),
            record_security_event A
              (security_event_new (ed_id ed) (ed_now ed) QuotaExceededEvent (Some user) (client_ip hs)
                (lit ''daily search quota'')) s)
       | (Inl LaunchDispatchFailed, s) \<Rightarrow> (error_body 502 (lit ''failed to reach the agent''), s)
       | (Inl (LaunchInfrastructure e), s) \<Rightarrow> (internal_error, s)))"

definition http_list_searches :: "'s services \<Rightarrow> time \<Rightarrow> headers \<Rightarrow> 's \<Rightarrow> response \<times> 's" where
  "http_list_searches A now hs =
     authed A now hs (\<lambda>user.
       respond (search_list (sv_jobs A) user) (list_reply (\<lambda>job. JObject (job_view A job))))"

fun get_search_reply ::
  "'s services \<Rightarrow> port_error + (research_job \<times> search_result list \<times> agent_step list) option \<Rightarrow> response" where
  "get_search_reply A (Inr (Some (job, results, steps))) = json_reply 200 (job_detail_json A job results steps)"
| "get_search_reply A (Inr None) = error_body 404 (lit ''search not found'')"
| "get_search_reply A (Inl e) = internal_error"

definition http_get_search ::
  "'s services \<Rightarrow> time \<Rightarrow> headers \<Rightarrow> response + uuid \<Rightarrow> 's \<Rightarrow> response \<times> 's" where
  "http_get_search A now hs path =
     authed A now hs (\<lambda>user. extracted path (\<lambda>i.
       respond (search_get (sv_jobs A) user i) (get_search_reply A)))"

text \<open>The stream itself is the subject of theory \<open>Sse\<close>; this is what is decided before it opens.\<close>

fun search_events_reply :: "port_error + 'a option \<Rightarrow> response" where
  "search_events_reply (Inr (Some _)) =
     \<lparr>rsp_status = 200, rsp_headers = [(lit ''content-type'', lit ''text/event-stream''),
        (lit ''cache-control'', lit ''no-cache'')], rsp_body = EventStream\<rparr>"
| "search_events_reply (Inr None) = error_body 404 (lit ''search not found'')"
| "search_events_reply (Inl e) = internal_error"

definition http_search_events ::
  "'s services \<Rightarrow> time \<Rightarrow> headers \<Rightarrow> response + uuid \<Rightarrow> 's \<Rightarrow> response \<times> 's" where
  "http_search_events A now hs path =
     authed A now hs (\<lambda>user. extracted path (\<lambda>i.
       respond (search_get (sv_jobs A) user i) search_events_reply))"

fun answer_reply :: "answer_error + research_job \<Rightarrow> response" where
  "answer_reply (Inr job) = empty_reply 204"
| "answer_reply (Inl AnswerNotFound) = error_body 404 (lit ''search not found'')"
| "answer_reply (Inl (AnswerInvalid NotAwaitingInput)) =
     error_body 409 (lit ''search is not awaiting an answer'')"
| "answer_reply (Inl (AnswerInvalid e)) = error_body 422 (job_error_msg e)"
| "answer_reply (Inl AnswerDispatchFailed) = error_body 502 (lit ''failed to reach the agent'')"
| "answer_reply (Inl (AnswerInfrastructure e)) = internal_error"

text \<open>\<open>failed_at\<close> is the clock should the dispatch fail; the body is the answer's text.\<close>

definition http_answer_search ::
  "'s services \<Rightarrow> time \<Rightarrow> time \<Rightarrow> headers \<Rightarrow> response + uuid \<Rightarrow> response + rstr \<Rightarrow> 's \<Rightarrow> response \<times> 's" where
  "http_answer_search A failed_at now hs path body =
     authed A now hs (\<lambda>user. extracted path (\<lambda>i. extracted body (\<lambda>text.
       respond (answer_clarification (sv_jobs A) (sv_dispatch A) failed_at user i text) answer_reply)))"

section \<open>Recurring searches\<close>

record create_recurring_request =
  crr_keyword :: rstr
  crr_mode :: job_mode
  crr_interval_minutes :: "32 word"
  crr_webhook_url :: "rstr option"

fun create_recurring_reply :: "'s services \<Rightarrow> recurring_error + recurring_search \<Rightarrow> response" where
  "create_recurring_reply A (Inr x) = json_reply 201 (recurring_search_json A x)"
| "create_recurring_reply A (Inl (RecurringInvalid e)) = error_body 422 (job_error_msg e)"
| "create_recurring_reply A (Inl (RecurringTooMany n)) =
     error_body 429 (lit ''too many recurring searches ('' @ show_nat n @ lit '' max)'')"
| "create_recurring_reply A (Inl RecurringNotFound) = error_body 404 (lit ''not found'')"
| "create_recurring_reply A (Inl (RecurringInfrastructure e)) = internal_error"

definition http_create_recurring ::
  "'s services \<Rightarrow> uuid \<Rightarrow> time \<Rightarrow> time \<Rightarrow> headers \<Rightarrow> response + create_recurring_request \<Rightarrow> 's \<Rightarrow>
   response \<times> 's" where
  "http_create_recurring A new_id created now hs body =
     authed A now hs (\<lambda>user. extracted body (\<lambda>b.
       respond (recurring_create (sv_recurring A) new_id created user (crr_keyword b) (crr_mode b)
                 (crr_interval_minutes b) (crr_webhook_url b)) (create_recurring_reply A)))"

definition http_list_recurring :: "'s services \<Rightarrow> time \<Rightarrow> headers \<Rightarrow> 's \<Rightarrow> response \<times> 's" where
  "http_list_recurring A now hs =
     authed A now hs (\<lambda>user.
       respond (recurring_list (sv_recurring A) user) (list_reply (recurring_search_json A)))"

fun delete_recurring_reply :: "recurring_error + unit \<Rightarrow> response" where
  "delete_recurring_reply (Inr _) = empty_reply 204"
| "delete_recurring_reply (Inl RecurringNotFound) = error_body 404 (lit ''recurring search not found'')"
| "delete_recurring_reply (Inl e) = internal_error"

definition http_delete_recurring ::
  "'s services \<Rightarrow> time \<Rightarrow> headers \<Rightarrow> response + uuid \<Rightarrow> 's \<Rightarrow> response \<times> 's" where
  "http_delete_recurring A now hs path =
     authed A now hs (\<lambda>user. extracted path (\<lambda>i.
       respond (recurring_delete (sv_recurring A) user i) delete_recurring_reply))"

section \<open>Probes\<close>

definition http_healthz :: response where
  "http_healthz = text_reply 200 (lit ''ok'')"

definition http_readyz :: "'s services \<Rightarrow> 's \<Rightarrow> response \<times> 's" where
  "http_readyz A s =
     (if sv_ready A s then (text_reply 200 (lit ''ready''), s) else (text_reply 503 (lit ''not ready''), s))"

end
