(* ===== verification/Http_Internal.thy ===== *)
theory Http_Internal
  imports Http_Base
begin

text \<open>
  The callbacks of the agent in \<open>adapters/http/mod.rs\<close>. Path, headers and body are extracted
  first, in this order; the shared token is the first thing the handler itself looks at.
\<close>

section \<open>Jobs\<close>

fun ingest_reply :: "ingest_error + unit \<Rightarrow> response" where
  "ingest_reply (Inr _) = empty_reply 204"
| "ingest_reply (Inl JobNotFound) = error_body 404 (lit ''job not found'')"
| "ingest_reply (Inl (IngestInfrastructure e)) = internal_error"

definition http_internal_started ::
  "'s services \<Rightarrow> headers \<Rightarrow> response + uuid \<Rightarrow> 's \<Rightarrow> response \<times> 's" where
  "http_internal_started A hs path =
     extracted path (\<lambda>i. internal A hs (respond (ingest_start (sv_jobs A) i) ingest_reply))"

definition http_internal_results ::
  "'s services \<Rightarrow> time \<Rightarrow> headers \<Rightarrow> response + uuid \<Rightarrow> response + search_result list \<Rightarrow> 's \<Rightarrow>
   response \<times> 's" where
  "http_internal_results A completed hs path body =
     extracted path (\<lambda>i. extracted body (\<lambda>results. internal A hs
       (respond (ingest_complete (sv_jobs A) (sv_recurring A) (sv_digests A) (sv_channels A) (sv_notify A)
                  completed i results) ingest_reply)))"

definition http_internal_step ::
  "'s services \<Rightarrow> headers \<Rightarrow> response + uuid \<Rightarrow> response + agent_step \<Rightarrow> 's \<Rightarrow> response \<times> 's" where
  "http_internal_step A hs path body =
     extracted path (\<lambda>i. extracted body (\<lambda>st. internal A hs
       (respond (record_step (sv_jobs A) i st) ingest_reply)))"

definition http_internal_question ::
  "'s services \<Rightarrow> headers \<Rightarrow> response + uuid \<Rightarrow> response + rstr \<Rightarrow> 's \<Rightarrow> response \<times> 's" where
  "http_internal_question A hs path body =
     extracted path (\<lambda>i. extracted body (\<lambda>question. internal A hs
       (respond (ingest_request_input (sv_jobs A) i question) ingest_reply)))"

definition http_internal_usage ::
  "'s services \<Rightarrow> headers \<Rightarrow> response + uuid \<Rightarrow> response + job_usage \<Rightarrow> 's \<Rightarrow> response \<times> 's" where
  "http_internal_usage A hs path body =
     extracted path (\<lambda>i. extracted body (\<lambda>u. internal A hs
       (respond (record_usage (sv_jobs A) i u) ingest_reply)))"

definition http_internal_failure ::
  "'s services \<Rightarrow> time \<Rightarrow> headers \<Rightarrow> response + uuid \<Rightarrow> response + rstr \<Rightarrow> 's \<Rightarrow> response \<times> 's" where
  "http_internal_failure A failed hs path body =
     extracted path (\<lambda>i. extracted body (\<lambda>err. internal A hs
       (respond (ingest_fail (sv_jobs A) failed i err) ingest_reply)))"

section \<open>Knowledge base\<close>

record new_chunk_dto =
  ncd_seq :: int
  ncd_content :: rstr
  ncd_embedding :: "f32 list"

definition chunk_of_dto :: "new_chunk_dto \<Rightarrow> new_chunk" where
  "chunk_of_dto c = \<lparr>nc_seq = ncd_seq c, nc_content = ncd_content c, nc_embedding = ncd_embedding c\<rparr>"

fun store_chunks_reply :: "knowledge_error + unit \<Rightarrow> response" where
  "store_chunks_reply (Inr _) = empty_reply 204"
| "store_chunks_reply (Inl DocumentNotFound) = error_body 404 (lit ''document not found'')"
| "store_chunks_reply (Inl e) = internal_error"

definition http_internal_store_chunks ::
  "'s services \<Rightarrow> headers \<Rightarrow> response + uuid \<Rightarrow> response + new_chunk_dto list \<Rightarrow> 's \<Rightarrow> response \<times> 's" where
  "http_internal_store_chunks A hs path body =
     extracted path (\<lambda>i. extracted body (\<lambda>chunks. internal A hs
       (respond (store_document_chunks (sv_documents A) i (map chunk_of_dto chunks)) store_chunks_reply)))"

definition http_internal_document_failure ::
  "'s services \<Rightarrow> headers \<Rightarrow> response + uuid \<Rightarrow> response + rstr \<Rightarrow> 's \<Rightarrow> response \<times> 's" where
  "http_internal_document_failure A hs path body =
     extracted path (\<lambda>i. extracted body (\<lambda>err. internal A hs
       (respond (mark_document_failed (sv_documents A) i err)
         (\<lambda>r. case r of Inl e \<Rightarrow> internal_error | Inr _ \<Rightarrow> empty_reply 204))))"

record retrieve_request =
  rtv_job_id :: uuid
  rtv_embedding :: "f32 list"
  rtv_k :: int

definition default_retrieve_k :: int where
  "default_retrieve_k = 5"

definition retrieved_chunk_json :: "retrieved_chunk \<Rightarrow> json" where
  "retrieved_chunk_json c =
     JObject [(lit ''content'', JString (rc_content c)), (lit ''document_name'', JString (rc_document_name c))]"

fun retrieve_reply :: "knowledge_error + retrieved_chunk list \<Rightarrow> response" where
  "retrieve_reply (Inr chunks) =
     json_reply 200 (JObject [(lit ''chunks'', JArray (map retrieved_chunk_json chunks))])"
| "retrieve_reply (Inl KnowledgeJobNotFound) = error_body 404 (lit ''job not found'')"
| "retrieve_reply (Inl e) = internal_error"

definition http_internal_retrieve ::
  "'s services \<Rightarrow> headers \<Rightarrow> response + retrieve_request \<Rightarrow> 's \<Rightarrow> response \<times> 's" where
  "http_internal_retrieve A hs body =
     extracted body (\<lambda>b. internal A hs
       (respond (retrieve_for_job (sv_documents A) (sv_jobs A) (rtv_job_id b) (rtv_embedding b) (rtv_k b))
         retrieve_reply))"

end
