(* ===== verification/Router.thy ===== *)
theory Router
  imports Http_Public Http_Internal
begin

text \<open>
  \<open>AppState::new\<close> and \<open>router_with_limits\<close>: the services of a configuration, the route table
  with the limiter of each group of routes, and the way of a request through the middlewares to
  its handler and back. What the framework answers to a request no route matches is the argument
  \<open>fallback\<close>.
\<close>

section \<open>The services of a configuration\<close>

definition app_services ::
  "(f64 \<Rightarrow> f64 \<Rightarrow> f64) \<Rightarrow> f32_ops \<Rightarrow> runtime \<Rightarrow> net \<Rightarrow> app_config \<Rightarrow> (smtp_config \<Rightarrow> rstr option) \<Rightarrow>
   password_hasher \<Rightarrow> token_service \<Rightarrow> world services" where
  "app_services fadd F RT N cfg lettre_new H S =
     \<lparr>sv_users = im_users, sv_jobs = im_jobs fadd, sv_tokens = im_tokens, sv_recurring = im_searches,
      sv_channels = im_channels, sv_documents = im_documents F, sv_audit = im_audit,
      sv_dispatch = app_disp RT N cfg, sv_digests = app_hook RT N cfg,
      sv_notify = app_chan lettre_new N cfg, sv_embed = app_emb RT N cfg,
      sv_hasher = H, sv_token_service = S, sv_ready = always_ready,
      sv_email_enabled = email_enabled lettre_new cfg, sv_internal_token = ac_internal_token cfg,
      sv_quota = word_of_nat (ac_daily_search_quota cfg),
      sv_refresh_ttl_days = ac_refresh_token_days cfg, sv_runtime = RT, sv_time_text = net_time_text N\<rparr>"

section \<open>Routes\<close>

datatype http_method = GET | HEAD | POST | DELETE | OtherMethod rstr

datatype segment = Segment rstr | Param

datatype endpoint =
    Healthz | Readyz
  | Register | Login | Refresh | Logout
  | CreateSearch | ListSearches | GetSearch | AnswerSearch | SearchEvents
  | CreateRecurring | ListRecurring | DeleteRecurring
  | GetProfile | DeleteAccount | CreateChannel | DeleteChannel
  | CreateDocument | ListDocuments | DeleteDocument
  | InternalStarted | InternalResults | InternalStep | InternalQuestion | InternalUsage | InternalFailure
  | InternalStoreChunks | InternalDocumentFailure | InternalRetrieve

definition sgs :: "string list \<Rightarrow> segment list" where
  "sgs = map (\<lambda>t. if t = ''{id}'' then Param else Segment (lit t))"

definition auth_routes :: "(segment list \<times> http_method \<times> endpoint) list" where
  "auth_routes =
     [(sgs [''api'', ''auth'', ''register''], POST, Register),
      (sgs [''api'', ''auth'', ''login''], POST, Login),
      (sgs [''api'', ''auth'', ''refresh''], POST, Refresh),
      (sgs [''api'', ''auth'', ''logout''], POST, Logout)]"

definition api_routes :: "(segment list \<times> http_method \<times> endpoint) list" where
  "api_routes =
     [(sgs [''api'', ''searches''], POST, CreateSearch),
      (sgs [''api'', ''searches''], GET, ListSearches),
      (sgs [''api'', ''searches'', ''{id}''], GET, GetSearch),
      (sgs [''api'', ''searches'', ''{id}'', ''answer''], POST, AnswerSearch),
      (sgs [''api'', ''searches'', ''{id}'', ''events''], GET, SearchEvents),
      (sgs [''api'', ''recurring''], POST, CreateRecurring),
      (sgs [''api'', ''recurring''], GET, ListRecurring),
      (sgs [''api'', ''recurring'', ''{id}''], DELETE, DeleteRecurring),
      (sgs [''api'', ''account''], GET, GetProfile),
      (sgs [''api'', ''account''], DELETE, DeleteAccount),
      (sgs [''api'', ''account'', ''channels''], POST, CreateChannel),
      (sgs [''api'', ''account'', ''channels'', ''{id}''], DELETE, DeleteChannel),
      (sgs [''api'', ''documents''], POST, CreateDocument),
      (sgs [''api'', ''documents''], GET, ListDocuments),
      (sgs [''api'', ''documents'', ''{id}''], DELETE, DeleteDocument)]"

definition other_routes :: "(segment list \<times> http_method \<times> endpoint) list" where
  "other_routes =
     [(sgs [''healthz''], GET, Healthz),
      (sgs [''readyz''], GET, Readyz),
      (sgs [''internal'', ''jobs'', ''{id}'', ''started''], POST, InternalStarted),
      (sgs [''internal'', ''jobs'', ''{id}'', ''results''], POST, InternalResults),
      (sgs [''internal'', ''jobs'', ''{id}'', ''steps''], POST, InternalStep),
      (sgs [''internal'', ''jobs'', ''{id}'', ''question''], POST, InternalQuestion),
      (sgs [''internal'', ''jobs'', ''{id}'', ''usage''], POST, InternalUsage),
      (sgs [''internal'', ''jobs'', ''{id}'', ''failure''], POST, InternalFailure),
      (sgs [''internal'', ''documents'', ''{id}'', ''chunks''], POST, InternalStoreChunks),
      (sgs [''internal'', ''documents'', ''{id}'', ''failure''], POST, InternalDocumentFailure),
      (sgs [''internal'', ''retrieve''], POST, InternalRetrieve)]"

fun matches :: "segment list \<Rightarrow> rstr list \<Rightarrow> bool" where
  "matches [] [] = True"
| "matches (Segment t # ts) (p # ps) = (t = p \<and> matches ts ps)"
| "matches (Param # ts) (p # ps) = (p \<noteq> [] \<and> matches ts ps)"
| "matches _ _ = False"

text \<open>
  A path is looked up first; the methods registered for it are tried next, and a route for
  \<open>GET\<close> answers \<open>HEAD\<close> too. A limiter is laid around a group of paths, so it also counts the
  requests whose method the path does not know.
\<close>

definition method_matches :: "http_method \<Rightarrow> http_method \<Rightarrow> bool" where
  "method_matches registered m \<longleftrightarrow> m = registered \<or> (registered = GET \<and> m = HEAD)"

definition find_endpoint ::
  "(segment list \<times> http_method \<times> endpoint) list \<Rightarrow> http_method \<Rightarrow> rstr list \<Rightarrow> endpoint option" where
  "find_endpoint routes m path =
     map_option (\<lambda>(_, _, e). e) (find (\<lambda>(t, m', _). method_matches m' m \<and> matches t path) routes)"

definition knows_path :: "(segment list \<times> http_method \<times> endpoint) list \<Rightarrow> rstr list \<Rightarrow> bool" where
  "knows_path routes path \<longleftrightarrow> list_ex (\<lambda>(t, _). matches t path) routes"

section \<open>A request on its way\<close>

text \<open>
  What a request brings: its headers, the peer's address if the server knows it, what the
  extractors make of its path and of its body for each type a handler may ask for, and the clock
  readings and fresh values its handling draws.
\<close>

record request =
  in_method :: http_method
  in_path :: "rstr list"
  in_headers :: headers
  in_peer_ip :: "rstr option"
  in_path_id :: "response + uuid"
  in_credentials :: "response + credentials"
  in_search :: "response + create_search_request"
  in_recurring :: "response + create_recurring_request"
  in_channel :: "response + create_channel_request"
  in_document :: "response + create_document_request"
  in_text :: "response + rstr"
  in_results :: "response + search_result list"
  in_step :: "response + agent_step"
  in_usage :: "response + job_usage"
  in_chunks :: "response + new_chunk_dto list"
  in_retrieve :: "response + retrieve_request"
  in_now :: time
  in_clock :: time
  in_instant :: int
  in_secs :: nat
  in_id :: uuid
  in_fresh_text :: rstr
  in_register :: register_draw
  in_login :: login_draw
  in_rotate :: rotate_draw
  in_launch :: launch_draw
  in_event :: event_draw

record 's server =
  srv_store :: 's
  srv_throttle :: limiter
  srv_auth :: limiter
  srv_api :: limiter

definition on_store :: "('s \<Rightarrow> response \<times> 's) \<Rightarrow> 's server \<Rightarrow> response \<times> 's server" where
  "on_store handler srv = (case handler (srv_store srv) of (r, s) \<Rightarrow> (r, srv\<lparr>srv_store := s\<rparr>))"

text \<open>Every handler but login works on the store alone.\<close>

fun store_handler :: "'s services \<Rightarrow> endpoint \<Rightarrow> request \<Rightarrow> 's \<Rightarrow> response \<times> 's" where
  "store_handler A Healthz q = (\<lambda>s. (http_healthz, s))"
| "store_handler A Readyz q = http_readyz A"
| "store_handler A Register q = http_register A (in_register q) (in_credentials q)"
| "store_handler A Login q = (\<lambda>s. (http_healthz, s))"
| "store_handler A Refresh q = http_refresh A (in_rotate q) (in_headers q)"
| "store_handler A Logout q = http_logout A (in_headers q)"
| "store_handler A CreateSearch q =
     http_create_search A (in_launch q) (in_event q) (in_now q) (in_headers q) (in_search q)"
| "store_handler A ListSearches q = http_list_searches A (in_now q) (in_headers q)"
| "store_handler A GetSearch q = http_get_search A (in_now q) (in_headers q) (in_path_id q)"
| "store_handler A AnswerSearch q =
     http_answer_search A (in_clock q) (in_now q) (in_headers q) (in_path_id q) (in_text q)"
| "store_handler A SearchEvents q = http_search_events A (in_now q) (in_headers q) (in_path_id q)"
| "store_handler A CreateRecurring q =
     http_create_recurring A (in_id q) (in_clock q) (in_now q) (in_headers q) (in_recurring q)"
| "store_handler A ListRecurring q = http_list_recurring A (in_now q) (in_headers q)"
| "store_handler A DeleteRecurring q = http_delete_recurring A (in_now q) (in_headers q) (in_path_id q)"
| "store_handler A GetProfile q = http_get_profile A (in_now q) (in_headers q)"
| "store_handler A DeleteAccount q = http_delete_account A (in_now q) (in_headers q)"
| "store_handler A CreateChannel q =
     http_create_channel A (in_id q) (in_clock q) (in_now q) (in_headers q) (in_channel q)"
| "store_handler A DeleteChannel q = http_delete_channel A (in_now q) (in_headers q) (in_path_id q)"
| "store_handler A CreateDocument q =
     http_create_document A (in_id q) (in_clock q) (in_now q) (in_headers q) (in_document q)"
| "store_handler A ListDocuments q = http_list_documents A (in_now q) (in_headers q)"
| "store_handler A DeleteDocument q = http_delete_document A (in_now q) (in_headers q) (in_path_id q)"
| "store_handler A InternalStarted q = http_internal_started A (in_headers q) (in_path_id q)"
| "store_handler A InternalResults q =
     http_internal_results A (in_clock q) (in_headers q) (in_path_id q) (in_results q)"
| "store_handler A InternalStep q = http_internal_step A (in_headers q) (in_path_id q) (in_step q)"
| "store_handler A InternalQuestion q = http_internal_question A (in_headers q) (in_path_id q) (in_text q)"
| "store_handler A InternalUsage q = http_internal_usage A (in_headers q) (in_path_id q) (in_usage q)"
| "store_handler A InternalFailure q =
     http_internal_failure A (in_clock q) (in_headers q) (in_path_id q) (in_text q)"
| "store_handler A InternalStoreChunks q =
     http_internal_store_chunks A (in_headers q) (in_path_id q) (in_chunks q)"
| "store_handler A InternalDocumentFailure q =
     http_internal_document_failure A (in_headers q) (in_path_id q) (in_text q)"
| "store_handler A InternalRetrieve q = http_internal_retrieve A (in_headers q) (in_retrieve q)"

text \<open>\<open>incr\<close> is the round trip to Redis of a request's limiters.\<close>

definition handle ::
  "'s services \<Rightarrow> (rstr \<Rightarrow> rstr + 32 word) \<Rightarrow> request \<Rightarrow> endpoint \<Rightarrow> 's server \<Rightarrow> response \<times> 's server" where
  "handle A incr q e srv =
     (if e = Login then
        (case http_login A incr (in_instant q) (in_secs q) (in_login q) (in_event q) (in_headers q)
                (in_credentials q) (srv_store srv, srv_throttle srv) of
           (r, s, throttle) \<Rightarrow> (r, srv\<lparr>srv_store := s, srv_throttle := throttle\<rparr>))
      else on_store (store_handler A e q) srv)"

text \<open>The routes of a group: the response to \<open>HEAD\<close> loses its body.\<close>

definition serve_routes ::
  "'s services \<Rightarrow> (rstr \<Rightarrow> rstr + 32 word) \<Rightarrow> (request \<Rightarrow> response) \<Rightarrow>
   (segment list \<times> http_method \<times> endpoint) list \<Rightarrow> request \<Rightarrow> 's server \<Rightarrow> response \<times> 's server" where
  "serve_routes A incr fallback routes q srv =
     (case find_endpoint routes (in_method q) (in_path q) of
        None \<Rightarrow> (fallback q, srv)
      | Some e \<Rightarrow>
          (case handle A incr q e srv of
             (r, srv') \<Rightarrow> (if in_method q = HEAD then r\<lparr>rsp_body := NoBody\<rparr> else r, srv')))"

definition client_of :: "request \<Rightarrow> client_info" where
  "client_of q =
     \<lparr>cl_forwarded_for = header_str (in_headers q) (lit ''x-forwarded-for''), cl_peer_ip = in_peer_ip q\<rparr>"

text \<open>What \<open>rate_limit\<close> does around a group: the limiter's refusal is the response.\<close>

definition limited ::
  "(rstr \<Rightarrow> rstr + 32 word) \<Rightarrow> request \<Rightarrow> ('s server \<Rightarrow> limiter) \<Rightarrow> (limiter \<Rightarrow> 's server \<Rightarrow> 's server) \<Rightarrow>
   ('s server \<Rightarrow> response \<times> 's server) \<Rightarrow> 's server \<Rightarrow> response \<times> 's server" where
  "limited incr q get put next_layer srv =
     (case rate_limit incr (in_instant q) (in_secs q) (client_of q) (get srv) of
        (Inl (status, message), lim) \<Rightarrow> (error_body status message, put lim srv)
      | (Inr _, lim) \<Rightarrow> next_layer (put lim srv))"

definition route_request ::
  "'s services \<Rightarrow> (rstr \<Rightarrow> rstr + 32 word) \<Rightarrow> (request \<Rightarrow> response) \<Rightarrow> request \<Rightarrow> 's server \<Rightarrow>
   response \<times> 's server" where
  "route_request A incr fallback q =
     (if knows_path auth_routes (in_path q) then
        limited incr q srv_auth (\<lambda>lim srv. srv\<lparr>srv_auth := lim\<rparr>)
          (serve_routes A incr fallback auth_routes q)
      else if knows_path api_routes (in_path q) then
        limited incr q srv_api (\<lambda>lim srv. srv\<lparr>srv_api := lim\<rparr>)
          (serve_routes A incr fallback api_routes q)
      else serve_routes A incr fallback other_routes q)"

definition serve ::
  "'s services \<Rightarrow> (rstr \<Rightarrow> rstr + 32 word) \<Rightarrow> (request \<Rightarrow> response) \<Rightarrow> request \<Rightarrow> 's server \<Rightarrow>
   response \<times> 's server" where
  "serve A incr fallback q srv =
     (case route_request A incr fallback q srv of
        (r, srv') \<Rightarrow> (security_headers (request_id (in_fresh_text q) (in_headers q) r), srv'))"

text \<open>The server \<open>main\<close> starts: three limiters from one configuration.\<close>

definition router_with_limits ::
  "(rstr \<Rightarrow> rstr option) \<Rightarrow> rate_limit_config \<Rightarrow> 's \<Rightarrow> 's server" where
  "router_with_limits open_url limits s =
     \<lparr>srv_store = s,
      srv_throttle = limiter_per_minute open_url (word_of_nat (rl_login_per_minute limits)) (lit ''login'')
                       (rl_redis_url limits),
      srv_auth = limiter_per_minute open_url (word_of_nat (rl_auth_per_minute limits)) (lit ''auth'')
                   (rl_redis_url limits),
      srv_api = limiter_per_minute open_url (word_of_nat (rl_api_per_minute limits)) (lit ''api'')
                  (rl_redis_url limits)\<rparr>"

end
