(* ===== verification/Sse.thy ===== *)
theory Sse
  imports Http_Public
begin

text \<open>
  \<open>adapters/http/sse.rs\<close>: the stream of a job's updates. Durations are milliseconds. The loop
  may wait for ever, so it is a partial function whose result is \<open>None\<close> when it does not end; the
  lemmas show that it does end, whatever the other requests do to the store meanwhile.
\<close>

section \<open>Cadence\<close>

definition POLL_INTERVAL :: int where "POLL_INTERVAL = 1000"

definition IDLE_POLL_INTERVAL :: int where "IDLE_POLL_INTERVAL = 15 * 1000"

definition MAX_STREAM_LIFETIME :: int where "MAX_STREAM_LIFETIME = 30 * 60 * 1000"

fun poll_interval :: "job_status \<Rightarrow> int \<Rightarrow> int \<Rightarrow> int" where
  "poll_interval AwaitingInput idle active = idle"
| "poll_interval _ idle active = active"

section \<open>The stream\<close>

text \<open>
  What happens around a stream: the store at each instant, as the other requests leave it; the
  instant at which a sleep of a given length that begins at an instant is over; the instant at
  which the connection asks for the event after the one it got at an instant; and the text of a
  JSON value.
\<close>

record 's surroundings =
  sur_store :: "int \<Rightarrow> 's"
  sur_resume :: "int \<Rightarrow> int \<Rightarrow> int"
  sur_pull :: "int \<Rightarrow> int"
  sur_json_text :: "json \<Rightarrow> rstr"

record stream_state =
  ss_user_id :: uuid
  ss_job_id :: uuid
  ss_last_payload :: "rstr option"
  ss_finished :: bool
  ss_started :: int
  ss_max_lifetime :: int
  ss_idle_interval :: int
  ss_active_interval :: int

record sse_event =
  ev_name :: rstr
  ev_data :: rstr

text \<open>The inner loop, from an instant: the next event and the instant it is delivered at, if any.\<close>

partial_function (option) next_event ::
  "'s services \<Rightarrow> 's surroundings \<Rightarrow> stream_state \<Rightarrow> int \<Rightarrow>
   (sse_event \<times> stream_state \<times> int) option option" where
  "next_event A W st t =
     (if ss_max_lifetime st \<le> t - ss_started st then Some None
      else
        (case fst (search_get (sv_jobs A) (ss_user_id st) (ss_job_id st) (sur_store W t)) of
           Inr (Some (job, results, steps)) \<Rightarrow>
             let payload = sur_json_text W (job_detail_json A job results steps) in
             if ss_last_payload st \<noteq> Some payload then
               Some (Some (\<lparr>ev_name = lit ''update'', ev_data = payload\<rparr>,
                           st\<lparr>ss_last_payload := Some payload, ss_finished := job_is_finished job\<rparr>, t))
             else
               next_event A W st
                 (sur_resume W t
                   (poll_interval (job_status job) (ss_idle_interval st) (ss_active_interval st)))
         | _ \<Rightarrow> Some None))"

text \<open>\<open>unfold\<close>: the events of the stream, with the instants they are delivered at.\<close>

partial_function (option) unfold_events ::
  "'s services \<Rightarrow> 's surroundings \<Rightarrow> stream_state \<Rightarrow> int \<Rightarrow> (sse_event \<times> int) list option" where
  "unfold_events A W st t =
     (if ss_finished st then Some []
      else
        Option.bind (next_event A W st t) (\<lambda>found.
          case found of
            None \<Rightarrow> Some []
          | Some (e, st', t') \<Rightarrow>
              Option.bind (unfold_events A W st' (sur_pull W t')) (\<lambda>es. Some ((e, t') # es))))"

definition job_updates_with ::
  "'s services \<Rightarrow> 's surroundings \<Rightarrow> int \<Rightarrow> uuid \<Rightarrow> uuid \<Rightarrow> int \<Rightarrow> int \<Rightarrow> int \<Rightarrow>
   (sse_event \<times> int) list option" where
  "job_updates_with A W now user i max_lifetime idle active =
     unfold_events A W
       \<lparr>ss_user_id = user, ss_job_id = i, ss_last_payload = None, ss_finished = False,
        ss_started = now, ss_max_lifetime = max_lifetime, ss_idle_interval = idle,
        ss_active_interval = active\<rparr> (sur_pull W now)"

definition job_updates ::
  "'s services \<Rightarrow> 's surroundings \<Rightarrow> int \<Rightarrow> uuid \<Rightarrow> uuid \<Rightarrow> (sse_event \<times> int) list option" where
  "job_updates A W now user i =
     job_updates_with A W now user i MAX_STREAM_LIFETIME IDLE_POLL_INTERVAL POLL_INTERVAL"

section \<open>The stream ends, and what it says\<close>

text \<open>A sleep lasts at least as long as asked, and events are not asked for in the past.\<close>

definition clock_ok :: "'s surroundings \<Rightarrow> bool" where
  "clock_ok W \<longleftrightarrow> (\<forall>t d. t + d \<le> sur_resume W t d) \<and> (\<forall>t. t \<le> sur_pull W t)"

definition shown ::
  "'s services \<Rightarrow> 's surroundings \<Rightarrow> uuid \<Rightarrow> uuid \<Rightarrow> int \<Rightarrow>
   (research_job \<times> search_result list \<times> agent_step list) option" where
  "shown A W user i t =
     (case fst (search_get (sv_jobs A) user i (sur_store W t)) of Inr x \<Rightarrow> x | Inl _ \<Rightarrow> None)"

definition payload_of :: "'s services \<Rightarrow> 's surroundings \<Rightarrow>
   research_job \<times> search_result list \<times> agent_step list \<Rightarrow> rstr" where
  "payload_of A W x = (case x of (job, results, steps) \<Rightarrow> sur_json_text W (job_detail_json A job results steps))"

lemma next_event_unfold:
  "next_event A W st t =
     (if ss_max_lifetime st \<le> t - ss_started st then Some None
      else
        (case shown A W (ss_user_id st) (ss_job_id st) t of
           None \<Rightarrow> Some None
         | Some x \<Rightarrow>
             if ss_last_payload st \<noteq> Some (payload_of A W x) then
               Some (Some (\<lparr>ev_name = lit ''update'', ev_data = payload_of A W x\<rparr>,
                           st\<lparr>ss_last_payload := Some (payload_of A W x),
                              ss_finished := job_is_finished (fst x)\<rparr>, t))
             else
               next_event A W st
                 (sur_resume W t
                   (poll_interval (job_status (fst x)) (ss_idle_interval st) (ss_active_interval st)))))"
  by (subst next_event.simps)
    (simp add: shown_def payload_of_def Let_def split: sum.split option.split prod.split)

text \<open>What an event tells of the instant it is delivered at.\<close>

definition event_at ::
  "'s services \<Rightarrow> 's surroundings \<Rightarrow> stream_state \<Rightarrow> int \<Rightarrow> sse_event \<Rightarrow> stream_state \<Rightarrow> int \<Rightarrow> bool" where
  "event_at A W st t e st' t' \<longleftrightarrow>
     t \<le> t' \<and> t' < ss_started st + ss_max_lifetime st \<and>
     (\<exists>x. shown A W (ss_user_id st) (ss_job_id st) t' = Some x \<and> ev_data e = payload_of A W x \<and>
          ev_name e = lit ''update'' \<and> ss_last_payload st \<noteq> Some (payload_of A W x) \<and>
          st' = st\<lparr>ss_last_payload := Some (payload_of A W x), ss_finished := job_is_finished (fst x)\<rparr>)"

lemma next_event_total:
  assumes clock: "clock_ok W" and pos: "0 < ss_idle_interval st" "0 < ss_active_interval st"
  shows "\<exists>r. next_event A W st t = Some r \<and>
           (case r of None \<Rightarrow> True | Some (e, st', t') \<Rightarrow> event_at A W st t e st' t')"
proof (induction "nat (ss_started st + ss_max_lifetime st - t)" arbitrary: t rule: less_induct)
  case less
  show ?case
  proof (cases "ss_max_lifetime st \<le> t - ss_started st \<or> shown A W (ss_user_id st) (ss_job_id st) t = None")
    case True
    then show ?thesis by (subst next_event_unfold) auto
  next
    case False
    then obtain x where x: "shown A W (ss_user_id st) (ss_job_id st) t = Some x"
      and young: "\<not> ss_max_lifetime st \<le> t - ss_started st"
      by auto
    show ?thesis
    proof (cases "ss_last_payload st = Some (payload_of A W x)")
      case False
      then show ?thesis using x young
        by (subst next_event_unfold) (auto simp: event_at_def)
    next
      case True
      define d where "d = poll_interval (job_status (fst x)) (ss_idle_interval st) (ss_active_interval st)"
      have "0 < d" using pos by (cases "job_status (fst x)") (simp_all add: d_def)
      moreover have "t + d \<le> sur_resume W t d" using clock by (simp add: clock_ok_def)
      ultimately have later: "t < sur_resume W t d" by simp
      then have "nat (ss_started st + ss_max_lifetime st - sur_resume W t d)
                   < nat (ss_started st + ss_max_lifetime st - t)"
        using young by simp
      from less [OF this] obtain r where r: "next_event A W st (sur_resume W t d) = Some r"
        and ev: "case r of None \<Rightarrow> True | Some (e, st', t') \<Rightarrow> event_at A W st (sur_resume W t d) e st' t'"
        by blast
      have "next_event A W st t = Some r"
        using x young True r by (subst next_event_unfold) (simp add: d_def)
      then show ?thesis using ev later by (auto simp: event_at_def split: option.splits)
    qed
  qed
qed

text \<open>
  The events of a stream from a state: each shows the job as the reader may see it at that
  instant, no two in a row are the same, and only the last may carry a finished job.
\<close>

fun told ::
  "'s services \<Rightarrow> 's surroundings \<Rightarrow> uuid \<Rightarrow> uuid \<Rightarrow> int \<Rightarrow> rstr option \<Rightarrow> (sse_event \<times> int) list \<Rightarrow> bool" where
  "told A W user i deadline lst [] \<longleftrightarrow> True"
| "told A W user i deadline lst ((e, t) # es) \<longleftrightarrow>
     t < deadline \<and> ev_name e = lit ''update'' \<and> lst \<noteq> Some (ev_data e) \<and>
     (\<exists>x. shown A W user i t = Some x \<and> ev_data e = payload_of A W x \<and>
          (job_is_finished (fst x) \<longrightarrow> es = [])) \<and>
     told A W user i deadline (Some (ev_data e)) es"

text \<open>
  Two events in a row are not delivered at the same instant, since nothing new is to be seen: the
  measure halves the instants left and counts whether there is news.
\<close>

definition stream_measure :: "'s services \<Rightarrow> 's surroundings \<Rightarrow> stream_state \<Rightarrow> int \<Rightarrow> nat" where
  "stream_measure A W st t =
     2 * nat (ss_started st + ss_max_lifetime st - t) +
     (if ss_last_payload st = map_option (payload_of A W) (shown A W (ss_user_id st) (ss_job_id st) t)
      then 0 else 1)"

lemma event_at_measure:
  assumes ev: "event_at A W st t e st' t'" and later: "t' \<le> u"
  shows "stream_measure A W st' u < stream_measure A W st t"
proof -
  obtain x where x: "shown A W (ss_user_id st) (ss_job_id st) t' = Some x"
    and news: "ss_last_payload st \<noteq> Some (payload_of A W x)"
    and st': "st' = st\<lparr>ss_last_payload := Some (payload_of A W x), ss_finished := job_is_finished (fst x)\<rparr>"
    and t': "t \<le> t'" "t' < ss_started st + ss_max_lifetime st"
    using ev by (auto simp: event_at_def)
  show ?thesis
  proof (cases "t = u")
    case True
    then have "t' = t" using t' later by simp
    then show ?thesis using True x news st' by (simp add: stream_measure_def)
  next
    case False
    then have "nat (ss_started st + ss_max_lifetime st - u) < nat (ss_started st + ss_max_lifetime st - t)"
      using t' later by simp
    moreover have "stream_measure A W st' u \<le> 2 * nat (ss_started st + ss_max_lifetime st - u) + 1"
      using st' by (simp add: stream_measure_def)
    moreover have "2 * nat (ss_started st + ss_max_lifetime st - t) \<le> stream_measure A W st t"
      by (simp add: stream_measure_def)
    ultimately show ?thesis by linarith
  qed
qed

lemma unfold_events_total:
  assumes clock: "clock_ok W" and pos: "0 < ss_idle_interval st" "0 < ss_active_interval st"
  shows "\<exists>es. unfold_events A W st t = Some es \<and>
           (if ss_finished st then es = []
            else told A W (ss_user_id st) (ss_job_id st) (ss_started st + ss_max_lifetime st) (ss_last_payload st) es)"
  using pos
proof (induction "stream_measure A W st t" arbitrary: st t rule: less_induct)
  case less
  show ?case
  proof (cases "ss_finished st")
    case True
    then show ?thesis by (subst unfold_events.simps) simp
  next
    case running: False
    obtain r where r: "next_event A W st t = Some r"
      and ev: "case r of None \<Rightarrow> True | Some (e, st', t') \<Rightarrow> event_at A W st t e st' t'"
      using next_event_total [OF clock less.prems] by blast
    show ?thesis
    proof (cases r)
      case None
      then show ?thesis using running r by (subst unfold_events.simps) simp
    next
      case (Some p)
      obtain e st' t' where p: "p = (e, st', t')" by (cases p)
      have at: "event_at A W st t e st' t'" using ev Some p by simp
      have "t' \<le> sur_pull W t'" using clock by (simp add: clock_ok_def)
      note smaller = event_at_measure [OF at this]
      have pos': "0 < ss_idle_interval st'" "0 < ss_active_interval st'"
        using at less.prems by (auto simp: event_at_def)
      obtain es where es: "unfold_events A W st' (sur_pull W t') = Some es"
        and rest: "if ss_finished st' then es = []
                   else told A W (ss_user_id st') (ss_job_id st') (ss_started st' + ss_max_lifetime st')
                          (ss_last_payload st') es"
        using less.hyps [OF smaller pos'] by blast
      have "unfold_events A W st t = Some ((e, t') # es)"
        using running r Some p es by (subst unfold_events.simps) simp
      moreover have "told A W (ss_user_id st) (ss_job_id st) (ss_started st + ss_max_lifetime st)
                       (ss_last_payload st) ((e, t') # es)"
        using at rest by (auto simp: event_at_def split: if_splits)
      ultimately show ?thesis using running by simp
    qed
  qed
qed

text \<open>An event is shown to the owner of its job only.\<close>

lemma told_imp:
  "told A W user i deadline lst es \<Longrightarrow> (e, t) \<in> set es \<Longrightarrow>
   t < deadline \<and> ev_name e = lit ''update'' \<and>
   (\<exists>x. shown A W user i t = Some x \<and> ev_data e = payload_of A W x)"
  by (induction A W user i deadline lst es rule: told.induct) auto

lemma told_distinct:
  "told A W user i deadline lst es \<Longrightarrow> distinct_adj (map (ev_data \<circ> fst) es)"
  by (induction A W user i deadline lst es rule: told.induct)
    (auto simp: distinct_adj_Cons split: list.split, case_tac es, auto)

lemma told_finished:
  "told A W user i deadline lst es \<Longrightarrow> (e, t) \<in> set (butlast es) \<Longrightarrow>
   \<exists>x. shown A W user i t = Some x \<and> \<not> job_is_finished (fst x)"
  by (induction A W user i deadline lst es rule: told.induct) (auto split: if_splits)

end
