(* ===== verification/Http_Facts.thy ===== *)
theory Http_Facts
  imports Router Sse Demo
begin

text \<open>
  Facts about the router shared by the properties of the HTTP layer: which endpoints a group of
  routes leads to, what a handler answers in every case, what the layers around a handler leave of
  its response and of the server, and what runs of many requests do to the login throttle.
\<close>

section \<open>Finding an endpoint\<close>

lemma find_endpoint_in:
  "find_endpoint routes m path = Some e \<Longrightarrow> e \<in> (\<lambda>(_, _, x). x) ` set routes"
  unfolding find_endpoint_def map_option_eq_Some find_Some_iff
  by (metis (no_types, lifting) image_eqI nth_mem)

definition internal_endpoints :: "endpoint set" where
  "internal_endpoints =
     {InternalStarted, InternalResults, InternalStep, InternalQuestion, InternalUsage, InternalFailure,
      InternalStoreChunks, InternalDocumentFailure, InternalRetrieve}"

definition api_endpoints :: "endpoint set" where
  "api_endpoints = (\<lambda>(_, _, x). x) ` set api_routes"

lemma api_endpoints_simps:
  "e \<in> api_endpoints \<longleftrightarrow>
     e = CreateSearch \<or> e = ListSearches \<or> e = GetSearch \<or> e = AnswerSearch \<or> e = SearchEvents \<or>
     e = CreateRecurring \<or> e = ListRecurring \<or> e = DeleteRecurring \<or> e = GetProfile \<or>
     e = DeleteAccount \<or> e = CreateChannel \<or> e = DeleteChannel \<or> e = CreateDocument \<or>
     e = ListDocuments \<or> e = DeleteDocument"
  by (auto simp: api_endpoints_def api_routes_def)

lemma internal_path:
  assumes "in_path q = lit ''internal'' # rest"
  shows "\<not> knows_path auth_routes (in_path q)" and "\<not> knows_path api_routes (in_path q)"
    and "find_endpoint other_routes (in_method q) (in_path q) = Some e \<Longrightarrow> e \<in> internal_endpoints"
  using assms
  by (simp_all add: knows_path_def auth_routes_def api_routes_def sgs_def)
    (auto simp: find_endpoint_def find_Some_iff other_routes_def internal_endpoints_def sgs_def
      split: if_splits)

section \<open>What a handler answers in every case\<close>

definition answers :: "(response \<Rightarrow> bool) \<Rightarrow> ('s \<Rightarrow> response \<times> 's) \<Rightarrow> bool" where
  "answers P h \<longleftrightarrow> (\<forall>s. P (fst (h s)))"

named_theorems answering

lemma answers_extracted [answering]:
  "(\<And>r. x = Inl r \<Longrightarrow> P r) \<Longrightarrow> (\<And>b. answers P (h b)) \<Longrightarrow> answers P (extracted x h)"
  by (auto simp: answers_def extracted_def split: sum.split)

lemma answers_authed [answering]:
  "P (error_body 401 (lit ''invalid or missing access token'')) \<Longrightarrow> (\<And>u. answers P (h u)) \<Longrightarrow>
   answers P (authed A now hs h)"
  by (auto simp: answers_def authed_def auth_user_def split: sum.splits option.splits)

lemma answers_internal [answering]:
  "P (error_body 401 (lit ''invalid or missing internal token'')) \<Longrightarrow> answers P h \<Longrightarrow>
   answers P (internal A hs h)"
  by (auto simp: answers_def internal_def check_internal_token_def Let_def split: option.splits if_splits)

lemma answers_respond [answering]: "(\<And>r. P (f r)) \<Longrightarrow> answers P (respond m f)"
  by (simp add: answers_def respond_def split: prod.split)

section \<open>Server errors say nothing of their cause\<close>

definition generic_body :: "body \<Rightarrow> bool" where
  "generic_body b \<longleftrightarrow>
     b \<in> {NoBody, TextBody (lit ''not ready''), JsonBody (JObject [(lit ''error'', JString (lit ''internal error''))]),
          JsonBody (JObject [(lit ''error'', JString (lit ''failed to reach the agent''))])}"

definition discreet :: "response \<Rightarrow> bool" where
  "discreet r \<longleftrightarrow> (500 \<le> rsp_status r \<longrightarrow> generic_body (rsp_body r))"

lemma discreet_client_error [simp]: "rsp_status r < 500 \<Longrightarrow> discreet r"
  by (simp add: discreet_def)

lemma reply_status [simp]:
  "rsp_status (error_body n t) = n" "rsp_status (json_reply n j) = n" "rsp_status (empty_reply n) = n"
  "rsp_status (text_reply n t) = n" "rsp_status (set_header k v r) = rsp_status r"
  by (simp_all add: error_body_def json_reply_def empty_reply_def text_reply_def set_header_def)

lemma discreet_simps [simp]:
  "discreet internal_error" "discreet (error_body 502 (lit ''failed to reach the agent''))"
  "discreet (text_reply 503 (lit ''not ready''))" "discreet (set_header k v r) = discreet r"
  by (simp_all add: discreet_def internal_error_def error_body_def json_reply_def text_reply_def
      generic_body_def set_header_def)

lemma discreet_replies [simp]:
  "discreet (register_reply A x1)" "discreet (refresh_reply A x2)" "discreet (profile_reply A x3)"
  "discreet (channel_reply A x4)" "discreet (deleted_reply t x5)" "discreet (list_reply v x6)"
  "discreet (document_reply A x7)" "discreet (get_search_reply A x8)" "discreet (search_events_reply x9)"
  "discreet (answer_reply x10)" "discreet (create_recurring_reply A x11)"
  "discreet (delete_recurring_reply x12)" "discreet (ingest_reply x13)"
  "discreet (store_chunks_reply x14)" "discreet (retrieve_reply x15)"
  subgoal by (cases "(A, x1)" rule: register_reply.cases) simp_all
  subgoal by (cases "(A, x2)" rule: refresh_reply.cases) (simp_all add: session_response_def clearing_cookie_def)
  subgoal by (cases "(A, x3)" rule: profile_reply.cases) simp_all
  subgoal by (cases "(A, x4)" rule: channel_reply.cases) simp_all
  subgoal by (cases "(t, x5)" rule: deleted_reply.cases) simp_all
  subgoal by (cases "(v, x6)" rule: list_reply.cases) simp_all
  subgoal by (cases "(A, x7)" rule: document_reply.cases) simp_all
  subgoal by (cases "(A, x8)" rule: get_search_reply.cases) simp_all
  subgoal by (cases x9 rule: search_events_reply.cases) simp_all
  subgoal by (cases x10 rule: answer_reply.cases) simp_all
  subgoal by (cases "(A, x11)" rule: create_recurring_reply.cases) simp_all
  subgoal by (cases x12 rule: delete_recurring_reply.cases) simp_all
  subgoal by (cases x13 rule: ingest_reply.cases) simp_all
  subgoal by (cases x14 rule: store_chunks_reply.cases) simp_all
  subgoal by (cases x15 rule: retrieve_reply.cases) simp_all
  done

text \<open>Requests whose parts the framework rejects are the client's fault.\<close>

definition rejected_as_client_error :: "response + 'b \<Rightarrow> bool" where
  "rejected_as_client_error x \<longleftrightarrow> (case x of Inl r \<Rightarrow> rsp_status r < 500 | Inr _ \<Rightarrow> True)"

definition rejections_ok :: "request \<Rightarrow> bool" where
  "rejections_ok q \<longleftrightarrow>
     rejected_as_client_error (in_path_id q) \<and> rejected_as_client_error (in_credentials q) \<and>
     rejected_as_client_error (in_search q) \<and> rejected_as_client_error (in_recurring q) \<and>
     rejected_as_client_error (in_channel q) \<and> rejected_as_client_error (in_document q) \<and>
     rejected_as_client_error (in_text q) \<and> rejected_as_client_error (in_results q) \<and>
     rejected_as_client_error (in_step q) \<and> rejected_as_client_error (in_usage q) \<and>
     rejected_as_client_error (in_chunks q) \<and> rejected_as_client_error (in_retrieve q)"

lemma rejections_ok_status:
  assumes "rejections_ok q"
  shows "in_path_id q = Inl r \<Longrightarrow> rsp_status r < 500" "in_credentials q = Inl r \<Longrightarrow> rsp_status r < 500"
    "in_search q = Inl r \<Longrightarrow> rsp_status r < 500" "in_recurring q = Inl r \<Longrightarrow> rsp_status r < 500"
    "in_channel q = Inl r \<Longrightarrow> rsp_status r < 500" "in_document q = Inl r \<Longrightarrow> rsp_status r < 500"
    "in_text q = Inl r \<Longrightarrow> rsp_status r < 500" "in_results q = Inl r \<Longrightarrow> rsp_status r < 500"
    "in_step q = Inl r \<Longrightarrow> rsp_status r < 500" "in_usage q = Inl r \<Longrightarrow> rsp_status r < 500"
    "in_chunks q = Inl r \<Longrightarrow> rsp_status r < 500" "in_retrieve q = Inl r \<Longrightarrow> rsp_status r < 500"
  using assms by (simp_all add: rejections_ok_def rejected_as_client_error_def)

lemma create_search_discreet:
  assumes "rejections_ok q"
  shows "answers discreet (http_create_search A d ed now hs (in_search q))"
  unfolding http_create_search_def
  by (intro answering)
    (auto simp: answers_def rejections_ok_status [OF assms]
      split: prod.split sum.split launch_error.split)

lemma create_channel_discreet:
  assumes "rejections_ok q"
  shows "answers discreet (http_create_channel A new_id c now hs (in_channel q))"
proof -
  have "answers discreet
      (\<lambda>s. case channel_kind_parse (cc_kind b) of
         None \<Rightarrow> (error_body 422 (lit ''unknown channel kind''), s)
       | Some kind \<Rightarrow>
           respond (add_channel (sv_channels A) (sv_email_enabled A) new_id c user kind
                     (cc_target b) (cc_secret b)) (channel_reply A) s)" for user b
    by (auto simp: answers_def respond_def split: option.split prod.split)
  then show ?thesis
    unfolding http_create_channel_def
    by (intro answering) (simp_all add: rejections_ok_status [OF assms])
qed

lemma store_handler_discreet:
  assumes "rejections_ok q"
  shows "answers discreet (store_handler A e q)"
proof (cases e)
  case CreateSearch
  then show ?thesis by (simp add: create_search_discreet [OF assms])
next
  case CreateChannel
  then show ?thesis by (simp add: create_channel_discreet [OF assms])
qed (simp_all add: http_register_def http_logout_def http_delete_account_def http_get_profile_def
      http_delete_channel_def http_list_documents_def http_create_document_def http_delete_document_def
      http_list_searches_def http_get_search_def http_search_events_def http_answer_search_def
      http_create_recurring_def http_list_recurring_def http_delete_recurring_def
      http_internal_started_def http_internal_results_def http_internal_step_def
      http_internal_question_def http_internal_usage_def http_internal_failure_def
      http_internal_store_chunks_def http_internal_document_failure_def http_internal_retrieve_def,
    (auto intro!: answering simp: rejections_ok_status [OF assms] split: sum.split
      | auto simp: answers_def http_healthz_def http_readyz_def http_refresh_def http_logout_def
          respond_def clearing_cookie_def split: option.split prod.split)+)

lemma http_login_discreet:
  assumes "rejections_ok q"
  shows "discreet (fst (http_login A incr instant secs d ed hs (in_credentials q) st))"
  using rejections_ok_status(2) [OF assms]
  by (auto simp: http_login_def Let_def session_response_def split: prod.split sum.split login_error.split)

lemma handle_discreet:
  assumes "rejections_ok q"
  shows "discreet (fst (handle A incr q e srv))"
  using http_login_discreet [OF assms, of A incr "in_instant q" "in_secs q" "in_login q" "in_event q"
      "in_headers q" "(srv_store srv, srv_throttle srv)"] store_handler_discreet [OF assms, of A e, unfolded answers_def, THEN spec, of "srv_store srv"]
  by (auto simp: handle_def on_store_def split: prod.splits)

section \<open>The layers\<close>

lemma header_of_set_header:
  "map_of (rsp_headers (set_header k v r)) k' = (if k' = k then Some v else map_of (rsp_headers r) k')"
proof -
  have "map_of (filter (\<lambda>(n, _). n \<noteq> k) xs @ [(k, v)]) k' = (if k' = k then Some v else map_of xs k')" for xs
    by (induction xs) (auto simp: map_add_def)
  then show ?thesis by (simp add: set_header_def)
qed

lemma security_headers_get:
  "map_of (rsp_headers (security_headers r)) (lit ''x-content-type-options'') = Some (lit ''nosniff'')"
  "map_of (rsp_headers (security_headers r)) (lit ''x-frame-options'') = Some (lit ''DENY'')"
  "map_of (rsp_headers (security_headers r)) (lit ''referrer-policy'') = Some (lit ''no-referrer'')"
  "map_of (rsp_headers (security_headers r)) (lit ''content-security-policy'') = Some CONTENT_SECURITY_POLICY"
  by (simp_all add: security_headers_def header_of_set_header)

lemma security_headers_id:
  "map_of (rsp_headers (security_headers r)) (lit ''x-request-id'') = map_of (rsp_headers r) (lit ''x-request-id'')"
  by (simp add: security_headers_def header_of_set_header)

lemma layers_keep [simp]:
  "rsp_status (security_headers r) = rsp_status r" "rsp_body (security_headers r) = rsp_body r"
  "rsp_status (request_id i hs r) = rsp_status r" "rsp_body (request_id i hs r) = rsp_body r"
  by (simp_all add: security_headers_def request_id_def Let_def set_header_def)

lemma serve_layers:
  "rsp_status (fst (serve A incr fallback q srv)) = rsp_status (fst (route_request A incr fallback q srv))"
  "rsp_body (fst (serve A incr fallback q srv)) = rsp_body (fst (route_request A incr fallback q srv))"
  "snd (serve A incr fallback q srv) = snd (route_request A incr fallback q srv)"
  by (simp_all add: serve_def split: prod.split)

lemma limited_cases:
  obtains (refused) lim where
    "limiter_allow incr (in_instant q) (in_secs q) (client_key (client_of q)) (get srv) = (False, lim)"
    "limited incr q get put next_layer srv = (error_body 429 too_many_requests, put lim srv)"
  | (passed) lim where
    "limiter_allow incr (in_instant q) (in_secs q) (client_key (client_of q)) (get srv) = (True, lim)"
    "limited incr q get put next_layer srv = next_layer (put lim srv)"
  by (cases "limiter_allow incr (in_instant q) (in_secs q) (client_key (client_of q)) (get srv)")
    (auto simp: limited_def rate_limit_def)

text \<open>A request is refused, unknown, or handled in one of the three groups.\<close>

lemma route_request_cases:
  obtains (refused) srv' where
    "route_request A incr fallback q srv = (error_body 429 too_many_requests, srv')"
    "srv_store srv' = srv_store srv" "srv_throttle srv' = srv_throttle srv"
  | (unknown) srv' where
    "route_request A incr fallback q srv = (fallback q, srv')"
    "srv_store srv' = srv_store srv" "srv_throttle srv' = srv_throttle srv"
    "knows_path auth_routes (in_path q) \<longrightarrow> find_endpoint auth_routes (in_method q) (in_path q) = None"
  | (handled) routes e srv1 r srv' where
    "routes \<in> {auth_routes, api_routes, other_routes}"
    "routes \<noteq> auth_routes \<longrightarrow> \<not> knows_path auth_routes (in_path q)"
    "routes = other_routes \<longrightarrow> \<not> knows_path api_routes (in_path q)"
    "find_endpoint routes (in_method q) (in_path q) = Some e"
    "srv_store srv1 = srv_store srv" "srv_throttle srv1 = srv_throttle srv"
    "handle A incr q e srv1 = (r, srv')"
    "route_request A incr fallback q srv =
       (if in_method q = HEAD then r\<lparr>rsp_body := NoBody\<rparr> else r, srv')"
proof -
  have served: thesis
    if routes: "routes \<in> {auth_routes, api_routes, other_routes}"
      "routes \<noteq> auth_routes \<longrightarrow> \<not> knows_path auth_routes (in_path q)"
      "routes = other_routes \<longrightarrow> \<not> knows_path api_routes (in_path q)"
    and eq: "route_request A incr fallback q srv = serve_routes A incr fallback routes q srv1"
    and same: "srv_store srv1 = srv_store srv" "srv_throttle srv1 = srv_throttle srv" for routes srv1
  proof (cases "find_endpoint routes (in_method q) (in_path q)")
    case None
    then show thesis using eq same routes by (intro unknown [of srv1]) (auto simp: serve_routes_def)
  next
    case (Some e)
    obtain r srv' where "handle A incr q e srv1 = (r, srv')" by fastforce
    then show thesis using handled [OF routes Some same] eq Some by (simp add: serve_routes_def)
  qed
  have distinct: "api_routes \<noteq> auth_routes" "other_routes \<noteq> auth_routes" "api_routes \<noteq> other_routes"
    by (simp_all add: api_routes_def auth_routes_def other_routes_def)
  consider (auth) "knows_path auth_routes (in_path q)"
    | (api) "\<not> knows_path auth_routes (in_path q)" "knows_path api_routes (in_path q)"
    | (other) "\<not> knows_path auth_routes (in_path q)" "\<not> knows_path api_routes (in_path q)"
    by blast
  then show thesis
  proof cases
    case auth
    then have eq: "route_request A incr fallback q srv =
        limited incr q srv_auth (\<lambda>lim srv. srv\<lparr>srv_auth := lim\<rparr>) (serve_routes A incr fallback auth_routes q) srv"
      by (simp add: route_request_def)
    show thesis
      by (rule limited_cases [of incr q srv_auth srv "\<lambda>lim srv. srv\<lparr>srv_auth := lim\<rparr>"
            "serve_routes A incr fallback auth_routes q"])
        (use eq distinct refused served [of auth_routes] in auto)
  next
    case api
    then have eq: "route_request A incr fallback q srv =
        limited incr q srv_api (\<lambda>lim srv. srv\<lparr>srv_api := lim\<rparr>) (serve_routes A incr fallback api_routes q) srv"
      by (simp add: route_request_def)
    show thesis
      by (rule limited_cases [of incr q srv_api srv "\<lambda>lim srv. srv\<lparr>srv_api := lim\<rparr>"
            "serve_routes A incr fallback api_routes q"])
        (use api eq distinct refused served [of api_routes] in auto)
  next
    case other
    then show thesis
      using served [of other_routes srv] distinct by (simp add: route_request_def)
  qed
qed

lemma route_request_discreet:
  assumes "rejections_ok q" and "rsp_status (fallback q) < 500"
  shows "discreet (fst (route_request A incr fallback q srv))"
proof (cases A incr fallback q srv rule: route_request_cases)
  case (handled routes e srv1 r srv')
  then show ?thesis
    using handle_discreet [OF assms(1), of A incr e srv1] by (auto simp: discreet_def generic_body_def)
qed (use assms in simp_all)

section \<open>Guessing passwords\<close>

text \<open>A request that asks for a session of the account with this key.\<close>

definition login_attempt :: "'s services \<Rightarrow> rstr \<Rightarrow> request \<Rightarrow> bool" where
  "login_attempt A key q \<longleftrightarrow>
     in_method q = POST \<and> in_path q = [lit ''api'', lit ''auth'', lit ''login''] \<and>
     (case in_credentials q of Inl _ \<Rightarrow> False | Inr c \<Rightarrow> normalise_email (sv_runtime A) (cr_email c) = key)"

fun run_server ::
  "'s services \<Rightarrow> (rstr \<Rightarrow> rstr + 32 word) \<Rightarrow> (request \<Rightarrow> response) \<Rightarrow> request list \<Rightarrow> 's server \<Rightarrow>
   response list \<times> 's server" where
  "run_server A incr fallback [] srv = ([], srv)"
| "run_server A incr fallback (q # qs) srv =
     (case serve A incr fallback q srv of
        (r, srv1) \<Rightarrow> (case run_server A incr fallback qs srv1 of (rs, srv2) \<Rightarrow> (r # rs, srv2)))"

definition guesses :: "'s services \<Rightarrow> rstr \<Rightarrow> request list \<Rightarrow> response list \<Rightarrow> nat" where
  "guesses A key qs rs = length (filter (\<lambda>(q, r). login_attempt A key q \<and> rsp_status r \<noteq> 429) (zip qs rs))"

lemma login_endpoint:
  assumes "login_attempt A key q"
  shows "knows_path auth_routes (in_path q)" and "find_endpoint auth_routes (in_method q) (in_path q) = Some Login"
  using assms
  by (simp_all add: login_attempt_def knows_path_def auth_routes_def sgs_def find_endpoint_def method_matches_def)

text \<open>What one request does to the login throttle: nothing, or one hit.\<close>

lemma handle_throttle:
  assumes "srv_throttle srv = InMemoryLimiter fw" and "handle A incr q e srv = (r, srv')"
  obtains "srv_throttle srv' = InMemoryLimiter fw" "e = Login \<Longrightarrow> \<not> login_attempt A key q"
  | c where "e = Login" "in_credentials q = Inr c"
      "srv_throttle srv' = InMemoryLimiter (snd (allow_at (normalise_email (sv_runtime A) (cr_email c)) (in_instant q) fw))"
      "\<not> fst (allow_at (normalise_email (sv_runtime A) (cr_email c)) (in_instant q) fw) \<longrightarrow> rsp_status r = 429"
proof (cases "e = Login")
  case False
  then show thesis using assms that(1) by (auto simp: handle_def on_store_def split: prod.splits)
next
  case True
  show thesis
  proof (cases "in_credentials q")
    case (Inl rejection)
    then show thesis using True assms that(1)
      by (auto simp: handle_def http_login_def login_attempt_def split: prod.splits)
  next
    case (Inr c)
    obtain b fw' where hit: "allow_at (normalise_email (sv_runtime A) (cr_email c)) (in_instant q) fw = (b, fw')"
      by fastforce
    have "srv_throttle srv' = InMemoryLimiter fw' \<and> (\<not> b \<longrightarrow> rsp_status r = 429)"
      using True assms Inr hit
      by (auto simp: handle_def http_login_def limiter_allow_def Let_def
          split: prod.splits sum.splits login_error.splits if_splits)
    then show thesis using that(2) [OF True Inr] hit by simp
  qed
qed

lemma serve_throttle:
  assumes fw: "srv_throttle srv = InMemoryLimiter fw" and eq: "serve A incr fallback q srv = (r, srv')"
  obtains "srv_throttle srv' = InMemoryLimiter fw" "login_attempt A key q \<Longrightarrow> rsp_status r = 429"
  | k where "srv_throttle srv' = InMemoryLimiter (snd (allow_at k (in_instant q) fw))"
      "login_attempt A key q \<Longrightarrow> rsp_status r \<noteq> 429 \<Longrightarrow> k = key \<and> fst (allow_at k (in_instant q) fw)"
proof -
  have srv': "srv' = snd (route_request A incr fallback q srv)"
    and status: "rsp_status r = rsp_status (fst (route_request A incr fallback q srv))"
    using serve_layers [of A incr fallback q srv] eq by simp_all
  show thesis
  proof (cases A incr fallback q srv rule: route_request_cases)
    case (refused srv1)
    then show thesis using that(1) fw srv' status by simp
  next
    case (unknown srv1)
    then have "\<not> login_attempt A key q" using login_endpoint [of A key q] by auto
    then show thesis using that(1) fw srv' unknown by simp
  next
    case (handled routes e srv1 r1 srv2)
    have throttle: "srv_throttle srv1 = InMemoryLimiter fw" using fw handled by simp
    have srv2: "srv' = srv2" and r1: "rsp_status r = rsp_status r1"
      using srv' status handled by (auto split: if_splits)
    have login: "e = Login" if "login_attempt A key q"
      using handled(2,4) login_endpoint [OF that] by auto
    show thesis
    proof (rule handle_throttle [OF throttle handled(7), of key])
      assume "srv_throttle srv2 = InMemoryLimiter fw" "e = Login \<Longrightarrow> \<not> login_attempt A key q"
      then show thesis using that(1) srv2 login by auto
    next
      fix c
      assume "in_credentials q = Inr c"
        "srv_throttle srv2 = InMemoryLimiter (snd (allow_at (normalise_email (sv_runtime A) (cr_email c)) (in_instant q) fw))"
        "\<not> fst (allow_at (normalise_email (sv_runtime A) (cr_email c)) (in_instant q) fw) \<longrightarrow> rsp_status r1 = 429"
      then show thesis using that(2) srv2 r1 by (auto simp: login_attempt_def)
    qed
  qed
qed

text \<open>So the throttle sees a sequence of hits, and each guess is a hit it admitted.\<close>

lemma run_server_throttle:
  assumes "srv_throttle srv = InMemoryLimiter fw" and "run_server A incr fallback qs srv = (rs, srv')"
  shows "\<exists>evs. srv_throttle srv' = InMemoryLimiter (snd (run_hits evs fw)) \<and> length evs \<le> length qs \<and>
           snd ` set evs \<subseteq> in_instant ` set qs \<and> guesses A key qs rs \<le> admitted key evs fw"
  using assms
proof (induction qs arbitrary: srv fw rs)
  case Nil
  then show ?case by (auto intro!: exI [of _ "[]"] simp: guesses_def)
next
  case (Cons q qs)
  obtain r srv1 rs' where one: "serve A incr fallback q srv = (r, srv1)"
    and more: "run_server A incr fallback qs srv1 = (rs', srv')" and rs: "rs = r # rs'"
    using Cons.prems(2) by (auto split: prod.splits)
  have count: "guesses A key (q # qs) rs =
      (if login_attempt A key q \<and> rsp_status r \<noteq> 429 then 1 else 0) + guesses A key qs rs'"
    by (simp add: guesses_def rs)
  from Cons.prems(1) one show ?case
  proof (cases rule: serve_throttle [where key = key])
    case 1
    from Cons.IH [OF 1(1) more] obtain evs where
      "srv_throttle srv' = InMemoryLimiter (snd (run_hits evs fw))" "length evs \<le> length qs"
      "snd ` set evs \<subseteq> in_instant ` set qs" "guesses A key qs rs' \<le> admitted key evs fw" by blast
    then show ?thesis using 1(2) unfolding count by (intro exI [of _ evs]) auto
  next
    case (2 k)
    from Cons.IH [OF 2(1) more] obtain evs where evs:
      "srv_throttle srv' = InMemoryLimiter (snd (run_hits evs (snd (allow_at k (in_instant q) fw))))"
      "length evs \<le> length qs" "snd ` set evs \<subseteq> in_instant ` set qs"
      "guesses A key qs rs' \<le> admitted key evs (snd (allow_at k (in_instant q) fw))" by blast
    show ?thesis
      using evs 2(2) unfolding count
      by (intro exI [of _ "(k, in_instant q) # evs"])
        (auto simp: snd_run_hits_Cons admitted_Cons simp del: run_hits.simps(2))
  qed
qed

section \<open>A concrete server\<close>

definition demo_services :: "world services" where
  "demo_services =
     app_services (+) demo_float demo_runtime demo_net demo_config (\<lambda>_. None) demo_hasher demo_tokens"

definition demo_bad :: "response + 'a" where
  "demo_bad = Inl (text_reply 400 (lit ''bad request''))"

definition demo_request :: request where
  "demo_request =
     \<lparr>in_method = GET, in_path = [], in_headers = [], in_peer_ip = None, in_path_id = demo_bad,
      in_credentials = demo_bad, in_search = demo_bad, in_recurring = demo_bad, in_channel = demo_bad,
      in_document = demo_bad, in_text = demo_bad, in_results = demo_bad, in_step = demo_bad,
      in_usage = demo_bad, in_chunks = demo_bad, in_retrieve = demo_bad, in_now = 0, in_clock = 0,
      in_instant = 0, in_secs = 0, in_id = 9, in_fresh_text = [97], in_register = \<lparr>rgd_salt = [1], rgd_id = 2, rgd_now = 0\<rparr>,
      in_login = \<lparr>lgd_family = 6, lgd_token = demo_token_draw, lgd_access = 0\<rparr>,
      in_rotate =
        \<lparr>rtd_event_id = 8, rtd_event_now = 0, rtd_now = 0, rtd_consumed = 0, rtd_token = demo_token_draw,
         rtd_access = 0\<rparr>,
      in_launch = demo_launch,
      in_event = \<lparr>ed_id = 8, ed_now = 0\<rparr>\<rparr>"

definition demo_server :: "world server" where
  "demo_server = router_with_limits (\<lambda>_. None) rate_limit_config_default demo_world"

definition demo_fallback :: "request \<Rightarrow> response" where
  "demo_fallback q = empty_reply 404"

end
