(* ===== verification/Guarantees_Http.thy ===== *)
theory Guarantees_Http
  imports Http_Facts
begin

text \<open>
  What the server promises at its boundary: a request goes through the middlewares and the route
  table to its handler and back, whatever the repositories, the services and the other requests do.
\<close>

section \<open>Guessing passwords\<close>

lemma unat_word_of_nat_le: "unat (word_of_nat n :: 32 word) \<le> n"
  by (simp add: unat_of_nat)

text \<open>
  C17. However requests are spread over routes, client addresses and spellings of an address, in any
  minute at most twice \<open>login_per_minute\<close> attempts on one account get an answer other than 429,
  whatever the server served before (with the limiters in memory, and fewer than \<open>2 ^ 32\<close> requests
  in all, since the counters have 32 bits).
\<close>

theorem login_guessing_bounded:
  assumes "rl_redis_url limits = None"
    and "length earlier + length qs < 2 ^ 32"
    and "\<forall>q \<in> set qs. a \<le> in_instant q \<and> in_instant q < a + 60 * second"
  shows "case run_server A incr fallback earlier (router_with_limits open_url limits s) of
           (_, srv) \<Rightarrow> guesses A key qs (fst (run_server A incr fallback qs srv))
                        \<le> 2 * rl_login_per_minute limits"
proof -
  let ?fw = "fixed_window_per_minute (word_of_nat (rl_login_per_minute limits))"
  obtain rs1 srv1 where one: "run_server A incr fallback earlier (router_with_limits open_url limits s) = (rs1, srv1)"
    by fastforce
  obtain rs2 srv2 where two: "run_server A incr fallback qs srv1 = (rs2, srv2)" by fastforce
  have "srv_throttle (router_with_limits open_url limits s) = InMemoryLimiter ?fw"
    using assms(1) by (simp add: router_with_limits_def limiter_per_minute_def)
  from run_server_throttle [OF this one] obtain evs1 where
    evs1: "srv_throttle srv1 = InMemoryLimiter (snd (run_hits evs1 ?fw))" "length evs1 \<le> length earlier" by blast
  from run_server_throttle [OF evs1(1) two, of key] obtain evs2 where
    evs2: "length evs2 \<le> length qs" "snd ` set evs2 \<subseteq> in_instant ` set qs"
      "guesses A key qs rs2 \<le> admitted key evs2 (snd (run_hits evs1 ?fw))" by blast
  have "within a ?fw evs2"
    using evs2(2) assms(3) by (fastforce simp: within_def fixed_window_per_minute_def)
  then have "admitted key evs2 (snd (run_hits evs1 ?fw)) \<le> 2 * unat (word_of_nat (rl_login_per_minute limits) :: 32 word)"
    using evs1(2) evs2(1) assms(2) by (intro any_window_bound) auto
  then have "guesses A key qs rs2 \<le> 2 * rl_login_per_minute limits"
    using evs2(3) unat_word_of_nat_le [of "rl_login_per_minute limits"] by linarith
  then show ?thesis using one two by simp
qed

definition demo_login :: request where
  "demo_login =
     demo_request\<lparr>in_method := POST, in_path := [lit ''api'', lit ''auth'', lit ''login''],
                   in_credentials := Inr \<lparr>cr_email = [97], cr_password = [98]\<rparr>\<rparr>"

lemma login_guessing_bounded_witness:
  "case run_server demo_services (\<lambda>_. Inr 1) demo_fallback [demo_login, demo_login] demo_server of
     (_, srv) \<Rightarrow>
       guesses demo_services [97] [demo_login, demo_login]
         (fst (run_server demo_services (\<lambda>_. Inr 1) demo_fallback [demo_login, demo_login] srv))
           \<le> 2 * rl_login_per_minute rate_limit_config_default"
  unfolding demo_server_def
  by (rule login_guessing_bounded [where a = 0])
    (simp_all add: rate_limit_config_default_def demo_login_def demo_request_def second_def)

section \<open>Who may call\<close>

text \<open>
  C18. A request below \<open>/internal\<close> without exactly the configured token reaches no use case: the
  server is left as it was, and where the request is well formed the answer is 401.
\<close>

definition well_formed_request :: "request \<Rightarrow> bool" where
  "well_formed_request q \<longleftrightarrow>
     \<not> isl (in_path_id q) \<and> \<not> isl (in_text q) \<and> \<not> isl (in_results q) \<and> \<not> isl (in_step q) \<and>
     \<not> isl (in_usage q) \<and> \<not> isl (in_chunks q) \<and> \<not> isl (in_retrieve q)"

lemma internal_rejects:
  assumes "e \<in> internal_endpoints" and "check_internal_token A (in_headers q) \<noteq> None"
  shows "snd (store_handler A e q s) = s"
    and "well_formed_request q \<Longrightarrow> rsp_status (fst (store_handler A e q s)) = 401"
  using assms
  by (auto simp: internal_endpoints_def http_internal_started_def http_internal_results_def
      http_internal_step_def http_internal_question_def http_internal_usage_def http_internal_failure_def
      http_internal_store_chunks_def http_internal_document_failure_def http_internal_retrieve_def
      extracted_def internal_def well_formed_request_def check_internal_token_def Let_def
      split: sum.split option.splits if_splits)

theorem internal_requires_token:
  assumes "in_path q = lit ''internal'' # rest"
    and "map_of (in_headers q) (lit ''x-internal-token'') \<noteq> Some (bytes_of (sv_internal_token A))"
  shows "snd (serve A incr fallback q srv) = srv \<and>
         (find_endpoint other_routes (in_method q) (in_path q) \<noteq> None \<and> well_formed_request q \<longrightarrow>
            rsp_status (fst (serve A incr fallback q srv)) = 401)"
proof -
  note path = internal_path [OF assms(1)]
  have bad: "check_internal_token A (in_headers q) \<noteq> None"
    using assms(2) check_internal_token_iff [of A "in_headers q"] by auto
  have route: "route_request A incr fallback q srv = serve_routes A incr fallback other_routes q srv"
    using path(1,2) by (simp add: route_request_def)
  show ?thesis
  proof (cases "find_endpoint other_routes (in_method q) (in_path q)")
    case None
    then show ?thesis by (simp add: serve_layers route serve_routes_def)
  next
    case (Some e)
    then have e: "e \<in> internal_endpoints" by (rule path(3))
    then have "e \<noteq> Login" by (auto simp: internal_endpoints_def)
    then show ?thesis
      using Some internal_rejects [OF e bad, of "srv_store srv"]
      by (auto simp: serve_layers route serve_routes_def handle_def on_store_def split: prod.splits)
  qed
qed

lemma internal_requires_token_witness:
  "snd (serve demo_services (\<lambda>_. Inr 1) demo_fallback
          (demo_request\<lparr>in_method := POST, in_path := lit ''internal'' # [lit ''retrieve'']\<rparr>) demo_server)
     = demo_server"
  using internal_requires_token [of "demo_request\<lparr>in_method := POST, in_path := lit ''internal'' # [lit ''retrieve'']\<rparr>"
      "[lit ''retrieve'']" demo_services]
  by (simp add: demo_request_def)

text \<open>
  C20. A request to an API route whose bearer token is missing or does not verify changes neither the
  store nor the login throttle, and is answered with 401, or 429 if its client is over its limit.
\<close>

lemma matches_Cons:
  "matches (Segment t # ts) p \<longleftrightarrow> (\<exists>ps. p = t # ps \<and> matches ts ps)"
  by (cases p) auto

lemma api_not_auth: "find_endpoint api_routes m p = Some e \<Longrightarrow> knows_path api_routes p \<and> \<not> knows_path auth_routes p"
proof -
  assume "find_endpoint api_routes m p = Some e"
  then have "knows_path api_routes p"
    by (auto simp: find_endpoint_def knows_path_def find_Some_iff list_ex_iff intro!: bexI [OF _ nth_mem])
  moreover from this have "\<not> knows_path auth_routes p"
    by (auto simp: knows_path_def api_routes_def auth_routes_def sgs_def matches_Cons)
  ultimately show ?thesis ..
qed

lemma api_rejects:
  "e \<in> api_endpoints \<Longrightarrow> auth_user A (in_now q) (in_headers q) = Inl r \<Longrightarrow> store_handler A e q s = (r, s)"
  by (auto simp: api_endpoints_simps http_create_search_def http_list_searches_def http_get_search_def
      http_answer_search_def http_search_events_def http_create_recurring_def http_list_recurring_def
      http_delete_recurring_def http_get_profile_def http_delete_account_def http_create_channel_def
      http_delete_channel_def http_create_document_def http_list_documents_def http_delete_document_def
      authed_def)

theorem api_requires_bearer:
  assumes "find_endpoint api_routes (in_method q) (in_path q) = Some e"
    and "\<forall>tok. header_str (in_headers q) (lit ''authorization'') = Some (lit ''Bearer '' @ tok) \<longrightarrow>
                ts_verify (sv_token_service A) (in_now q) tok = None"
  shows "case serve A incr fallback q srv of
           (r, srv') \<Rightarrow> srv_store srv' = srv_store srv \<and> srv_throttle srv' = srv_throttle srv \<and>
                        rsp_status r \<in> {401, 429}"
proof -
  note path = api_not_auth [OF assms(1)]
  have e: "e \<in> api_endpoints" using find_endpoint_in [OF assms(1)] by (simp add: api_endpoints_def)
  then have "e \<noteq> Login" by (auto simp: api_endpoints_simps)
  have "Option.bind (strip_prefix (lit ''Bearer '') v) (ts_verify (sv_token_service A) (in_now q)) = None"
    if "header_str (in_headers q) (lit ''authorization'') = Some v" for v
    using assms(2) that by (auto simp: strip_prefix_def prefix_def)
  then have bad: "auth_user A (in_now q) (in_headers q) = Inl (error_body 401 (lit ''invalid or missing access token''))"
    by (cases "header_str (in_headers q) (lit ''authorization'')") (simp_all add: auth_user_def)
  let ?put = "\<lambda>lim srv. srv\<lparr>srv_api := lim\<rparr>"
  have route: "route_request A incr fallback q srv =
      limited incr q srv_api ?put (serve_routes A incr fallback api_routes q) srv"
    using path by (simp add: route_request_def)
  have served: "serve_routes A incr fallback api_routes q srv1 =
      (if in_method q = HEAD then (error_body 401 (lit ''invalid or missing access token''))\<lparr>rsp_body := NoBody\<rparr>
       else error_body 401 (lit ''invalid or missing access token''), srv1)" for srv1
    using assms(1) \<open>e \<noteq> Login\<close> api_rejects [OF e bad]
    by (simp add: serve_routes_def handle_def on_store_def)
  have "srv_store (snd (route_request A incr fallback q srv)) = srv_store srv \<and>
        srv_throttle (snd (route_request A incr fallback q srv)) = srv_throttle srv \<and>
        rsp_status (fst (route_request A incr fallback q srv)) \<in> {401, 429}"
    by (rule limited_cases [of incr q srv_api srv ?put "serve_routes A incr fallback api_routes q"])
      (simp_all add: route served)
  then show ?thesis using serve_layers [of A incr fallback q srv] by (simp add: prod.case_eq_if)
qed

lemma api_requires_bearer_witness:
  "case serve demo_services (\<lambda>_. Inr 1) demo_fallback
          (demo_request\<lparr>in_path := [lit ''api'', lit ''account'']\<rparr>) demo_server of
     (r, srv') \<Rightarrow> srv_store srv' = srv_store demo_server \<and> srv_throttle srv' = srv_throttle demo_server \<and>
                  rsp_status r \<in> {401, 429}"
  by (rule api_requires_bearer [where e = GetProfile])
    (simp_all add: demo_request_def find_endpoint_def api_routes_def sgs_def method_matches_def header_str_def)

section \<open>What a response shows\<close>

text \<open>
  C32. Whatever fails behind a handler, the body of a 5xx response is one of four fixed ones: the
  cause of a failure never reaches the client.
\<close>

theorem server_errors_discreet:
  assumes "rejections_ok q" and "rsp_status (fallback q) < 500"
    and "500 \<le> rsp_status (fst (serve A incr fallback q srv))"
  shows "rsp_body (fst (serve A incr fallback q srv)) \<in>
           {NoBody, TextBody (lit ''not ready''),
            JsonBody (JObject [(lit ''error'', JString (lit ''internal error''))]),
            JsonBody (JObject [(lit ''error'', JString (lit ''failed to reach the agent''))])}"
  using route_request_discreet [of q fallback A incr srv] assms
  by (simp add: discreet_def generic_body_def serve_layers)

definition unready_services :: "world services" where
  "unready_services = demo_services\<lparr>sv_ready := \<lambda>_. False\<rparr>"

lemma server_errors_discreet_witness:
  "rsp_body (fst (serve unready_services (\<lambda>_. Inr 1) demo_fallback
                    (demo_request\<lparr>in_path := [lit ''readyz'']\<rparr>) demo_server)) \<in>
     {NoBody, TextBody (lit ''not ready''),
      JsonBody (JObject [(lit ''error'', JString (lit ''internal error''))]),
      JsonBody (JObject [(lit ''error'', JString (lit ''failed to reach the agent''))])}"
proof (rule server_errors_discreet)
  let ?q = "demo_request\<lparr>in_path := [lit ''readyz'']\<rparr>"
  show "rejections_ok ?q"
    by (simp add: rejections_ok_def rejected_as_client_error_def demo_request_def demo_bad_def)
  show "rsp_status (demo_fallback ?q) < 500" by (simp add: demo_fallback_def)
  have "find_endpoint other_routes (in_method ?q) (in_path ?q) = Some Readyz"
    by (simp add: demo_request_def find_endpoint_def other_routes_def sgs_def method_matches_def)
  moreover have "\<not> knows_path auth_routes (in_path ?q)" "\<not> knows_path api_routes (in_path ?q)"
    by (simp_all add: knows_path_def auth_routes_def api_routes_def sgs_def)
  ultimately show "500 \<le> rsp_status (fst (serve unready_services (\<lambda>_. Inr 1) demo_fallback ?q demo_server))"
    by (simp add: serve_layers route_request_def serve_routes_def handle_def on_store_def http_readyz_def
        unready_services_def)
qed

text \<open>
  Every response, also a refusal and that to an unknown route, carries the four hardening
  headers with exactly these values, and a correlation id: the incoming one if it is acceptable, and
  otherwise the fresh one.
\<close>

lemma response_headers:
  "case serve A incr fallback q srv of
     (r, _) \<Rightarrow>
       map_of (rsp_headers r) (lit ''x-content-type-options'') = Some (lit ''nosniff'') \<and>
       map_of (rsp_headers r) (lit ''x-frame-options'') = Some (lit ''DENY'') \<and>
       map_of (rsp_headers r) (lit ''referrer-policy'') = Some (lit ''no-referrer'') \<and>
       map_of (rsp_headers r) (lit ''content-security-policy'') = Some CONTENT_SECURITY_POLICY \<and>
       map_of (rsp_headers r) (lit ''x-request-id'') =
         (case incoming_id (in_headers q) of
            Some i \<Rightarrow> Some i
          | None \<Rightarrow>
              if list_all visible_ascii (in_fresh_text q) then Some (in_fresh_text q)
              else map_of (rsp_headers (fst (route_request A incr fallback q srv))) (lit ''x-request-id''))"
proof -
  have "list_all visible_ascii i" if "incoming_id (in_headers q) = Some i" for i
    using that by (auto simp: incoming_id_def Let_def visible_ascii_def list_all_iff split: option.splits if_splits)
  then show ?thesis
    by (auto simp: serve_def security_headers_get security_headers_id request_id_def Let_def header_of_set_header
        split: prod.split option.split)
qed

text \<open>
  C34. The refresh cookie survives the browser: the pair at the head of the \<open>Set-Cookie\<close> header of a
  session, sent back among any other cookies, is read as the session's refresh token; the pair of
  the clearing cookie is read as no token.
\<close>

lemma cookie_chars:
  "list_all cookie_ok ps \<Longrightarrow> list_all visible_ascii (cookie_header ps)"
  by (induction ps rule: cookie_header.induct)
    (auto simp: cookie_ok_def list_all_iff cookie_char_def visible_ascii_def)

lemma refresh_cookie_read:
  assumes "list_all cookie_ok (before @ after)" and "REFRESH_COOKIE \<notin> fst ` set before"
    and "list_all cookie_char v"
  shows "read_refresh_cookie [(lit ''cookie'', map word_of_nat (cookie_header (before @ (REFRESH_COOKIE, v) # after)))]
           = (if v = [] then None else Some v)"
proof -
  let ?ps = "before @ (REFRESH_COOKIE, v) # after"
  have "list_all cookie_char REFRESH_COOKIE \<and> 61 \<notin> set REFRESH_COOKIE"
    by (simp add: REFRESH_COOKIE_def lit_def cookie_char_def)
  then have ok: "list_all cookie_ok ?ps" using assms by (simp add: cookie_ok_def)
  have "header_str [(lit ''cookie'', map word_of_nat (cookie_header ?ps))] (lit ''cookie'') = Some (cookie_header ?ps)"
    by (simp add: header_str_def to_str_bytes [OF cookie_chars [OF ok]])
  from read_refresh_cookie_spec [OF _ ok this]
  have "read_refresh_cookie [(lit ''cookie'', map word_of_nat (cookie_header ?ps))] =
      (case map_of ?ps REFRESH_COOKIE of None \<Rightarrow> None | Some v \<Rightarrow> if v = [] then None else Some v)" by simp
  moreover have "map_of before REFRESH_COOKIE = None" using assms(2) by (simp add: map_of_eq_None_iff)
  ultimately show ?thesis by (simp add: map_add_def)
qed

theorem refresh_cookie_roundtrip:
  assumes "list_all cookie_ok (before @ after)" and "REFRESH_COOKIE \<notin> fst ` set before"
    and "list_all cookie_char (st_refresh_token tokens)" and "st_refresh_token tokens \<noteq> []"
  shows "(\<exists>attributes.
            Option.bind (map_of (rsp_headers (session_response A tokens)) (lit ''set-cookie'')) (split_once 59)
              = Some (REFRESH_COOKIE @ [61] @ st_refresh_token tokens, attributes)) \<and>
         read_refresh_cookie
           [(lit ''cookie'', map word_of_nat
               (cookie_header (before @ (REFRESH_COOKIE, st_refresh_token tokens) # after)))]
           = Some (st_refresh_token tokens) \<and>
         (\<exists>attributes. split_once 59 clear_refresh_cookie = Some (REFRESH_COOKIE @ [61], attributes)) \<and>
         read_refresh_cookie
           [(lit ''cookie'', map word_of_nat (cookie_header (before @ (REFRESH_COOKIE, []) # after)))] = None"
proof -
  have split: "\<exists>attributes. split_once 59 (refresh_cookie v n) = Some (REFRESH_COOKIE @ [61] @ v, attributes)"
    if "59 \<notin> set v" for v n
  proof -
    obtain rest where rest: "lit ''; HttpOnly; Secure; SameSite=Strict; Path=/api/auth; Max-Age='' = 59 # rest"
      by (simp add: lit_def)
    have "59 \<notin> set (REFRESH_COOKIE @ [61] @ v)" using that by (simp add: REFRESH_COOKIE_def lit_def)
    moreover have "refresh_cookie v n = (REFRESH_COOKIE @ [61] @ v) @ 59 # (rest @ show_int n)"
      unfolding refresh_cookie_def rest by (simp add: lit_def)
    ultimately show ?thesis unfolding split_once_Some by blast
  qed
  have "59 \<notin> set (st_refresh_token tokens)"
    using assms(3) by (auto simp: list_all_iff cookie_char_def)
  from split [OF this] split [of "[]" 0]
    refresh_cookie_read [OF assms(1-3)] refresh_cookie_read [OF assms(1,2), of "[]"] assms(4)
  show ?thesis
    by (simp add: session_response_def header_of_set_header clear_refresh_cookie_def)
qed

lemma refresh_cookie_roundtrip_witness:
  "read_refresh_cookie
     [(lit ''cookie'', map word_of_nat
         (cookie_header ([([97], [49])] @
           (REFRESH_COOKIE, st_refresh_token \<lparr>st_access_token = [1], st_refresh_token = [49, 50]\<rparr>) # [])))]
     = Some (st_refresh_token \<lparr>st_access_token = [1], st_refresh_token = [49, 50]\<rparr>)"
  by (rule refresh_cookie_roundtrip [THEN conjunct2, THEN conjunct1])
    (simp_all add: cookie_ok_def cookie_char_def REFRESH_COOKIE_def lit_def)





lemma channel_view_redacted [simp]: "channel_view A (c\<lparr>ch_secret := x\<rparr>) = channel_view A c"
  by (simp add: channel_view_def)






section \<open>Streams\<close>

text \<open>
  C31. A stream of updates ends, whatever the other requests do to the store: after a bounded time no
  read follows. Each of its events shows the job as its reader could see it at that instant, no two
  in a row are the same, and none follows an event of a finished job.
\<close>

theorem job_updates_correct:
  assumes "clock_ok W"
  shows "\<exists>es. job_updates A W now user i = Some es \<and>
           (\<forall>(e, t) \<in> set es. t < now + 30 * 60 * 1000 \<and> ev_name e = lit ''update'' \<and>
              (\<exists>job results steps.
                 fst (search_get (sv_jobs A) user i (sur_store W t)) = Inr (Some (job, results, steps)) \<and>
                 ev_data e = sur_json_text W (job_detail_json A job results steps) \<and>
                 ((e, t) \<in> set (butlast es) \<longrightarrow> \<not> job_is_finished job))) \<and>
           distinct_adj (map (ev_data \<circ> fst) es)"
proof -
  let ?st = "\<lparr>ss_user_id = user, ss_job_id = i, ss_last_payload = None, ss_finished = False, ss_started = now,
      ss_max_lifetime = MAX_STREAM_LIFETIME, ss_idle_interval = IDLE_POLL_INTERVAL,
      ss_active_interval = POLL_INTERVAL\<rparr>"
  have "\<exists>es. unfold_events A W ?st (sur_pull W now) = Some es \<and>
          (if ss_finished ?st then es = []
           else told A W (ss_user_id ?st) (ss_job_id ?st) (ss_started ?st + ss_max_lifetime ?st) (ss_last_payload ?st) es)"
    by (rule unfold_events_total [OF assms]) (simp_all add: IDLE_POLL_INTERVAL_def POLL_INTERVAL_def)
  then obtain es where es: "job_updates A W now user i = Some es"
    and told: "told A W user i (now + MAX_STREAM_LIFETIME) None es"
    by (auto simp: job_updates_def job_updates_with_def)
  have "t < now + 30 * 60 * 1000 \<and> ev_name e = lit ''update'' \<and>
        (\<exists>job results steps.
           fst (search_get (sv_jobs A) user i (sur_store W t)) = Inr (Some (job, results, steps)) \<and>
           ev_data e = sur_json_text W (job_detail_json A job results steps) \<and>
           ((e, t) \<in> set (butlast es) \<longrightarrow> \<not> job_is_finished job))" if "(e, t) \<in> set es" for e t
    using told_imp [OF told that] told_finished [OF told, of e t]
    by (auto simp: MAX_STREAM_LIFETIME_def shown_def payload_of_def split: sum.splits)
  then show ?thesis using es told_distinct [OF told] by blast
qed

definition demo_surroundings :: "world surroundings" where
  "demo_surroundings =
     \<lparr>sur_store = (\<lambda>t. demo_world), sur_resume = (\<lambda>t d. t + d), sur_pull = (\<lambda>t. t), sur_json_text = (\<lambda>j. [])\<rparr>"

lemma job_updates_correct_witness:
  "\<exists>es. job_updates demo_services demo_surroundings 0 7 1 = Some es \<and>
        distinct_adj (map (ev_data \<circ> fst) es)"
  using job_updates_correct [of demo_surroundings demo_services 0 7 1]
  by (auto simp: demo_surroundings_def clock_ok_def)

end
