(* ===== verification/Good_World.thy ===== *)
theory Good_World
  imports Background
begin

text \<open>
  One invariant of the whole stored state, and how worlds may change without new rows: the ground
  for the proof that no request and no tick ever breaks it.
\<close>

section \<open>The invariant\<close>

definition keyed_world :: "aworld \<Rightarrow> bool" where
  "keyed_world w \<longleftrightarrow>
     keyed user_id (aw_users w) \<and> keyed ch_id (aw_channels w) \<and> keyed rt_id (aw_tokens w) \<and>
     keyed job_id (aw_jobs w) \<and> keyed rs_id (aw_recurring w) \<and> keyed doc_id (aw_documents w)"

text \<open>
  Nothing is orphaned: results and journals belong to a job that is stored, and a chunk to a
  stored document of the same user, under the document's name (\<^const>\<open>chunks_ok\<close>).
\<close>

definition attached :: "aworld \<Rightarrow> bool" where
  "attached w \<longleftrightarrow> (\<forall>i. aw_results w i \<noteq> [] \<or> aw_steps w i \<noteq> [] \<longrightarrow> aw_jobs w i \<noteq> None)"

definition good_world :: "32 word \<Rightarrow> aworld \<Rightarrow> bool" where
  "good_world quota w \<longleftrightarrow>
     keyed_world w \<and> emails_unique w \<and> tokens_inv w \<and>
     quota_inv quota w \<and> (\<forall>j \<in> ran (aw_jobs w). job_inv j) \<and> (\<forall>i. journal_ok (aw_steps w i)) \<and>
     cap_ok w \<and> (\<forall>x \<in> ran (aw_recurring w). recurring_wf x) \<and> links_ok w \<and>
     (\<forall>c \<in> ran (aw_channels w). channel_wf c) \<and> (\<forall>d \<in> ran (aw_documents w). document_wf d) \<and>
     attached w \<and> chunks_ok w"

lemma good_worldD:
  assumes "good_world quota w"
  shows "keyed_world w" "emails_unique w" "tokens_inv w" "quota_inv quota w"
    "\<forall>j \<in> ran (aw_jobs w). job_inv j" "\<forall>i. journal_ok (aw_steps w i)" "cap_ok w"
    "\<forall>x \<in> ran (aw_recurring w). recurring_wf x" "links_ok w"
    "\<forall>c \<in> ran (aw_channels w). channel_wf c" "\<forall>d \<in> ran (aw_documents w). document_wf d" "attached w"
    "chunks_ok w"
  using assms by (simp_all add: good_world_def)

section \<open>Worlds that lose or rewrite rows\<close>

text \<open>\<open>derives P m m'\<close>: every row of \<open>m'\<close> comes from the row of \<open>m\<close> under the same id.\<close>

definition derives :: "('v \<Rightarrow> 'v \<Rightarrow> bool) \<Rightarrow> ('k \<rightharpoonup> 'v) \<Rightarrow> ('k \<rightharpoonup> 'v) \<Rightarrow> bool" where
  "derives P m m' \<longleftrightarrow> (\<forall>i v'. m' i = Some v' \<longrightarrow> (\<exists>v. m i = Some v \<and> P v v'))"

definition job_rewrite :: "research_job \<Rightarrow> research_job \<Rightarrow> bool" where
  "job_rewrite j j' \<longleftrightarrow>
     job_user_id j' = job_user_id j \<and> job_created_at j' = job_created_at j \<and>
     (job_recurring_search_id j' = job_recurring_search_id j \<or> job_recurring_search_id j' = None) \<and>
     (job_inv j \<longrightarrow> job_inv j')"

definition search_rewrite :: "recurring_search \<Rightarrow> recurring_search \<Rightarrow> bool" where
  "search_rewrite x x' \<longleftrightarrow> rs_user_id x' = rs_user_id x \<and> (recurring_wf x \<longrightarrow> recurring_wf x')"

definition document_rewrite :: "document \<Rightarrow> document \<Rightarrow> bool" where
  "document_rewrite d d' \<longleftrightarrow>
     doc_user_id d' = doc_user_id d \<and> doc_name d' = doc_name d \<and> (document_wf d \<longrightarrow> document_wf d')"

definition evolves :: "aworld \<Rightarrow> aworld \<Rightarrow> bool" where
  "evolves w w' \<longleftrightarrow>
     derives (=) (aw_users w) (aw_users w') \<and> derives (=) (aw_channels w) (aw_channels w') \<and>
     derives (=) (aw_tokens w) (aw_tokens w') \<and> derives job_rewrite (aw_jobs w) (aw_jobs w') \<and>
     derives search_rewrite (aw_recurring w) (aw_recurring w') \<and>
     derives document_rewrite (aw_documents w) (aw_documents w') \<and>
     (\<forall>i. journal_ok (aw_steps w i) \<longrightarrow> journal_ok (aw_steps w' i)) \<and>
     (attached w \<longrightarrow> attached w') \<and> (chunks_ok w \<longrightarrow> chunks_ok w')"

lemma rewrite_refl [simp]: "job_rewrite j j" "search_rewrite x x" "document_rewrite d d"
  by (simp_all add: job_rewrite_def search_rewrite_def document_rewrite_def)

lemma derives_refl [simp]: "(\<And>v. P v v) \<Longrightarrow> derives P m m"
  by (simp add: derives_def)

lemma derives_trans:
  assumes "derives P m m1" and "derives P m1 m2" and "\<And>x y z. P x y \<Longrightarrow> P y z \<Longrightarrow> P x z"
  shows "derives P m m2"
  using assms unfolding derives_def by metis

lemma derives_keep [simp]: "(\<And>v. P v v) \<Longrightarrow> derives P m (map_keep K m)"
  by (auto simp: derives_def map_keep_def split: option.splits if_splits)

lemma derives_drop [simp]: "(\<And>v. P v v) \<Longrightarrow> derives P m (m(k := None))"
  by (simp add: derives_def)

lemma derives_update: "m k = Some v \<Longrightarrow> P v v' \<Longrightarrow> (\<And>v. P v v) \<Longrightarrow> derives P m (m(k \<mapsto> v'))"
  by (simp add: derives_def)

lemma derives_modify: "(\<And>v. P v (f v)) \<Longrightarrow> (\<And>v. P v v) \<Longrightarrow> derives P m (map_modify k f m)"
  by (auto simp: derives_def map_modify_def split: option.splits)

lemma derives_unlinked: "unlinked gone m m' \<Longrightarrow> derives job_rewrite m m'"
  unfolding derives_def unlinked_def
proof (elim conjE, intro allI impI)
  fix i j'
  assume dom: "dom m' = dom m" and step: "\<forall>i j. m i = Some j \<longrightarrow> m' i = Some j \<or>
      (\<exists>r \<in> gone. job_recurring_search_id j = Some r \<and> m' i = Some (j\<lparr>job_recurring_search_id := None\<rparr>))"
    and j': "m' i = Some j'"
  then obtain j where j: "m i = Some j" by (metis domD domI)
  have "job_inv (j\<lparr>job_recurring_search_id := None\<rparr>) = job_inv j"
    by (simp add: job_inv_def job_is_finished_def)
  with step j j' show "\<exists>j. m i = Some j \<and> job_rewrite j j'"
    by (auto simp: job_rewrite_def dest!: spec [of _ i])
qed

lemma evolves_refl [simp]: "evolves w w"
  by (simp add: evolves_def)

lemma evolves_trans: "evolves w w1 \<Longrightarrow> evolves w1 w2 \<Longrightarrow> evolves w w2"
  unfolding evolves_def
  by (elim conjE, intro conjI; (erule (1) derives_trans)?)
    (auto simp: job_rewrite_def search_rewrite_def document_rewrite_def)

text \<open>Nothing that the invariant asks for is lost on the way.\<close>

lemma derives_ran:
  "derives P m m' \<Longrightarrow> v' \<in> ran m' \<Longrightarrow> \<exists>v \<in> ran m. P v v'"
  by (simp add: derives_def ran_def) blast

lemma derives_le: "derives (=) m m' \<Longrightarrow> m' \<subseteq>\<^sub>m m"
  by (force simp: derives_def map_le_def)

text \<open>The rows of a user are not more than they were.\<close>

lemma derives_card:
  assumes d: "derives P m m'" and key: "keyed k m" "keyed k m'"
    and P: "\<And>v v'. P v v' \<Longrightarrow> Q' v' \<Longrightarrow> Q v"
  shows "card {v \<in> ran m'. Q' v} \<le> card {v \<in> ran m. Q v}"
proof -
  let ?f = "\<lambda>v'. the (m (k v'))"
  have "\<exists>v. m (k v') = Some v \<and> P v v'" if "v' \<in> ran m'" for v'
    using that d key(2) by (auto simp: derives_def ran_def dest: keyedD)
  then have f: "m (k v') = Some (?f v') \<and> P (?f v') v'" if "v' \<in> ran m'" for v'
    using that by fastforce
  have inj: "inj_on ?f (ran m')"
  proof (rule inj_onI)
    fix a b
    assume ab: "a \<in> ran m'" "b \<in> ran m'" "?f a = ?f b"
    then have "k a = k b" using f [OF ab(1)] f [OF ab(2)] keyedD [OF key(1)] by metis
    then show "a = b" using ab key(2) by (metis keyed_ran option.inject)
  qed
  have "?f ` {v \<in> ran m'. Q' v} \<subseteq> {v \<in> ran m. Q v}"
    using f P by (auto intro: ranI)
  moreover have "inj_on ?f {v \<in> ran m'. Q' v}" using inj by (rule inj_on_subset) auto
  ultimately show ?thesis using keyed_finite [OF key(1)] by (intro card_inj_on_le) auto
qed

lemma evolves_good:
  assumes good: "good_world quota w" and ev: "evolves w w'" and key': "keyed_world w'"
  shows "good_world quota w'"
proof -
  note g = good_worldD [OF good]
  note ev = ev [unfolded evolves_def]
  have key: "keyed job_id (aw_jobs w)" "keyed job_id (aw_jobs w')" "keyed rs_id (aw_recurring w)"
      "keyed rs_id (aw_recurring w')"
    using g(1) key' by (simp_all add: keyed_world_def)
  have jobs: "derives job_rewrite (aw_jobs w) (aw_jobs w')" and
    searches: "derives search_rewrite (aw_recurring w) (aw_recurring w')" using ev by auto
  have emails: "emails_unique w'"
    using g(2) ev unfolding emails_unique_def derives_def by metis
  have "card (jobs_in_day w' u t) \<le> unat quota" for u t
  proof -
    have "card (jobs_in_day w' u t) \<le> card (jobs_in_day w u t)"
      unfolding jobs_in_day_def by (rule derives_card [OF jobs key(1,2)]) (simp add: job_rewrite_def)
    also have "\<dots> \<le> unat quota" using g(4) by (simp add: quota_inv_def quota_ok_def)
    finally show ?thesis .
  qed
  moreover have "micros_ok w'"
    using g(4) derives_ran [OF jobs] unfolding quota_inv_def micros_ok_def job_rewrite_def by metis
  ultimately have quota: "quota_inv quota w'" using key by (simp add: quota_inv_def quota_ok_def)
  have "card (owned_searches w' u) \<le> 20" for u
  proof -
    have "card (owned_searches w' u) \<le> card (owned_searches w u)"
      unfolding owned_searches_def by (rule derives_card [OF searches key(3,4)]) (simp add: search_rewrite_def)
    also have "\<dots> \<le> 20" using g(7) by (simp add: cap_ok_def)
    finally show ?thesis .
  qed
  then have cap: "cap_ok w'" by (simp add: cap_ok_def)
  have links: "links_ok w'"
    unfolding links_ok_def
  proof (intro allI impI)
    fix i j' r x'
    assume j': "aw_jobs w' i = Some j'" and r: "job_recurring_search_id j' = Some r"
      and x': "aw_recurring w' r = Some x'"
    obtain j where j: "aw_jobs w i = Some j" "job_rewrite j j'" using jobs j' unfolding derives_def by blast
    obtain x where x: "aw_recurring w r = Some x" "search_rewrite x x'" using searches x' unfolding derives_def by blast
    have "job_recurring_search_id j = Some r" using j(2) r by (auto simp: job_rewrite_def)
    then have "rs_user_id x = job_user_id j" using g(9) j(1) x(1) unfolding links_ok_def by blast
    then show "rs_user_id x' = job_user_id j'" using j(2) x(2) by (simp add: job_rewrite_def search_rewrite_def)
  qed
  have tokens: "tokens_inv w'" using tokens_inv_sub [OF g(3)] derives_le ev by blast
  have "\<forall>j \<in> ran (aw_jobs w'). job_inv j" using g(5) derives_ran [OF jobs] unfolding job_rewrite_def by blast
  moreover have "\<forall>x \<in> ran (aw_recurring w'). recurring_wf x"
    using g(8) derives_ran [OF searches] unfolding search_rewrite_def by blast
  moreover have "\<forall>c \<in> ran (aw_channels w'). channel_wf c"
    using g(10) ev derives_ran [of "(=)" "aw_channels w"] by blast
  moreover have "\<forall>d \<in> ran (aw_documents w'). document_wf d"
    using g(11) ev derives_ran [of document_rewrite "aw_documents w"] unfolding document_rewrite_def by blast
  ultimately show ?thesis
    using key' emails tokens quota cap links g(6,12,13) ev by (simp add: good_world_def)
qed

section \<open>The changes of the use cases that only rewrite\<close>

text \<open>The side conditions look at few tables only.\<close>

lemma attached_frame:
  "aw_results w' = aw_results w \<Longrightarrow> aw_steps w' = aw_steps w \<Longrightarrow> dom (aw_jobs w) \<subseteq> dom (aw_jobs w') \<Longrightarrow>
   attached w \<Longrightarrow> attached w'"
  unfolding attached_def subset_iff domIff by simp

lemma chunks_ok_frame:
  "aw_chunks w' = aw_chunks w \<Longrightarrow> aw_documents w' = aw_documents w \<Longrightarrow> chunks_ok w' = chunks_ok w"
  by (simp add: chunks_ok_def)

lemma evolves_log [simp]: "evolves w (log_calls cs w') = evolves w w'"
  by (simp add: evolves_def attached_def chunks_ok_def)

lemma evolves_event [simp]: "evolves w (w'\<lparr>aw_events := es\<rparr>) = evolves w w'"
  by (simp add: evolves_def attached_def chunks_ok_def)

lemma evolves_results: "aw_jobs w i = Some j \<Longrightarrow> evolves w (set_results i xs w)"
  by (simp add: evolves_def set_results_def attached_def chunks_ok_def)

lemma evolves_forget: "evolves w (forget_steps i w)"
  by (simp add: evolves_def forget_steps_def journal_ok_def attached_def chunks_ok_def)

lemma evolves_step: "aw_jobs w i = Some j \<Longrightarrow> evolves w (add_step i st w)"
  by (simp add: evolves_def add_step_def journal_insert_ok attached_def chunks_ok_def)

lemma evolves_rewrite_job:
  "aw_jobs w (job_id j') = Some j \<Longrightarrow> job_rewrite j j' \<Longrightarrow> evolves w (add_job j' w)"
  by (auto simp: evolves_def derives_update chunks_ok_def intro: attached_frame [rotated 3])

lemma job_rewrites:
  "job_rewrite j (job_start j)" "job_rewrite j (job_complete t j)" "job_rewrite j (job_fail t e j)"
  "job_rewrite j (spend fadd u j)"
  subgoal by (simp add: job_rewrite_def job_start_inv) (simp add: job_start_def)
  subgoal by (simp add: job_rewrite_def job_complete_inv) (simp add: job_complete_def)
  subgoal by (simp add: job_rewrite_def job_fail_inv)
  subgoal by (simp add: job_rewrite_def job_usage_inv spend_def)
  done

lemma job_rewrite_request: "job_request_input q j = Inr j' \<Longrightarrow> job_rewrite j j'"
  using job_request_input_inv [of j q j'] by (auto simp: job_rewrite_def job_request_input_Inr split: if_splits)

lemma job_rewrite_answer: "job_provide_answer a j = Inr j' \<Longrightarrow> job_rewrite j j'"
  using job_provide_answer_inv [of j a j'] by (auto simp: job_rewrite_def job_provide_answer_Inr)

lemma job_rewrite_trans: "job_rewrite j j1 \<Longrightarrow> job_rewrite j1 j2 \<Longrightarrow> job_rewrite j j2"
  by (auto simp: job_rewrite_def)

lemma evolves_drop_jobs: "evolves w (drop_jobs P w)"
  by (auto simp: evolves_def drop_jobs_def journal_ok_def attached_def chunks_ok_def map_keep_None)

lemma evolves_mark: "evolves w (mark_search t x w)"
proof -
  have "search_rewrite y (mark_ran t y)" for y
    by (simp add: search_rewrite_def mark_ran_wf) (simp add: mark_ran_def)
  then show ?thesis
    by (simp add: evolves_def mark_search_def derives_modify attached_def chunks_ok_def)
qed

lemma evolves_reaped:
  assumes "reaped err S w w'"
  shows "evolves w w'"
proof -
  have "w = w'\<lparr>aw_jobs := aw_jobs w\<rparr>" using assms by (simp add: reaped_def)
  then have frame: "aw_users w' = aw_users w" "aw_channels w' = aw_channels w" "aw_tokens w' = aw_tokens w"
    "aw_recurring w' = aw_recurring w" "aw_documents w' = aw_documents w" "aw_steps w' = aw_steps w"
    by (metis aworld.select_convs aworld.update_convs(4) aworld.surjective)+
  have "\<exists>j. aw_jobs w i = Some j \<and> job_rewrite j j'" if "aw_jobs w' i = Some j'" for i j'
    using assms [unfolded reaped_def, THEN conjunct2, rule_format, of i] that
    by (auto split: option.splits if_splits intro: job_rewrites)
  moreover have "dom (aw_jobs w') = dom (aw_jobs w)" "aw_results w' = aw_results w" "aw_chunks w' = aw_chunks w"
    using reaped_kept(5) [OF assms] \<open>w = w'\<lparr>aw_jobs := aw_jobs w\<rparr>\<close>
    by (auto, (metis aworld.select_convs aworld.update_convs(4) aworld.surjective)+)
  ultimately show ?thesis
    using attached_frame [of w' w] by (simp add: evolves_def frame derives_def chunks_ok_def)
qed

lemma evolves_answer:
  assumes out: "answer_outcome sent now user i a w r w'" and key: "keyed job_id (aw_jobs w)"
  shows "evolves w w'"
proof -
  have resumed: "evolves w (log_calls cs (add_job job' (forget_steps i w)))"
    if "owned_by user (aw_jobs w i) = Some old" "job_provide_answer a old = Inr job"
      "job' = job \<or> (\<exists>t e. job' = job_fail t e job)" for old job job' cs
  proof -
    have "aw_jobs w (job_id job) = Some old" by (rule answered_resume(1) [OF key that(1,2)])
    moreover have "job_rewrite old job'" "job_id job' = job_id job"
      using that(2,3) job_rewrites(3) [of job] job_rewrite_answer [OF that(2)] by (auto intro: job_rewrite_trans)
    ultimately have "evolves (forget_steps i w) (add_job job' (forget_steps i w))"
      by (intro evolves_rewrite_job) simp_all
    with evolves_forget show ?thesis unfolding evolves_log by (rule evolves_trans)
  qed
  show ?thesis
  proof (cases r)
    case (Inr job)
    with out show ?thesis by (auto simp: answer_outcome_def Let_def intro: resumed)
  next
    case (Inl e)
    with out show ?thesis
      by (cases e) (auto simp: answer_outcome_def Let_def evolves_forget intro: resumed)
  qed
qed

lemma evolves_rewrites:
  assumes "aw_jobs w i = Some j" and "job_id j = i" and "job_rewrite j j'" and "job_id j' = job_id j"
  shows "evolves w (add_job j' w)"
  using assms by (intro evolves_rewrite_job) simp_all

lemma evolves_ingest:
  assumes "ingest_outcome i w P r w'" and "\<And>job. aw_jobs w i = Some job \<Longrightarrow> job_id job = i \<Longrightarrow> P job w' \<Longrightarrow> evolves w w'"
  shows "evolves w w'"
  using assms by (auto simp: ingest_outcome_def split: sum.splits ingest_error.splits)

lemma evolves_complete:
  assumes out: "complete_outcome stored flaky dsent nsent now i xs w r w'"
  shows "evolves w w'"
proof -
  let ?w = "set_results i (map stored xs) w"
  have "evolves w (log_calls cs (add_job (job_complete now job) ?w))"
    if "aw_jobs w i = Some job" "job_id job = i" for job cs
  proof -
    have "evolves ?w (add_job (job_complete now job) ?w)"
      by (rule evolves_rewrites [where i = i and j = job])
        (use that job_rewrites(2) in \<open>simp_all add: job_complete_def\<close>)
    with evolves_results [OF that(1)] show ?thesis unfolding evolves_log by (rule evolves_trans)
  qed
  then show ?thesis
    using out by (auto simp: complete_outcome_def intro: evolves_results split: sum.splits ingest_error.splits)
qed

text \<open>Rows that are deleted.\<close>

lemmas table_deletions = evolves_def attached_def chunks_ok_def

lemma evolves_drop_channels:
  "evolves w (w\<lparr>aw_channels := (aw_channels w)(i := None)\<rparr>)"
  "evolves w (w\<lparr>aw_channels := map_keep K (aw_channels w)\<rparr>)"
  by (simp_all add: table_deletions)

lemma evolves_drop_tokens:
  "evolves w (w\<lparr>aw_tokens := map_keep L (aw_tokens w)\<rparr>)" "evolves w (drop_family f w)"
  by (simp_all add: table_deletions drop_family_def)

lemma evolves_drop_user: "evolves w (w\<lparr>aw_users := (aw_users w)(i := None)\<rparr>)"
  by (simp add: table_deletions)

lemma evolves_unlinked:
  assumes "unlinked gone (aw_jobs w) m" and "derives search_rewrite (aw_recurring w) rec"
  shows "evolves w (w\<lparr>aw_recurring := rec, aw_jobs := m\<rparr>)"
proof -
  have "dom m = dom (aw_jobs w)" using assms(1) by (simp add: unlinked_def)
  then have "m i = None \<longleftrightarrow> aw_jobs w i = None" for i by (metis domIff)
  then show ?thesis
    using assms(2) derives_unlinked [OF assms(1)] by (simp add: table_deletions)
qed

lemma evolves_drop_document:
  "evolves w (w\<lparr>aw_documents := (aw_documents w)(i := None),
                aw_chunks := {#c \<in># aw_chunks w. sc_document_id c \<noteq> i#}\<rparr>)"
  by (simp add: evolves_def attached_def) (auto simp: chunks_ok_def)

lemma evolves_drop_documents:
  "evolves w (w\<lparr>aw_documents := map_keep (\<lambda>_ d. doc_user_id d \<noteq> u) (aw_documents w),
                aw_chunks := {#c \<in># aw_chunks w. sc_user_id c \<noteq> u#}\<rparr>)"
  by (simp add: evolves_def attached_def) (force simp: chunks_ok_def)

lemma evolves_rewrite_document:
  assumes "\<And>d. document_rewrite d (f d)"
  shows "evolves w (w\<lparr>aw_documents := map_modify i f (aw_documents w)\<rparr>)"
proof -
  have "doc_user_id (f d) = doc_user_id d \<and> doc_name (f d) = doc_name d" for d
    using assms by (simp add: document_rewrite_def)
  then have "chunks_ok w \<Longrightarrow> chunks_ok (w\<lparr>aw_documents := map_modify i f (aw_documents w)\<rparr>)"
    unfolding chunks_ok_def by (cases "aw_documents w i") (force simp: map_modify_def)+
  then show ?thesis using assms by (simp add: evolves_def attached_def derives_modify)
qed

lemma document_rewrites: "document_rewrite d (document_ready d)" "document_rewrite d (document_failed err d)"
  by (auto simp: document_rewrite_def document_ready_def document_failed_def document_wf_def)

lemma evolves_store_chunks:
  assumes "store_chunks_outcome i ns w r w'"
  shows "evolves w w'"
proof (cases "w' = w")
  case False
  then obtain d kept where d: "aw_documents w i = Some d" "doc_id d = i"
    and kept: "kept \<subseteq># {#c \<in># aw_chunks w. sc_document_id c = i#}"
    and w': "w' = w\<lparr>aw_documents := (aw_documents w)(i \<mapsto> document_ready d),
                 aw_chunks := {#c \<in># aw_chunks w. sc_document_id c \<noteq> i#} + kept +
                              mset (map (stored_chunk_of d) ns)\<rparr>"
    using assms by (auto simp: store_chunks_outcome_def split: sum.splits knowledge_error.splits)
  have old: "c \<in># aw_chunks w \<and> sc_document_id c = i" if "c \<in># kept" for c
    using mset_subset_eqD [OF kept that] by simp
  have "chunks_ok w'" if ok: "chunks_ok w"
    unfolding chunks_ok_def
  proof (intro allI impI)
    fix c
    assume "c \<in># aw_chunks w'"
    then consider "c \<in># aw_chunks w" | n where "c = stored_chunk_of d n"
      using old by (auto simp: w')
    then show "\<exists>d. aw_documents w' (sc_document_id c) = Some d \<and> doc_user_id d = sc_user_id c \<and>
        doc_name d = sc_document_name c"
    proof cases
      case 1
      with ok obtain e where "aw_documents w (sc_document_id c) = Some e" "doc_user_id e = sc_user_id c"
        "doc_name e = sc_document_name c" unfolding chunks_ok_def by blast
      with d show ?thesis by (auto simp: w' document_ready_def)
    next
      case 2
      with d show ?thesis by (simp add: w' stored_chunk_of_def document_ready_def)
    qed
  qed
  then show ?thesis
    using d by (simp add: w' evolves_def attached_def derives_update document_rewrites)
qed simp

section \<open>Worlds that gain rows\<close>

text \<open>Each part of the invariant has to be looked at again only where its tables changed.\<close>

lemma good_world_growth:
  assumes good: "good_world quota w" and key: "keyed_world w'"
    and users: "aw_users w' = aw_users w \<or> emails_unique w'"
    and tokens: "aw_tokens w' = aw_tokens w \<or> tokens_inv w'"
    and jobs: "aw_jobs w' = aw_jobs w \<or> quota_inv quota w' \<and> (\<forall>j \<in> ran (aw_jobs w'). job_inv j)"
    and searches: "aw_recurring w' = aw_recurring w \<or> cap_ok w' \<and> (\<forall>x \<in> ran (aw_recurring w'). recurring_wf x)"
    and links: "aw_jobs w' = aw_jobs w \<and> aw_recurring w' = aw_recurring w \<or> links_ok w'"
    and channels: "aw_channels w' = aw_channels w \<or> (\<forall>c \<in> ran (aw_channels w'). channel_wf c)"
    and documents: "aw_documents w' = aw_documents w \<or>
      aw_documents w \<subseteq>\<^sub>m aw_documents w' \<and> (\<forall>d \<in> ran (aw_documents w'). document_wf d)"
    and content: "aw_results w' = aw_results w" "aw_steps w' = aw_steps w" "aw_chunks w' = aw_chunks w"
      "dom (aw_jobs w) \<subseteq> dom (aw_jobs w')"
  shows "good_world quota w'"
proof -
  note g = good_worldD [OF good]
  have "emails_unique w'" using users g(2) by (auto simp: emails_unique_def)
  moreover have "tokens_inv w'" using tokens g(3) by (auto simp: tokens_inv_def)
  moreover have "quota_inv quota w'" using jobs g(4) quota_inv_jobs by blast
  moreover have "\<forall>j \<in> ran (aw_jobs w'). job_inv j" using jobs g(5) by auto
  moreover have "cap_ok w'" using searches g(7) by (auto simp: cap_ok_def owned_searches_def)
  moreover have "\<forall>x \<in> ran (aw_recurring w'). recurring_wf x" using searches g(8) by auto
  moreover have "links_ok w'" using links g(9) by (auto simp: links_ok_def)
  moreover have "\<forall>c \<in> ran (aw_channels w'). channel_wf c" using channels g(10) by auto
  moreover have "\<forall>d \<in> ran (aw_documents w'). document_wf d" using documents g(11) by auto
  moreover have "attached w'" by (rule attached_frame [OF content(1,2,4) g(12)])
  moreover have "chunks_ok w'"
    using g(13) documents content(3) unfolding chunks_ok_def map_le_def by (metis domI)
  ultimately show ?thesis using key g(6) content(2) by (simp add: good_world_def)
qed

lemma ran_update_forall: "\<forall>v \<in> ran m. P v \<Longrightarrow> P x \<Longrightarrow> \<forall>v \<in> ran (m(k \<mapsto> x)). P v"
  by (auto simp: ran_def split: if_splits)

lemma good_log [simp]: "good_world quota (log_calls cs w) = good_world quota w"
  by (simp add: good_world_def keyed_world_def emails_unique_def tokens_inv_def quota_inv_def cap_ok_def
      owned_searches_def links_ok_def attached_def chunks_ok_def)

lemma good_event [simp]: "good_world quota (w\<lparr>aw_events := es\<rparr>) = good_world quota w"
  by (simp add: good_world_def keyed_world_def emails_unique_def tokens_inv_def quota_inv_def cap_ok_def
      owned_searches_def links_ok_def attached_def chunks_ok_def quota_ok_def jobs_in_day_def micros_ok_def)

section \<open>The use cases that create rows\<close>

lemma good_add_job:
  assumes good: "good_world quota w" and inv: "job_inv j" and fresh: "job_id j \<notin> dom (aw_jobs w)"
    and quota: "quota_inv quota (add_job j w)"
    and link: "\<And>r x. job_recurring_search_id j = Some r \<Longrightarrow> aw_recurring w r = Some x \<Longrightarrow>
      rs_user_id x = job_user_id j"
  shows "good_world quota (add_job j w)"
proof (rule good_world_growth [OF good])
  note g = good_worldD [OF good]
  show "keyed_world (add_job j w)" using g(1) by (simp add: keyed_world_def keyed_update)
  show "aw_jobs (add_job j w) = aw_jobs w \<or>
      quota_inv quota (add_job j w) \<and> (\<forall>j \<in> ran (aw_jobs (add_job j w)). job_inv j)"
    using quota ran_update_forall [OF g(5) inv] by simp
  show "aw_jobs (add_job j w) = aw_jobs w \<and> aw_recurring (add_job j w) = aw_recurring w \<or> links_ok (add_job j w)"
    using g(9) link by (simp add: links_ok_def)
  show "dom (aw_jobs w) \<subseteq> dom (aw_jobs (add_job j w))" by auto
qed simp_all

lemma good_launch:
  assumes out: "launch_outcome sent quota d user keyword mode w r w'" and good: "good_world quota w"
    and clock: "ld_now d \<le> ld_created d" and fresh: "ld_job_id d \<notin> dom (aw_jobs w)"
  shows "good_world quota w'"
proof -
  have add: "good_world quota (add_job job w)"
    if "card (jobs_since w user (ld_now d - hours 24)) < unat quota" "job_inv job" "job_id job = ld_job_id d"
      "job_user_id job = user" "job_created_at job = now_utc (ld_created d)"
      "job_recurring_search_id job = None" for job
    using that fresh quota_inv_add [OF good_worldD(4) [OF good] clock that(1,4,5)]
    by (intro good_add_job [OF good]) auto
  show ?thesis
    using out good
    by (auto simp: launch_outcome_def Let_def job_fail_inv intro!: add split: sum.splits launch_error.splits
        dest!: launched_job_fields)
qed

lemma good_register:
  assumes out: "register_outcome RT H d email password w r w'" and good: "good_world quota w"
  shows "good_world quota w'"
proof (cases "w' = w")
  case False
  then obtain u where w': "w' = add_user u w"
    using out by (auto simp: register_outcome_def Let_def split: sum.splits register_error.splits)
  have "emails_unique w'" by (rule register_outcome_unique [OF out good_worldD(2) [OF good]])
  moreover have "keyed_world w'"
    using good_worldD(1) [OF good] by (simp add: w' add_user_def keyed_world_def keyed_update)
  ultimately show ?thesis by (intro good_world_growth [OF good]) (simp_all add: w' add_user_def)
qed (use good in simp)

text \<open>A change of the token table alone.\<close>

lemma good_tokens:
  assumes good: "good_world quota w" and inv: "tokens_inv w'"
    and frame: "w'\<lparr>aw_tokens := aw_tokens w, aw_events := aw_events w\<rparr> = w"
  shows "good_world quota w'"
proof -
  have *: "aw_users w' = aw_users w" "aw_channels w' = aw_channels w" "aw_jobs w' = aw_jobs w"
    "aw_results w' = aw_results w" "aw_steps w' = aw_steps w" "aw_recurring w' = aw_recurring w"
    "aw_documents w' = aw_documents w" "aw_chunks w' = aw_chunks w"
    using frame by (metis aworld.select_convs aworld.update_convs(3,8) aworld.surjective)+
  have "keyed_world w'"
    using good_worldD(1) [OF good] inv by (simp add: keyed_world_def * tokens_inv_def)
  then show ?thesis using inv by (intro good_world_growth [OF good]) (simp_all add: *)
qed

lemma good_login:
  assumes out: "login_outcome RT H S ttl d email password w r w'" and good: "good_world quota w"
    and fresh: "fresh_hash RT (lgd_token d) w"
    and family: "\<forall>u \<in> ran (aw_tokens w). rt_family_id u \<noteq> lgd_family d"
  shows "good_world quota w'"
proof (rule good_tokens [OF good])
  show "tokens_inv w'" by (rule login_outcome_inv [OF out good_worldD(3) [OF good] fresh family])
  show "w'\<lparr>aw_tokens := aw_tokens w, aw_events := aw_events w\<rparr> = w"
    using out by (auto simp: login_outcome_def Let_def add_token_def split: sum.splits login_error.splits)
qed

lemma good_rotate:
  assumes out: "rotate_outcome RT S ttl d presented w r w'" and good: "good_world quota w"
    and fresh: "fresh_hash RT (rtd_token d) w"
  shows "good_world quota w'"
proof (rule good_tokens [OF good])
  show "tokens_inv w'" by (rule rotate_outcome_inv [OF out good_worldD(3) [OF good] fresh])
  show "w'\<lparr>aw_tokens := aw_tokens w, aw_events := aw_events w\<rparr> = w"
    using out by (auto simp: rotate_outcome_def Let_def session_updates reused_def lapsed_def rotated_def
        split: sum.splits refresh_error.splits)
qed

text \<open>An id for a new search: no search has it, and no job that outlived its search names it.\<close>

definition fresh_search_id :: "uuid \<Rightarrow> aworld \<Rightarrow> bool" where
  "fresh_search_id i w \<longleftrightarrow>
     i \<notin> dom (aw_recurring w) \<and> (\<forall>j \<in> ran (aw_jobs w). job_recurring_search_id j \<noteq> Some i)"

lemma good_create:
  assumes out: "create_outcome i t u k m n hook w r w'" and good: "good_world quota w"
    and fresh: "fresh_search_id i w"
  shows "good_world quota w'"
proof (cases "w' = w")
  case False
  then obtain x where new: "recurring_search_new i t u k m n hook = Inr x" and w': "w' = add_search x w"
    using out by (auto simp: create_outcome_def Let_def split: sum.splits recurring_error.splits)
  note g = good_worldD [OF good] and x = recurring_search_new_Inr [OF new]
  have notin: "i \<notin> dom (aw_recurring w)" using fresh by (simp add: fresh_search_id_def)
  have "cap_ok w'"
    using create_outcome_cap [OF out g(7) _ notin] g(1) by (simp add: keyed_world_def)
  moreover have "links_ok w'"
    using g(9) fresh x(2) by (auto simp: links_ok_def w' add_search_def fresh_search_id_def intro: ranI)
  moreover have "keyed_world w'" using g(1) by (simp add: w' add_search_def keyed_world_def keyed_update)
  moreover have "\<forall>x \<in> ran (aw_recurring w'). recurring_wf x"
    using ran_update_forall [OF g(8), of x] x(1) by (simp add: w' add_search_def)
  ultimately show ?thesis by (intro good_world_growth [OF good]) (simp_all add: w' add_search_def)
qed (use good in simp)

lemma good_add_channel:
  assumes good: "good_world quota w" and new: "notification_channel_new i t u k target secret = Inr c"
  shows "good_world quota (w\<lparr>aw_channels := (aw_channels w)(ch_id c \<mapsto> c)\<rparr>)"
proof (rule good_world_growth [OF good])
  let ?w = "w\<lparr>aw_channels := (aw_channels w)(ch_id c \<mapsto> c)\<rparr>"
  note g = good_worldD [OF good]
  show "keyed_world ?w" using g(1) by (simp add: keyed_world_def keyed_update)
  show "aw_channels ?w = aw_channels w \<or> (\<forall>c \<in> ran (aw_channels ?w). channel_wf c)"
    using ran_update_forall [OF g(10) notification_channel_new_Inr(1) [OF new]] by simp
qed simp_all

lemma good_add_document:
  assumes good: "good_world quota w" and fresh: "doc_id d \<notin> dom (aw_documents w)" and wf: "document_wf d"
  shows "good_world quota (add_document d w)"
proof (rule good_world_growth [OF good])
  note g = good_worldD [OF good]
  show "keyed_world (add_document d w)" using g(1) by (simp add: keyed_world_def keyed_update add_document_def)
  have "aw_documents w \<subseteq>\<^sub>m aw_documents (add_document d w)" using fresh by (auto simp: add_document_def map_le_def)
  then show "aw_documents (add_document d w) = aw_documents w \<or>
      aw_documents w \<subseteq>\<^sub>m aw_documents (add_document d w) \<and>
      (\<forall>d \<in> ran (aw_documents (add_document d w)). document_wf d)"
    using ran_update_forall [OF g(11) wf] by (simp add: add_document_def)
qed (simp_all add: add_document_def)

lemma good_upload:
  assumes out: "upload_outcome esent i t u name content w r w'" and good: "good_world quota w"
    and fresh: "i \<notin> dom (aw_documents w)"
  shows "good_world quota w'"
proof (cases "w' = w")
  case False
  then obtain d where r: "r = Inr d" and new: "document_new i t u name = Inr d"
    using out by (auto simp: upload_outcome_def split: sum.splits knowledge_error.splits)
  from out [unfolded upload_outcome_def r sum.case]
  obtain res stored cs where w': "w' = log_calls cs (add_document stored w)"
    and res: "case (res :: port_error + unit) of Inr _ \<Rightarrow> stored = d | Inl e \<Rightarrow> stored = d \<or>
        stored = document_failed (lit ''embedding dispatch failed: '' @ port_error_msg e) d"
    by blast
  then obtain err where st: "stored = d \<or> stored = document_failed err d" by (cases res) auto
  note d = document_new_Inr [OF new]
  have "document_wf stored" "doc_id stored = i"
    using st d document_rewrites(2) [of d err] by (auto simp: document_rewrite_def document_failed_def)
  then show ?thesis using good_add_document [OF good, of stored] fresh by (simp add: w')
qed (use good in simp)

section \<open>A tick\<close>

lemma good_due_job:
  assumes good: "good_world quota w" and job: "recurring_job_new d x = Inr job"
    and fresh: "dd_job_id d \<notin> dom (aw_jobs w)" and clock: "now \<le> dd_created d"
    and used: "card (jobs_since w (rs_user_id x) (now - hours 24)) < unat quota"
    and known: "\<And>y. aw_recurring w (rs_id x) = Some y \<Longrightarrow> rs_user_id y = rs_user_id x"
    and job': "job' = job \<or> (\<exists>t err. job' = job_fail t err job)"
  shows "good_world quota (add_job job' w)"
proof -
  note f = recurring_job_new_fields [OF job]
  have f': "job_inv job'" "job_id job' = dd_job_id d" "job_user_id job' = rs_user_id x"
    "job_created_at job' = now_utc (dd_created d)" "job_recurring_search_id job' = Some (rs_id x)"
    using job' f by (auto simp: job_fail_inv)
  show ?thesis
    using f' fresh known quota_inv_add [OF good_worldD(4) [OF good] clock used f'(3,4)]
    by (intro good_add_job [OF good]) auto
qed

text \<open>What a search of the list still says of the stored one after other searches were marked.\<close>

definition listed_ok :: "recurring_search list \<Rightarrow> aworld \<Rightarrow> bool" where
  "listed_ok xs w \<longleftrightarrow> (\<forall>x \<in> set xs. \<forall>y. aw_recurring w (rs_id x) = Some y \<longrightarrow> rs_user_id y = rs_user_id x)"

lemma listed_ok_mark: "listed_ok xs w \<Longrightarrow> listed_ok xs (mark_search t x w)"
  by (auto simp: listed_ok_def map_modify_def mark_ran_def split: option.splits if_splits)

lemma good_due_step:
  assumes step: "due_step sent quota now d x w started w'" and good: "good_world quota w"
    and fresh: "dd_job_id d \<notin> dom (aw_jobs w)" and clock: "now \<le> dd_created d"
    and known: "listed_ok (x # xs) w"
  shows "good_world quota w'" and "listed_ok (x # xs) w'"
proof -
  have marked: "good_world quota (mark_search now x v)" if "good_world quota v" for v
  proof (rule evolves_good [OF that evolves_mark])
    show "keyed_world (mark_search now x v)"
      using good_worldD(1) [OF that] by (auto simp: keyed_world_def mark_search_def keyed_def map_modify_def
          mark_ran_def split: option.splits)
  qed
  have same: "listed_ok xs (add_job j w) = listed_ok xs w" "listed_ok xs (log_calls cs w) = listed_ok xs w" for xs j cs w
    by (simp_all add: listed_ok_def)
  have added: "good_world quota (mark_search now x (log_calls cs (add_job job' w)))"
    if "card (jobs_since w (rs_user_id x) (now - hours 24)) < unat quota" "recurring_job_new d x = Inr job"
      "job' = job \<or> (\<exists>t err. job' = job_fail t err job)" for cs job job'
    using good_due_job [OF good that(2) fresh clock that(1) _ that(3)] known
    by (intro marked) (simp add: listed_ok_def)
  show "good_world quota w'" "listed_ok (x # xs) w'"
    using step marked [OF good] known
    by (auto simp: due_step_def Let_def not_le same intro!: added listed_ok_mark split: if_splits)
qed

lemma good_due_partial:
  assumes part: "due_partial quota now d x w w'" and good: "good_world quota w"
    and fresh: "dd_job_id d \<notin> dom (aw_jobs w)" and clock: "now \<le> dd_created d"
    and known: "listed_ok (x # xs) w"
  shows "good_world quota w'"
proof (cases "w' = w")
  case False
  then obtain job job' cs where used: "card (jobs_since w (rs_user_id x) (now - hours 24)) < unat quota"
    and job: "recurring_job_new d x = Inr job" and w': "w' = log_calls cs (add_job job' w)"
    and job': "job' = job \<or> (\<exists>t err. job' = job_fail t err job)"
    using part unfolding due_partial_def by blast
  have "good_world quota (add_job job' w)"
    by (rule good_due_job [OF good job fresh clock used]) (use known job' in \<open>auto simp: listed_ok_def\<close>)
  then show ?thesis by (simp add: w')
qed (use good in simp)

lemma listed_ok_tl: "listed_ok (x # xs) w \<Longrightarrow> listed_ok xs w"
  by (simp add: listed_ok_def)

lemma good_due_runs:
  "due_runs sent quota now draws k xs w n w' \<Longrightarrow> draws_fresh draws k (length xs) w \<Longrightarrow>
   \<forall>i. now \<le> dd_created (draws i) \<Longrightarrow> good_world quota w \<Longrightarrow> listed_ok (xs @ ys) w \<Longrightarrow>
   good_world quota w' \<and> listed_ok ys w'"
proof (induction rule: due_runs.induct)
  case (cons k x w started w1 xs n w2)
  have fresh: "dd_job_id (draws k) \<notin> dom (aw_jobs w)"
    and fresh1: "draws_fresh draws (Suc k) (length xs) w1"
    using draws_fresh_step [where draws = draws and k = k, OF _ cons.hyps(1)] cons.prems by simp_all
  have "good_world quota w1 \<and> listed_ok (x # xs @ ys) w1"
    using good_due_step [where d = "draws k", OF cons.hyps(1)] cons.prems fresh by simp
  then show ?case using cons.IH fresh1 cons.prems listed_ok_tl by blast
qed simp

lemma good_due_outcome:
  assumes out: "due_outcome sent quota now draws 0 0 due w r w'" and list: "due_list now w due"
    and fresh: "draws_fresh draws 0 (length due) w" and clock: "\<forall>i. now \<le> dd_created (draws i)"
    and good: "good_world quota w"
  shows "good_world quota w'"
proof -
  have known: "listed_ok due w" using list by (auto simp: listed_ok_def due_list_def)
  show ?thesis
  proof (cases r)
    case (Inr n)
    with out have "due_runs sent quota now draws 0 due w n w'" by (simp add: due_outcome_def)
    from good_due_runs [OF this fresh clock good, of "[]"] known show ?thesis by simp
  next
    case (Inl e)
    with out obtain done' x rest n w1 where due: "due = done' @ x # rest"
      and runs: "due_runs sent quota now draws 0 done' w n w1"
      and part: "due_partial quota now (draws (length done')) x w1 w'"
      by (auto simp: due_outcome_def)
    have "draws_fresh draws 0 (length done' + 1) w" and fresh': "draws_fresh draws 0 (length done') w"
      by (rule draws_fresh_mono [OF fresh], simp add: due)+
    then have "draws_fresh draws (length done') 1 w1" using draws_fresh_runs [OF runs, of 1] by simp
    then have "dd_job_id (draws (length done')) \<notin> dom (aw_jobs w1)" by (simp add: draws_fresh_def)
    moreover have "good_world quota w1 \<and> listed_ok (x # rest) w1"
      using good_due_runs [OF runs fresh' clock good] known by (simp add: due)
    ultimately show ?thesis using good_due_partial [OF part] clock by blast
  qed
qed

end
