(* ===== verification/System.thy ===== *)
theory System
  imports Good_World Http_Facts
begin

text \<open>
  The whole server keeps the invariant of its store: every handler behind the router and every
  tick of the background loop, from the ports' contracts alone, and then for the program's own
  adapters. A request is one step; the values it draws are fresh.
\<close>

section \<open>Handlers that keep a property of the store\<close>

definition kept :: "('s \<Rightarrow> bool) \<Rightarrow> ('s \<Rightarrow> 'x \<times> 's) \<Rightarrow> 's \<Rightarrow> bool" where
  "kept P h s \<longleftrightarrow> P (snd (h s))"

named_theorems keeping

lemma kept_extracted [keeping]: "P s \<Longrightarrow> (\<And>b. x = Inr b \<Longrightarrow> kept P (h b) s) \<Longrightarrow> kept P (extracted x h) s"
  by (auto simp: kept_def extracted_def split: sum.split)

lemma kept_authed [keeping]: "P s \<Longrightarrow> (\<And>u. kept P (h u) s) \<Longrightarrow> kept P (authed A now hs h) s"
  by (auto simp: kept_def authed_def split: sum.split)

lemma kept_internal [keeping]: "P s \<Longrightarrow> kept P h s \<Longrightarrow> kept P (internal A hs h) s"
  by (auto simp: kept_def internal_def split: option.split)

lemma kept_respond [keeping]: "kept P m s \<Longrightarrow> kept P (respond m f) s"
  by (auto simp: kept_def respond_def split: prod.splits)

lemma kept_reply: "P s \<Longrightarrow> kept P (\<lambda>s. (r, s)) s"
  by (simp add: kept_def)

lemmas plain_handlers = http_register_def http_refresh_def http_list_searches_def http_get_search_def
  http_answer_search_def http_search_events_def http_create_recurring_def http_list_recurring_def
  http_delete_recurring_def http_get_profile_def http_delete_account_def http_delete_channel_def
  http_create_document_def http_list_documents_def http_delete_document_def http_internal_started_def
  http_internal_results_def http_internal_step_def http_internal_question_def http_internal_usage_def
  http_internal_failure_def http_internal_store_chunks_def http_internal_document_failure_def
  http_internal_retrieve_def

definition store_ok :: "('s \<Rightarrow> bool) \<Rightarrow> ('s \<Rightarrow> aworld) \<Rightarrow> 32 word \<Rightarrow> 's \<Rightarrow> bool" where
  "store_ok invar \<alpha> quota s \<longleftrightarrow> invar s \<and> good_world quota (\<alpha> s)"

text \<open>The ids and hashes a request may draw are not in use, and the clock does not run backwards.\<close>

definition fresh_request :: "runtime \<Rightarrow> request \<Rightarrow> aworld \<Rightarrow> bool" where
  "fresh_request RT q w \<longleftrightarrow>
     rgd_id (in_register q) \<notin> dom (aw_users w) \<and>
     fresh_hash RT (lgd_token (in_login q)) w \<and>
     (\<forall>t \<in> ran (aw_tokens w). rt_family_id t \<noteq> lgd_family (in_login q)) \<and>
     fresh_hash RT (rtd_token (in_rotate q)) w \<and>
     ld_now (in_launch q) \<le> ld_created (in_launch q) \<and> ld_job_id (in_launch q) \<notin> dom (aw_jobs w) \<and>
     fresh_search_id (in_id q) w \<and> in_id q \<notin> dom (aw_channels w) \<and> in_id q \<notin> dom (aw_documents w)"

definition fresh_tick :: "tick_draw \<Rightarrow> aworld \<Rightarrow> bool" where
  "fresh_tick d w \<longleftrightarrow>
     due_draws_fresh (tk_due_draws d) w \<and> (\<forall>i. tk_due_now d \<le> dd_created (tk_due_draws d i))"

section \<open>From the contracts\<close>

locale system_ports =
  account_ports prec "sv_users A" "sv_tokens A" "sv_audit A" invar \<alpha> +
  resource_ports prec "sv_users A" "sv_channels A" "sv_tokens A" "sv_jobs A" "sv_recurring A"
    "sv_documents A" "sv_embed A" invar \<alpha> fadd stored esent +
  ingest_ports prec "sv_jobs A" "sv_recurring A" "sv_channels A" "sv_digests A" "sv_notify A" invar \<alpha> fadd
    stored dsent nsent flaky +
  tick_ports prec "sv_recurring A" "sv_jobs A" "sv_dispatch A" invar \<alpha> fadd stored sent
    "sv_tokens A" "sv_audit A"
  for prec :: "time \<Rightarrow> time" and A :: "'s services" and invar :: "'s \<Rightarrow> bool" and \<alpha> :: "'s \<Rightarrow> aworld"
    and fadd :: "f64 \<Rightarrow> f64 \<Rightarrow> f64" and stored :: "search_result \<Rightarrow> search_result"
    and sent :: "research_job \<Rightarrow> rstr list \<Rightarrow> port_error + unit \<Rightarrow> outcall list \<Rightarrow> bool"
    and esent :: "uuid \<Rightarrow> rstr \<Rightarrow> rstr \<Rightarrow> port_error + unit \<Rightarrow> outcall list \<Rightarrow> bool"
    and dsent :: "rstr \<Rightarrow> digest \<Rightarrow> port_error + unit \<Rightarrow> outcall list \<Rightarrow> bool"
    and nsent :: "notification_channel \<Rightarrow> digest \<Rightarrow> port_error + unit \<Rightarrow> outcall list \<Rightarrow> bool"
    and flaky :: bool
begin

abbreviation ok :: "'s \<Rightarrow> bool" where
  "ok \<equiv> store_ok invar \<alpha> (sv_quota A)"

lemma tables_keyed: "invar s \<Longrightarrow> keyed_world (\<alpha> s)"
  by (simp add: keyed_world_def user_keyed channel_keyed token_keyed job_keyed recurring_keyed document_keyed)

lemma okD: "ok s \<Longrightarrow> invar s" "ok s \<Longrightarrow> good_world (sv_quota A) (\<alpha> s)"
  by (simp_all add: store_ok_def)

lemma kept_good:
  assumes "ok s" and "sat invar \<alpha> m (\<alpha> s) Q" and "\<And>r w'. Q r w' \<Longrightarrow> good_world (sv_quota A) w'"
  shows "kept ok m s"
  using sat_run [OF assms(2) okD(1) [OF assms(1)]] assms(3) by (auto simp: kept_def store_ok_def)

lemma kept_evolves:
  assumes "ok s" and "sat invar \<alpha> m (\<alpha> s) Q" and "\<And>r w'. Q r w' \<Longrightarrow> evolves (\<alpha> s) w'"
  shows "kept ok m s"
proof -
  from sat_run [OF assms(2) okD(1) [OF assms(1)]]
  have "invar (snd (m s))" "evolves (\<alpha> s) (\<alpha> (snd (m s)))" using assms(3) by auto
  then show ?thesis
    using evolves_good [OF okD(2) [OF assms(1)] _ tables_keyed] by (simp add: kept_def store_ok_def)
qed

lemma kept_read:
  assumes "ok s" and "sat invar \<alpha> m (\<alpha> s) (\<lambda>_ w'. w' = \<alpha> s)"
  shows "kept ok m s"
  by (rule kept_evolves [OF assms]) simp

lemma kept_port:
  assumes "ok s" and "port_spec invar \<alpha> m R" and "\<And>x w'. R (\<alpha> s) x w' \<Longrightarrow> evolves (\<alpha> s) w'"
  shows "kept ok m s"
  by (rule kept_evolves [OF assms(1), where Q = "\<lambda>_ w'. evolves (\<alpha> s) w'"], rule sat_port [OF assms(2)])
    (simp_all add: assms(3))

lemma kept_record:
  "ok s \<Longrightarrow> ok (record_security_event A (security_event_new i t kind u ip detail) s)"
  using kept_port [OF _ audit_record, of s "security_event_new i t kind u ip detail"]
  by (simp add: kept_def record_security_event_def exact_new)

text \<open>Use cases that only read.\<close>

lemma kept_reads:
  assumes "ok s"
  shows "kept ok (profile_view (sv_users A) (sv_channels A) user) s"
    "kept ok (list_documents (sv_documents A) user) s"
    "kept ok (search_list (sv_jobs A) user) s" "kept ok (search_get (sv_jobs A) user i) s"
    "kept ok (Resources.recurring_list (sv_recurring A) user) s"
    "kept ok (retrieve_for_job (sv_documents A) (sv_jobs A) i v k) s"
  subgoal unfolding profile_view_def
    by (rule kept_read [OF assms])
      (intro sat_bind_lift_port [OF user_find_by_id] sat_bind_lift_port [OF channel_list] sat_flow, auto)
  subgoal unfolding list_documents_def by (rule kept_port [OF assms document_list]) simp
  subgoal unfolding search_list_def by (rule kept_port [OF assms job_list]) simp
  subgoal by (rule kept_evolves [OF assms search_get_sat]) simp
  subgoal unfolding Resources.recurring_list_def
    by (rule kept_read [OF assms], rule sat_lift_port [OF recurring_list]) simp_all
  subgoal by (rule kept_evolves [OF assms retrieve_sat]) simp
  done

text \<open>Use cases that delete.\<close>

lemma sat_then:
  assumes "sat invar \<alpha> m w (\<lambda>_ w'. evolves w w')" and "\<And>x w'. sat invar \<alpha> (f x) w' (\<lambda>_ w2. evolves w' w2)"
  shows "sat invar \<alpha> (io_bind m f) w (\<lambda>_ w'. evolves w w')"
proof (rule sat_bind, rule sat_conseq [OF assms(1)])
  fix r w'
  assume "evolves w w'"
  then show "case r of Inl e \<Rightarrow> evolves w w' | Inr x \<Rightarrow> sat invar \<alpha> (f x) w' (\<lambda>_ w2. evolves w w2)"
    using assms(2) by (auto split: sum.split intro: sat_conseq evolves_trans)
qed

lemma sat_evolving:
  assumes "port_spec invar \<alpha> m R" and "\<And>x w'. R w x w' \<Longrightarrow> evolves w w'"
  shows "sat invar \<alpha> m w (\<lambda>_ w'. evolves w w')"
  by (rule sat_port [OF assms(1)]) (simp_all add: assms(2))

text \<open>The steps of an account deletion, as long as no chunk is orphaned.\<close>

lemma sat_sound_then:
  assumes "sat invar \<alpha> m w (\<lambda>_ w'. chunks_ok w \<longrightarrow> evolves w w')"
    and "\<And>x w'. sat invar \<alpha> (f x) w' (\<lambda>_ w2. chunks_ok w' \<longrightarrow> evolves w' w2)"
  shows "sat invar \<alpha> (io_bind m f) w (\<lambda>_ w'. chunks_ok w \<longrightarrow> evolves w w')"
proof (rule sat_bind, rule sat_conseq [OF assms(1)])
  fix r w'
  assume ev: "chunks_ok w \<longrightarrow> evolves w w'"
  then have "chunks_ok w \<longrightarrow> chunks_ok w'" by (simp add: evolves_def)
  with ev show "case r of Inl e \<Rightarrow> chunks_ok w \<longrightarrow> evolves w w'
      | Inr x \<Rightarrow> sat invar \<alpha> (f x) w' (\<lambda>_ w2. chunks_ok w \<longrightarrow> evolves w w2)"
    using assms(2) by (auto split: sum.split intro!: sat_conseq [OF assms(2)] intro: evolves_trans)
qed

lemma sat_sound:
  assumes "port_spec invar \<alpha> m R" and "\<And>x w'. chunks_ok w \<Longrightarrow> R w x w' \<Longrightarrow> evolves w w'"
  shows "sat invar \<alpha> m w (\<lambda>_ w'. chunks_ok w \<longrightarrow> evolves w w')"
  by (rule sat_port [OF assms(1)]) (simp_all add: assms(2))

lemma evolves_clear_account:
  "sat invar \<alpha> (clear_account user) w (\<lambda>_ w'. chunks_ok w \<longrightarrow> evolves w w')"
  unfolding clear_account_def
  by (intro sat_sound_then sat_sound [OF recurring_delete_all] sat_sound [OF job_delete_all]
      sat_sound [OF token_delete_all] sat_sound [OF channel_delete_all]
      sat_sound [OF document_delete_all] sat_ret)
    (auto simp: evolves_drop_jobs evolves_drop_tokens evolves_drop_channels evolves_drop_documents
      intro: evolves_unlinked)

lemma evolves_account_deletion:
  assumes links: "links_ok w" and chunks: "chunks_ok w"
  shows "sat invar \<alpha> (delete_account (sv_users A) (sv_jobs A) (sv_recurring A) (sv_tokens A) (sv_channels A)
     (sv_documents A) user) w (\<lambda>_ w'. evolves w w')"
  unfolding delete_account_clear
proof (rule sat_bind)
  have gone: "evolves (emptied user w) w'" if "account_gone user w w'" for w'
  proof -
    from that obtain es where w': "w' = (erased user w)\<lparr>aw_events := es\<rparr>" by (auto simp: account_gone_def)
    show ?thesis unfolding w' emptied_simps(2) [symmetric] evolves_event by (rule evolves_drop_user)
  qed
  have "sat invar \<alpha> (clear_account user) w
      (\<lambda>r w'. evolves w w' \<and> (r = Inr () \<longrightarrow> w' = emptied user w))"
    using evolves_clear_account [of user w] clear_account_sat [OF links chunks, of user] chunks
    unfolding sat_def by fastforce
  then show "sat invar \<alpha> (clear_account user) w (\<lambda>r w'. case r of Inl e \<Rightarrow> evolves w w'
      | Inr x \<Rightarrow> sat invar \<alpha> (ur_delete (sv_users A) user) w' (\<lambda>_ w'. evolves w w'))"
    by (rule sat_conseq)
      (auto split: sum.split intro!: sat_conseq [OF sat_delete_user] intro: evolves_trans [OF _ gone] split: if_splits)
qed

lemma evolves_search_deletion:
  "sat invar \<alpha> (recurring_delete (sv_recurring A) user i) w (\<lambda>_ w'. evolves w w')"
  unfolding recurring_delete_def
  by (intro sat_bind_lift_port [OF recurring_delete] sat_flow)
    (auto intro: evolves_unlinked split: if_splits)

lemma kept_deletes:
  assumes "ok s"
  shows "kept ok (delete_account (sv_users A) (sv_jobs A) (sv_recurring A) (sv_tokens A) (sv_channels A)
      (sv_documents A) user) s"
    "kept ok (recurring_delete (sv_recurring A) user i) s"
    "kept ok (remove_channel (sv_channels A) user i) s"
    "kept ok (delete_document (sv_documents A) user i) s"
    "kept ok (revoke_session (sv_runtime A) (sv_tokens A) presented) s"
  subgoal using good_worldD(9,13) [OF okD(2) [OF assms]]
    by (intro kept_evolves [OF assms evolves_account_deletion])
  subgoal by (rule kept_evolves [OF assms evolves_search_deletion])
  subgoal unfolding remove_channel_def
    by (rule kept_port [OF assms channel_delete]) (simp add: evolves_drop_channels)
  subgoal unfolding delete_document_def
    by (rule kept_port [OF assms document_delete]) (simp add: evolves_drop_document)
  subgoal by (rule kept_evolves [OF assms revoke_sat]) (auto simp: evolves_drop_tokens split: sum.splits)
  done

text \<open>The callbacks of the worker, and the answer of a user.\<close>

lemma rewritten:
  assumes "aw_jobs w i = Some j" and "job_id j = i"
  shows "evolves w (add_job (job_start j) w)" "evolves w (add_job (job_fail t e j) w)"
    "evolves w (add_job (spend fadd u j) w)" "job_request_input q j = Inr j' \<Longrightarrow> evolves w (add_job j' w)"
  using evolves_rewrites [OF assms] job_rewrites job_rewrite_request [of q j j']
  by (auto simp: job_start_def spend_def job_request_input_Inr)

lemma kept_callbacks:
  assumes "ok s"
  shows "kept ok (ingest_start (sv_jobs A) i) s" "kept ok (ingest_fail (sv_jobs A) now i err) s"
    "kept ok (ingest_request_input (sv_jobs A) i q) s" "kept ok (record_step (sv_jobs A) i st) s"
    "kept ok (record_usage (sv_jobs A) i u) s"
    "kept ok (ingest_complete (sv_jobs A) (sv_recurring A) (sv_digests A) (sv_channels A) (sv_notify A) now i xs) s"
    "kept ok (answer_clarification (sv_jobs A) (sv_dispatch A) now user i text) s"
    "kept ok (store_document_chunks (sv_documents A) i ns) s"
    "kept ok (mark_document_failed (sv_documents A) i err) s"
  subgoal by (rule kept_evolves [OF assms start_sat], erule evolves_ingest) (simp add: rewritten)
  subgoal by (rule kept_evolves [OF assms fail_sat], erule evolves_ingest) (simp add: rewritten)
  subgoal by (rule kept_evolves [OF assms request_input_sat], erule evolves_ingest) (auto intro: rewritten)
  subgoal by (rule kept_evolves [OF assms record_step_sat], erule evolves_ingest) (simp add: evolves_step)
  subgoal by (rule kept_evolves [OF assms record_usage_sat], erule evolves_ingest) (simp add: rewritten)
  subgoal by (rule kept_evolves [OF assms complete_sat], erule evolves_complete)
  subgoal by (rule kept_evolves [OF assms answer_sat], erule evolves_answer, rule job_keyed [OF okD(1) [OF assms]])
  subgoal by (rule kept_evolves [OF assms store_chunks_sat], erule evolves_store_chunks)
  subgoal unfolding mark_document_failed_def
    by (rule kept_port [OF assms document_mark_failed]) (simp add: evolves_rewrite_document document_rewrites)
  done

text \<open>Use cases that create.\<close>

lemma kept_creates:
  assumes "ok s" and fresh: "fresh_request (sv_runtime A) q (\<alpha> s)"
  shows "kept ok (register_user RT (sv_users A) H (in_register q) email password) s"
    "kept ok (login_user (sv_runtime A) (sv_users A) H S (sv_tokens A) ttl (in_login q) email password) s"
    "kept ok (rotate_session (sv_runtime A) (sv_tokens A) S (sv_audit A) ttl (in_rotate q) presented) s"
    "kept ok (launch_search (sv_jobs A) (sv_dispatch A) (sv_quota A) (in_launch q) user keyword mode) s"
    "kept ok (recurring_create (sv_recurring A) (in_id q) now user keyword mode n hook) s"
    "kept ok (add_channel (sv_channels A) enabled (in_id q) now user kind target secret) s"
    "kept ok (upload_document (sv_documents A) (sv_embed A) (in_id q) now user name content) s"
proof -
  note good = okD(2) [OF assms(1)] and f = fresh [unfolded fresh_request_def]
  show "kept ok (register_user RT (sv_users A) H (in_register q) email password) s"
    by (rule kept_good [OF assms(1) register_sat], use f in simp) (erule good_register [OF _ good])
  show "kept ok (login_user (sv_runtime A) (sv_users A) H S (sv_tokens A) ttl (in_login q) email password) s"
    by (rule kept_good [OF assms(1) login_sat], use f in \<open>simp add: fresh_hash_def\<close>)
      (erule good_login [OF _ good], use f in simp_all)
  show "kept ok (rotate_session (sv_runtime A) (sv_tokens A) S (sv_audit A) ttl (in_rotate q) presented) s"
    by (rule kept_good [OF assms(1) rotate_sat], use f in \<open>simp add: fresh_hash_def\<close>)
      (erule good_rotate [OF _ good], use f in \<open>simp add: fresh_hash_def\<close>)
  show "kept ok (launch_search (sv_jobs A) (sv_dispatch A) (sv_quota A) (in_launch q) user keyword mode) s"
    by (rule kept_good [OF assms(1) launch_sat], use f in simp)
      (erule good_launch [OF _ good], use f order_trans [OF prec_le] in simp_all)
  show "kept ok (recurring_create (sv_recurring A) (in_id q) now user keyword mode n hook) s"
    by (rule kept_good [OF assms(1) create_sat], use f in \<open>simp add: fresh_search_id_def\<close>)
      (erule good_create [OF _ good], use f in simp)
  show "kept ok (upload_document (sv_documents A) (sv_embed A) (in_id q) now user name content) s"
    by (rule kept_good [OF assms(1) upload_sat], use f in simp)
      (erule good_upload [OF _ good], use f in simp)
  have added: "good_world (sv_quota A) w'"
    if "notification_channel_new (in_id q) now user kind target secret = Inr c"
      "ch_id c \<notin> dom (aw_channels (\<alpha> s)) \<longrightarrow> exact_channel prec c \<longrightarrow>
         w' = (\<alpha> s)\<lparr>aw_channels := (aw_channels (\<alpha> s))(ch_id c \<mapsto> c)\<rparr>" for c w'
    using that good_add_channel [OF good that(1)] notification_channel_new_Inr [OF that(1)] f
    by (simp add: exact_channel_def prec_now)
  show "kept ok (add_channel (sv_channels A) enabled (in_id q) now user kind target secret) s"
    unfolding add_channel_def
    by (rule kept_good [OF assms(1), where Q = "\<lambda>_ w'. good_world (sv_quota A) w'"])
      (intro sat_flow sat_bind_lift_port [OF channel_insert]; simp add: good added)+
qed

section \<open>Every handler\<close>

lemma kept_logout: "ok s \<Longrightarrow> kept ok (http_logout A hs) s"
  using kept_deletes(5) by (simp add: kept_def http_logout_def split: option.split)

lemma kept_create_search:
  assumes "ok s" and "fresh_request (sv_runtime A) q (\<alpha> s)"
  shows "kept ok (http_create_search A (in_launch q) ed now hs body) s"
  unfolding http_create_search_def
proof (intro keeping assms(1))
  fix u b
  show "kept ok (\<lambda>s. case launch_search (sv_jobs A) (sv_dispatch A) (sv_quota A) (in_launch q) u
            (cs_keyword b) (cs_mode b) s of
         (Inr job, s) \<Rightarrow> (json_reply 202 (JObject [(lit ''job_id'', uuid_json A (job_id job))]), s)
       | (Inl (LaunchInvalidJob e), s) \<Rightarrow> (error_body 422 (job_error_msg e), s)
       | (Inl (LaunchQuotaExceeded q), s) \<Rightarrow>
           (error_body 429 (quota_exceeded_msg q),
            record_security_event A
              (security_event_new (ed_id ed) (ed_now ed) QuotaExceededEvent (Some u) (client_ip hs)
                (lit ''daily search quota'')) s)
       | (Inl LaunchDispatchFailed, s) \<Rightarrow> (error_body 502 (lit ''failed to reach the agent''), s)
       | (Inl (LaunchInfrastructure e), s) \<Rightarrow> (internal_error, s)) s"
    using kept_creates(4) [OF assms, of u "cs_keyword b" "cs_mode b"]
    by (auto simp: kept_def kept_record split: prod.splits sum.splits launch_error.splits)
qed

lemma kept_login:
  assumes "ok s" and "fresh_request (sv_runtime A) q (\<alpha> s)"
  shows "ok (fst (snd (http_login A incr instant secs (in_login q) ed hs body (s, throttle))))"
proof (cases body)
  case (Inl r)
  with assms(1) show ?thesis by (simp add: http_login_def)
next
  case (Inr b)
  have "ok (snd (login_user (sv_runtime A) (sv_users A) (sv_hasher A) (sv_token_service A) (sv_tokens A)
      (sv_refresh_ttl_days A) (in_login q) (cr_email b) (cr_password b) s))"
    using kept_creates(2) [OF assms] by (simp add: kept_def)
  then show ?thesis
    using assms(1) Inr
    by (auto simp: http_login_def Let_def kept_record split: prod.splits sum.splits login_error.splits)
qed

lemma kept_refresh:
  assumes "ok s" and "fresh_request (sv_runtime A) q (\<alpha> s)"
  shows "kept ok (http_refresh A (in_rotate q) hs) s"
  using kept_respond [OF kept_creates(3) [OF assms]] assms(1)
  by (auto simp: kept_def http_refresh_def split: option.split)

lemma kept_create_channel:
  assumes "ok s" and "fresh_request (sv_runtime A) q (\<alpha> s)"
  shows "kept ok (http_create_channel A (in_id q) created now hs body) s"
  unfolding http_create_channel_def
proof (intro keeping assms(1))
  fix u b
  show "kept ok (\<lambda>s. case channel_kind_parse (cc_kind b) of
         None \<Rightarrow> (error_body 422 (lit ''unknown channel kind''), s)
       | Some kind \<Rightarrow>
           respond (add_channel (sv_channels A) (sv_email_enabled A) (in_id q) created u kind
                     (cc_target b) (cc_secret b)) (channel_reply A) s) s"
    using kept_respond [OF kept_creates(6) [OF assms]] assms(1)
    by (auto simp: kept_def split: option.split)
qed

lemma store_handler_kept:
  assumes "ok s" and "fresh_request (sv_runtime A) q (\<alpha> s)"
  shows "kept ok (store_handler A e q) s"
proof -
  have ready: "kept ok (http_readyz A) s" using assms(1) by (simp add: kept_def http_readyz_def)
  note use_cases = kept_reads [OF assms(1)] kept_deletes [OF assms(1)] kept_callbacks [OF assms(1)]
    kept_creates [OF assms]
  show ?thesis
    by (cases e)
      (simp_all add: kept_reply assms(1) ready kept_logout kept_create_search [OF assms] kept_refresh [OF assms]
        kept_create_channel [OF assms],
       (unfold plain_handlers, (intro keeping use_cases assms(1))+))
qed

lemma handle_kept:
  assumes "ok (srv_store srv)" and "fresh_request (sv_runtime A) q (\<alpha> (srv_store srv))"
  shows "ok (srv_store (snd (handle A incr q e srv)))"
proof (cases "e = Login")
  case True
  with kept_login [OF assms, of incr "in_instant q" "in_secs q" "in_event q" "in_headers q" "in_credentials q"
      "srv_throttle srv"]
  show ?thesis by (auto simp: handle_def split: prod.splits)
next
  case False
  with store_handler_kept [OF assms, of e] show ?thesis
    by (auto simp: handle_def on_store_def kept_def split: prod.splits)
qed

lemma serve_kept:
  assumes "ok (srv_store srv)" and "fresh_request (sv_runtime A) q (\<alpha> (srv_store srv))"
  shows "ok (srv_store (snd (serve A incr fallback q srv)))"
proof -
  have "ok (srv_store (snd (route_request A incr fallback q srv)))"
  proof (cases A incr fallback q srv rule: route_request_cases)
    case (handled routes e srv1 r srv')
    then show ?thesis using handle_kept [of srv1 q incr e] assms by simp
  qed (use assms(1) in simp_all)
  then show ?thesis by (simp add: serve_layers)
qed

section \<open>The background loop\<close>

lemma sat_keep:
  assumes "good_world quota w" and "sat invar \<alpha> m w Q" and "\<And>r w'. Q r w' \<Longrightarrow> evolves w w'"
  shows "sat invar \<alpha> m w (\<lambda>_ w'. good_world quota w')"
proof (rule satI)
  fix s r s'
  assume s: "invar s" "\<alpha> s = w" "m s = (r, s')"
  from satD [OF assms(2) s] have "invar s'" "Q r (\<alpha> s')" by simp_all
  with evolves_good [OF assms(1) assms(3) tables_keyed] show "invar s' \<and> good_world quota (\<alpha> s')" by blast
qed

lemma reaper_good:
  assumes good: "good_world quota w"
  shows "sat invar \<alpha> (fail_stale_jobs (sv_jobs A) from_std timeout now clock) w
     (\<lambda>_ w'. good_world quota w' \<and> dom (aw_jobs w') = dom (aw_jobs w) \<and> aw_recurring w' = aw_recurring w)"
proof (cases "from_std timeout")
  case (Inl e)
  then show ?thesis using good by (simp add: fail_stale_jobs_def sat_throw)
next
  case (Inr dur)
  let ?m = "fail_stale_jobs (sv_jobs A) from_std timeout now clock"
  have "sat invar \<alpha> ?m w (\<lambda>_ w'. good_world quota w')"
    by (rule sat_keep [OF good fail_stale_sat [of from_std, OF Inr]]) (auto intro: evolves_reaped)
  moreover have "sat invar \<alpha> ?m w (\<lambda>_ w'. ran_jobs w w' \<and> dom (aw_jobs w') = dom (aw_jobs w) \<and> aw_recurring w' = aw_recurring w)"
    by (rule reaper_kept)
  ultimately show ?thesis unfolding sat_def by fastforce
qed

lemma scheduler_good:
  assumes good: "good_world quota w" and fresh: "due_draws_fresh draws w" and clock: "\<forall>i. now \<le> dd_created (draws i)"
  shows "sat invar \<alpha> (run_due_searches (sv_recurring A) (sv_jobs A) (sv_dispatch A) quota now draws) w
     (\<lambda>_ w'. good_world quota w')"
proof (rule sat_conseq [OF run_due_sat [OF fresh]])
  have "\<forall>i. prec now \<le> dd_created (draws i)" using clock order_trans [OF prec_le] by blast
  then show "good_world quota w'" if "(\<exists>due. due_list (prec now) w due \<and> draws_fresh draws 0 (length due) w \<and>
      due_outcome sent quota (prec now) draws 0 0 due w r w') \<or> (\<exists>e. r = Inl e \<and> w' = w)" for r w'
    using that good good_due_outcome by blast
qed

lemma tick_good:
  assumes good: "good_world quota w" and fresh: "fresh_tick d w" and quota: "scheduler_quota cfg = quota"
  shows "sat invar \<alpha> (tick_work (sv_jobs A) (sv_recurring A) (sv_tokens A) (sv_audit A) (sv_dispatch A)
     cfg from_std utc_min d) w (\<lambda>_ w'. good_world quota w')"
  unfolding tick_work_def quota
proof (rule sat_bind_result_sat [OF reaper_good [OF good]])
  fix r0 :: "port_error + nat" and w0
  assume w0: "good_world quota w0 \<and> dom (aw_jobs w0) = dom (aw_jobs w) \<and> aw_recurring w0 = aw_recurring w"
  then have fresh0: "due_draws_fresh (tk_due_draws d) w0"
    using fresh draws_fresh_dom unfolding due_draws_fresh_def fresh_tick_def by metis
  have purge: "sat invar \<alpha> (io_bind (purge_jobs (sv_jobs A) cfg utc_min (tk_data_now d))
      (\<lambda>_. purge_events (sv_audit A) cfg utc_min (tk_audit_now d))) w2 (\<lambda>_ w'. evolves w2 w')" for w2
    by (intro sat_then sat_conseq [OF purge_jobs_sat] sat_conseq [OF purge_events_sat])
      (auto simp: evolves_drop_jobs)
  have tokens: "sat invar \<alpha> (io_bind (io_result (tr_delete_expired (sv_tokens A) (tk_tokens_now d)))
      (\<lambda>_. io_bind (purge_jobs (sv_jobs A) cfg utc_min (tk_data_now d))
      (\<lambda>_. purge_events (sv_audit A) cfg utc_min (tk_audit_now d)))) w1 (\<lambda>_ w'. evolves w1 w')" for w1
    by (intro sat_then sat_result purge sat_evolving [OF token_delete_expired]) (simp add: evolves_drop_tokens)
  show "sat invar \<alpha> (io_bind (io_result (run_due_searches (sv_recurring A) (sv_jobs A) (sv_dispatch A) quota
      (tk_due_now d) (tk_due_draws d))) (\<lambda>_. io_bind (io_result (tr_delete_expired (sv_tokens A) (tk_tokens_now d)))
      (\<lambda>_. io_bind (purge_jobs (sv_jobs A) cfg utc_min (tk_data_now d))
      (\<lambda>_. purge_events (sv_audit A) cfg utc_min (tk_audit_now d))))) w0 (\<lambda>_ w'. good_world quota w')"
    using w0 fresh unfolding fresh_tick_def
    by (intro sat_bind_result_sat [OF scheduler_good [OF _ fresh0]] sat_keep [OF _ tokens]) simp_all
qed

end

section \<open>The program's own adapters\<close>

interpretation app_system: system_ports
  "\<lambda>t. t" "app_services fadd F RT N cfg lettre_new H S" world_wf im_abs fadd "\<lambda>r. r"
  "app_dispatch_sent RT N cfg" "app_embed_sent RT N cfg" "app_hook_sent RT N cfg"
  "app_channel_sent lettre_new cfg" False
  for fadd F RT N cfg lettre_new H S
  by (rule system_ports.intro; unfold app_services_def services.simps)
    (rule app_account.account_ports_axioms app_resource.resource_ports_axioms
      app_ingest.ingest_ports_axioms app_tick.tick_ports_axioms)+

text \<open>
  What can happen to a running server: a request is served, or the background loop makes a tick,
  which may end in the panic that stops the loop.
\<close>

inductive app_step ::
  "world services \<Rightarrow> app_config \<Rightarrow> (rstr \<Rightarrow> rstr + 32 word) \<Rightarrow> (request \<Rightarrow> response) \<Rightarrow>
   (std_duration \<Rightarrow> rstr + int) \<Rightarrow> time \<Rightarrow> world server \<Rightarrow> world server \<Rightarrow> bool"
  for A cfg incr fallback from_std utc_min where
  request: "fresh_request (sv_runtime A) q (im_abs (srv_store srv)) \<Longrightarrow>
    app_step A cfg incr fallback from_std utc_min srv (snd (serve A incr fallback q srv))"
| tick: "fresh_tick d (im_abs (srv_store srv)) \<Longrightarrow>
    app_step A cfg incr fallback from_std utc_min srv
      (srv\<lparr>srv_store := snd (background_tick noop_leader_lock (sv_jobs A) (sv_recurring A) (sv_tokens A)
         (sv_audit A) (sv_dispatch A) cfg from_std utc_min d (srv_store srv))\<rparr>)"

lemma noop_tick: "snd (background_tick noop_leader_lock J R T A disp cfg from_std utc_min d s) =
    snd (tick_work J R T A disp cfg from_std utc_min d s)"
  by (auto simp: background_tick_def noop_leader_lock_def split: prod.split sum.split)

lemma app_step_kept:
  assumes step: "app_step (app_services fadd F RT N cfg lettre_new H S) cfg incr fallback from_std utc_min srv srv'"
    and ok: "store_ok world_wf im_abs (scheduler_quota cfg) (srv_store srv)"
  shows "store_ok world_wf im_abs (scheduler_quota cfg) (srv_store srv')"
proof -
  let ?A = "app_services fadd F RT N cfg lettre_new H S"
  have quota: "sv_quota ?A = scheduler_quota cfg" by (simp add: app_services_def scheduler_quota_def)
  from step show ?thesis
  proof cases
    case (request q)
    then show ?thesis using app_system.serve_kept ok quota by metis
  next
    case (tick d)
    from sat_run [OF app_system.tick_good [OF _ tick(2) refl]] ok
    show ?thesis unfolding tick(1) by (simp add: noop_tick store_ok_def)
  qed
qed

lemma empty_good: "good_world quota (im_abs empty_world)"
  by (simp add: good_world_def keyed_world_def keyed_def emails_unique_def tokens_inv_def quota_inv_def
      micros_ok_def quota_ok_def jobs_in_day_def cap_ok_def owned_searches_def links_ok_def attached_def
      chunks_ok_def journal_ok_def hm_list_def)

lemma reachable_ok:
  assumes "(app_step (app_services fadd F RT N cfg lettre_new H S) cfg incr fallback from_std utc_min)\<^sup>*\<^sup>*
             (router_with_limits open_url limits empty_world) srv"
  shows "store_ok world_wf im_abs (scheduler_quota cfg) (srv_store srv)"
  using assms
proof (induction rule: rtranclp_induct)
  case base
  show ?case by (simp add: store_ok_def router_with_limits_def empty_good)
qed (rule app_step_kept)

end
