(* ===== verification/Guarantees_System.thy ===== *)
theory Guarantees_System
  imports System
begin

text \<open>
  What holds in every state the running server can reach, with the repositories in memory: from
  the empty store, through requests of every kind and ticks of the background loop in any order.
\<close>

text \<open>
  C1. In every reachable state of the server the whole store is consistent. Rows are stored under
  their ids; no two accounts have the same address; a refresh token's hash is unique and a session
  has at most one token that was not used; in no 24 hours did a user get more jobs than the daily
  quota, whether launched by hand or by the scheduler; every job satisfies its lifecycle invariant,
  and every journal is in order without repetitions; nobody owns more than 20 recurring searches,
  each is valid, and a job launched by one belongs to the same user; channels and documents are
  valid; results and journals belong to stored jobs, and every chunk to a stored document of the
  same user.
\<close>

theorem system_invariant:
  assumes "(app_step (app_services fadd F RT N cfg lettre_new H S) cfg incr fallback from_std utc_min)\<^sup>*\<^sup>*
             (router_with_limits open_url limits empty_world) srv"
  shows "world_wf (srv_store srv) \<and> good_world (scheduler_quota cfg) (im_abs (srv_store srv))"
  using reachable_ok [OF assms] by (simp add: store_ok_def)

definition demo_register :: request where
  "demo_register = demo_request\<lparr>in_method := POST, in_path := [lit ''api'', lit ''auth'', lit ''register''],
     in_credentials := Inr \<lparr>cr_email = [97, 64, 98], cr_password = [49, 50, 51, 52, 53, 54, 55, 56]\<rparr>\<rparr>"

definition demo_start :: "world server" where
  "demo_start = router_with_limits (\<lambda>_. None) rate_limit_config_default empty_world"

lemma demo_start_store [simp]: "srv_store demo_start = empty_world"
  by (simp add: demo_start_def router_with_limits_def)

lemma demo_register_fresh: "fresh_request (sv_runtime demo_services) demo_register (im_abs empty_world)"
  by (simp add: fresh_request_def fresh_hash_def fresh_search_id_def demo_register_def demo_request_def
      demo_launch_def)

lemma demo_register_step:
  "(app_step demo_services demo_config (\<lambda>_. Inr 1) demo_fallback (\<lambda>_. Inr 0) 0)\<^sup>*\<^sup>* demo_start
     (snd (serve demo_services (\<lambda>_. Inr 1) demo_fallback demo_register demo_start))"
  by (rule r_into_rtranclp, rule app_step.request) (simp add: demo_register_fresh)

lemma system_invariant_witness:
  "world_wf (srv_store (snd (serve demo_services (\<lambda>_. Inr 1) demo_fallback demo_register demo_start))) \<and>
   good_world 20 (im_abs (srv_store (snd (serve demo_services (\<lambda>_. Inr 1) demo_fallback demo_register demo_start))))"
  using system_invariant [OF demo_register_step [unfolded demo_services_def demo_start_def]]
  by (simp add: demo_services_def demo_start_def scheduler_quota_def demo_config_def)

section \<open>Erasure\<close>

definition untraceable :: "uuid \<Rightarrow> aworld \<Rightarrow> bool" where
  "untraceable u w \<longleftrightarrow>
     aw_users w u = None \<and> (\<forall>c \<in> ran (aw_channels w). ch_user_id c \<noteq> u) \<and>
     (\<forall>t \<in> ran (aw_tokens w). rt_user_id t \<noteq> u) \<and> (\<forall>j \<in> ran (aw_jobs w). job_user_id j \<noteq> u) \<and>
     (\<forall>x \<in> ran (aw_recurring w). rs_user_id x \<noteq> u) \<and> (\<forall>d \<in> ran (aw_documents w). doc_user_id d \<noteq> u) \<and>
     (\<forall>c. c \<in># aw_chunks w \<longrightarrow> sc_user_id c \<noteq> u) \<and> attached w"

lemma erased_untraceable:
  assumes "attached w"
  shows "untraceable u (erased u w)"
  using assms
  by (auto simp: untraceable_def erased_def drop_jobs_def attached_def ran_def map_keep_None)

lemma delete_account_served:
  assumes "in_method q = DELETE" and "in_path q = [lit ''api'', lit ''account'']"
    and "serve A incr fallback q srv = (r, srv')" and "rsp_status r = 204"
  obtains u where "auth_user A (in_now q) (in_headers q) = Inr u"
    and "delete_account (sv_users A) (sv_jobs A) (sv_recurring A) (sv_tokens A) (sv_channels A)
           (sv_documents A) u (srv_store srv) = (Inr (), srv_store srv')"
proof -
  have path: "\<not> knows_path auth_routes (in_path q)" "knows_path api_routes (in_path q)"
    "find_endpoint api_routes (in_method q) (in_path q) = Some DeleteAccount"
    using assms(1,2)
    by (simp_all add: knows_path_def auth_routes_def api_routes_def sgs_def find_endpoint_def method_matches_def)
  have route: "snd (route_request A incr fallback q srv) = srv'"
    "rsp_status (fst (route_request A incr fallback q srv)) = 204"
    using serve_layers [of A incr fallback q srv] assms(3,4) by simp_all
  have eq: "route_request A incr fallback q srv =
      limited incr q srv_api (\<lambda>lim srv. srv\<lparr>srv_api := lim\<rparr>) (serve_routes A incr fallback api_routes q) srv"
    using path by (simp add: route_request_def)
  show thesis
  proof (cases rule: limited_cases [of incr q srv_api srv "\<lambda>lim srv. srv\<lparr>srv_api := lim\<rparr>"
        "serve_routes A incr fallback api_routes q", case_names refused passed])
    case (refused lim)
    with route(2) eq show thesis by (simp add: error_body_def json_reply_def)
  next
    case (passed lim)
    then show thesis
      using route eq path(3) assms(1) that
      by (auto simp: serve_routes_def handle_def on_store_def http_delete_account_def authed_def
          respond_def auth_user_def internal_error_def error_body_def json_reply_def
          split: prod.splits sum.splits option.splits)
  qed
qed

text \<open>The maps keep the audit trail as it was when an account goes.\<close>

lemma account_gone_events: "account_gone u w w' \<Longrightarrow> aw_events w' = aw_events w \<Longrightarrow> w' = erased u w"
  by (auto simp: account_gone_def erased_def drop_jobs_def)

lemma delete_account_events:
  "delete_account im_users (im_jobs fadd) im_searches im_tokens im_channels (im_documents F) u s = (r, s') \<Longrightarrow>
   m_events s' = m_events s"
  by (auto simp: delete_account_def io_defs im_users_def im_user_delete_def im_jobs_def im_job_delete_all_def
      im_searches_def im_search_delete_all_def im_tokens_def im_token_delete_all_def im_channels_def
      im_channel_delete_all_def im_documents_def im_document_delete_all_def Let_def)

text \<open>
  When a reachable server answers \<open>DELETE /api/account\<close> with 204, the caller's account and
  everything the caller owned is gone: sessions, jobs with their results and journals, recurring
  searches, channels, documents and their chunks. Nothing that belongs to others has changed, and
  what content is left belongs to a job that is still there. The audit trail is kept.
\<close>

lemma account_erasure:
  assumes "(app_step A cfg incr fallback from_std utc_min)\<^sup>*\<^sup>*
             (router_with_limits open_url limits empty_world) srv"
    and "A = app_services fadd F RT N cfg lettre_new H S"
    and "in_method q = DELETE" and "in_path q = [lit ''api'', lit ''account'']"
    and "serve A incr fallback q srv = (r, srv')" and "rsp_status r = 204"
  shows "\<exists>u. auth_user A (in_now q) (in_headers q) = Inr u \<and>
             im_abs (srv_store srv') = erased u (im_abs (srv_store srv)) \<and>
             untraceable u (im_abs (srv_store srv'))"
proof -
  have ok: "world_wf (srv_store srv)" "good_world (scheduler_quota cfg) (im_abs (srv_store srv))"
    using reachable_ok assms(1) unfolding assms(2) store_ok_def by blast+
  note good = good_worldD [OF ok(2)]
  obtain u where u: "auth_user A (in_now q) (in_headers q) = Inr u"
    and run: "delete_account im_users (im_jobs fadd) im_searches im_tokens im_channels (im_documents F)
           u (srv_store srv) = (Inr (), srv_store srv')"
    by (rule delete_account_served [OF assms(3-6)]) (simp add: assms(2) app_services_def)
  from satD [OF app_resource.delete_account_sat [OF good(9,13)] ok(1) refl run]
  have "account_gone u (im_abs (srv_store srv)) (im_abs (srv_store srv'))" by simp
  then have "im_abs (srv_store srv') = erased u (im_abs (srv_store srv))"
    by (rule account_gone_events) (use delete_account_events [OF run] in simp)
  with u erased_untraceable [OF good(12)] show ?thesis by auto
qed

definition demo_delete_account :: request where
  "demo_delete_account = demo_request\<lparr>in_method := DELETE, in_path := [lit ''api'', lit ''account''],
     in_headers := [(lit ''authorization'', map (word_of_nat \<circ> of_char) ''Bearer 7'')]\<rparr>"

definition demo_member :: "world server" where
  "demo_member = snd (serve demo_services (\<lambda>_. Inr 1) demo_fallback
     (demo_register\<lparr>in_register := \<lparr>rgd_salt = [5], rgd_id = 7, rgd_now = 0\<rparr>\<rparr>) demo_start)"

lemma demo_member_reached:
  "(app_step demo_services demo_config (\<lambda>_. Inr 1) demo_fallback (\<lambda>_. Inr 0) 0)\<^sup>*\<^sup>* demo_start demo_member"
  unfolding demo_member_def
  by (rule r_into_rtranclp, rule app_step.request)
    (use demo_register_fresh in \<open>simp add: fresh_request_def\<close>)

lemma demo_limiter [simp]:
  "srv_auth demo_start = InMemoryLimiter (fixed_window_per_minute 10)"
  "srv_api demo_start = InMemoryLimiter (fixed_window_per_minute 120)"
  by (simp_all add: demo_start_def router_with_limits_def limiter_per_minute_def rate_limit_config_default_def)

lemma first_hit: "allow_at key now (fixed_window_per_minute n) =
    (1 \<le> n, (fixed_window_per_minute n)\<lparr>fw_hits := [(key, now, 1)]\<rparr>)"
  by (simp add: allow_at_def fixed_window_per_minute_def Let_def hm_retain_def hm_get_def hm_insert_def
      duration_since_def second_def)

lemmas demo_route = route_request_def knows_path_def auth_routes_def api_routes_def sgs_def limited_def
  rate_limit_def limiter_allow_def first_hit serve_routes_def find_endpoint_def method_matches_def
  handle_def on_store_def

lemma demo_text:
  "normalise_email demo_runtime [97, 64, 98] = [97, 64, 98]" "byte_len [97, 64, 98] = 3"
  "byte_len [49, 50, 51, 52, 53, 54, 55, 56] = 8"
  by (simp_all add: normalise_email_def demo_runtime_def trim_def is_whitespace_def to_lowercase_def
      ascii_lower_def byte_len_def utf8_def utf8_char_def)

lemma demo_registered:
  "register_user demo_runtime im_users demo_hasher \<lparr>rgd_salt = [5], rgd_id = 7, rgd_now = 0\<rparr> [97, 64, 98]
       [49, 50, 51, 52, 53, 54, 55, 56] empty_world =
     (Inr (user_new 7 0 [97, 64, 98] [5, 49, 50, 51, 52, 53, 54, 55, 56]),
      empty_world\<lparr>m_users := [(7, user_new 7 0 [97, 64, 98] [5, 49, 50, 51, 52, 53, 54, 55, 56])]\<rparr>)"
  by (simp add: register_user_def demo_text im_users_def im_find_by_email_def im_user_insert_def io_defs
      demo_hasher_def hm_values_def hm_insert_def Let_def user_new_def)

lemma demo_services_parts [simp]:
  "sv_users demo_services = im_users" "sv_runtime demo_services = demo_runtime"
  "sv_hasher demo_services = demo_hasher" "sv_token_service demo_services = demo_tokens"
  by (simp_all add: demo_services_def app_services_def)

lemma demo_member_store:
  "m_users (srv_store demo_member) = [(7, user_new 7 0 [97, 64, 98] [5, 49, 50, 51, 52, 53, 54, 55, 56])]"
  "srv_api demo_member = srv_api demo_start"
  unfolding demo_member_def
  by (simp_all add: serve_layers demo_route demo_register_def demo_request_def http_register_def
      extracted_def respond_def demo_registered)

lemma demo_bearer:
  "Option.bind (to_str [66, 101, 97, 114, 101, 114, 32, 55]) (\<lambda>y. Option.bind (strip_prefix (lit ''Bearer '') y)
     (ts_verify demo_tokens 0)) = Some 7"
  by code_simp

lemma delete_account_total:
  "fst (delete_account im_users (im_jobs fadd) im_searches im_tokens im_channels (im_documents F) u s) = Inr ()"
  by (simp add: delete_account_def io_defs im_users_def im_user_delete_def im_jobs_def im_job_delete_all_def
      im_searches_def im_search_delete_all_def im_tokens_def im_token_delete_all_def im_channels_def
      im_channel_delete_all_def im_documents_def im_document_delete_all_def Let_def)

lemma demo_deleted:
  "rsp_status (fst (serve demo_services (\<lambda>_. Inr 1) demo_fallback demo_delete_account demo_member)) = 204"
proof -
  have "fst (delete_account im_users (sv_jobs demo_services) (sv_recurring demo_services)
      (sv_tokens demo_services) (sv_channels demo_services) (sv_documents demo_services) 7 s) = Inr ()" for s
    by (simp add: demo_services_def app_services_def delete_account_total)
  then show ?thesis
    by (auto simp: serve_layers demo_route demo_delete_account_def demo_request_def http_delete_account_def
      demo_member_store authed_def auth_user_def header_str_def demo_bearer respond_def clearing_cookie_def
      split: prod.split sum.split dest: arg_cong [where f = fst])
qed

lemma account_erasure_witness:
  "\<exists>u. auth_user demo_services 0 [(lit ''authorization'', map (word_of_nat \<circ> of_char) ''Bearer 7'')] = Inr u \<and>
     untraceable u (im_abs (srv_store (snd (serve demo_services (\<lambda>_. Inr 1) demo_fallback
       demo_delete_account demo_member))))"
proof -
  let ?run = "serve demo_services (\<lambda>_. Inr 1) demo_fallback demo_delete_account demo_member"
  have q: "in_method demo_delete_account = DELETE" "in_path demo_delete_account = [lit ''api'', lit ''account'']"
    "in_headers demo_delete_account = [(lit ''authorization'', map (word_of_nat \<circ> of_char) ''Bearer 7'')]"
    "in_now demo_delete_account = 0"
    by (simp_all add: demo_delete_account_def demo_request_def)
  have "?run = (fst ?run, snd ?run)" by simp
  from account_erasure [OF demo_member_reached [unfolded demo_start_def] demo_services_def q(1,2) this demo_deleted]
  show ?thesis unfolding q by blast
qed

end
