(* ===== verification/Postgres_Tables.thy ===== *)
theory Postgres_Tables
  imports Ports "HOL-Library.List_Lexorder"
begin

text \<open>
  \<open>adapters/persistence/postgres.rs\<close>, first part: the tables of \<open>migrations/*.sql\<close> as lists of
  rows, the conversions between rows and entities, and what a statement does. A statement may
  fail because the database cannot serve it, because a text holds a NUL, or because a constraint
  is violated; then it has changed nothing. What PostgreSQL, its extension and the driver decide
  is in the record \<open>pg_env\<close>, indexed by the number of the statement where it may differ from
  one to the next.
\<close>

section \<open>Rows\<close>

text \<open>
  A row is the entity itself where every column has the entity's type. The five spend columns of
  a job are one field.
\<close>

record job_row =
  jb_id :: uuid
  jb_user_id :: uuid
  jb_keyword :: rstr
  jb_mode :: rstr
  jb_status :: rstr
  jb_error :: "rstr option"
  jb_question :: "rstr option"
  jb_answer :: "rstr option"
  jb_recurring_search_id :: "uuid option"
  jb_usage :: job_usage
  jb_created_at :: time
  jb_completed_at :: "time option"

record result_row =
  sw_job_id :: uuid
  sw_title :: rstr
  sw_url :: rstr
  sw_snippet :: rstr
  sw_published_at :: "time option"
  sw_date_confidence :: rstr
  sw_event_type :: rstr
  sw_summary :: "rstr option"
  sw_is_new :: bool
  sw_raw :: json

record step_row =
  sp_job_id :: uuid
  sp_step :: agent_step

record search_row =
  sx_id :: uuid
  sx_user_id :: uuid
  sx_keyword :: rstr
  sx_mode :: rstr
  sx_interval_minutes :: "32 word"
  sx_webhook_url :: "rstr option"
  sx_created_at :: time
  sx_last_run_at :: "time option"

record channel_row =
  cw_id :: uuid
  cw_user_id :: uuid
  cw_kind :: rstr
  cw_target :: rstr
  cw_secret :: "rstr option"
  cw_created_at :: time

record document_row =
  dw_id :: uuid
  dw_user_id :: uuid
  dw_name :: rstr
  dw_status :: rstr
  dw_error :: "rstr option"
  dw_created_at :: time

record chunk_row =
  kw_id :: uuid
  kw_document_id :: uuid
  kw_user_id :: uuid
  kw_seq :: int
  kw_content :: rstr
  kw_embedding :: "f32 list"

section \<open>Text columns\<close>

fun status_to_str :: "job_status \<Rightarrow> rstr" where
  "status_to_str Pending = lit ''pending''"
| "status_to_str Running = lit ''running''"
| "status_to_str AwaitingInput = lit ''awaiting_input''"
| "status_to_str Completed = lit ''completed''"
| "status_to_str Failed = lit ''failed''"

definition status_from_str :: "rstr \<Rightarrow> port_error + job_status" where
  "status_from_str value =
     (if value = lit ''pending'' then Inr Pending
      else if value = lit ''running'' then Inr Running
      else if value = lit ''awaiting_input'' then Inr AwaitingInput
      else if value = lit ''completed'' then Inr Completed
      else if value = lit ''failed'' then Inr Failed
      else Inl (PortError (lit ''unknown job status in database: '' @ value)))"

fun mode_to_str :: "job_mode \<Rightarrow> rstr" where
  "mode_to_str Workflow = lit ''workflow''"
| "mode_to_str Agent = lit ''agent''"

definition mode_from_str :: "rstr \<Rightarrow> job_mode" where
  "mode_from_str value = (if value = lit ''agent'' then Agent else Workflow)"

fun confidence_to_str :: "date_confidence \<Rightarrow> rstr" where
  "confidence_to_str High = lit ''high''"
| "confidence_to_str Medium = lit ''medium''"
| "confidence_to_str Unknown = lit ''unknown''"

definition confidence_from_str :: "rstr \<Rightarrow> port_error + date_confidence" where
  "confidence_from_str value =
     (if value = lit ''high'' then Inr High
      else if value = lit ''medium'' then Inr Medium
      else if value = lit ''unknown'' then Inr Unknown
      else Inl (PortError (lit ''unknown date confidence in database: '' @ value)))"

fun event_type_to_str :: "event_type \<Rightarrow> rstr" where
  "event_type_to_str Announcement = lit ''announcement''"
| "event_type_to_str Release = lit ''release''"
| "event_type_to_str Funding = lit ''funding''"
| "event_type_to_str Legal = lit ''legal''"
| "event_type_to_str Incident = lit ''incident''"
| "event_type_to_str Research = lit ''research''"
| "event_type_to_str Opinion = lit ''opinion''"
| "event_type_to_str Other = lit ''other''"

definition event_type_from_str :: "rstr \<Rightarrow> event_type" where
  "event_type_from_str value =
     (if value = lit ''announcement'' then Announcement
      else if value = lit ''release'' then Release
      else if value = lit ''funding'' then Funding
      else if value = lit ''legal'' then Legal
      else if value = lit ''incident'' then Incident
      else if value = lit ''research'' then Research
      else if value = lit ''opinion'' then Opinion
      else Other)"

definition doc_status_from_str :: "rstr \<Rightarrow> document_status" where
  "doc_status_from_str value =
     (if value = lit ''ready'' then DocReady
      else if value = lit ''failed'' then DocFailed
      else DocPending)"

lemma text_columns [simp]:
  "status_from_str (status_to_str st) = Inr st" "mode_from_str (mode_to_str m) = m"
  "confidence_from_str (confidence_to_str c) = Inr c"
  "event_type_from_str (event_type_to_str t) = t"
  "doc_status_from_str (document_status_as_str ds) = ds"
  "channel_kind_parse (channel_kind_as_str k) = Some k"
  subgoal by (cases st; simp add: status_from_str_def)
  subgoal by (cases m; simp add: mode_from_str_def)
  subgoal by (cases c; simp add: confidence_from_str_def)
  subgoal by (cases t; simp add: event_type_from_str_def)
  subgoal by (cases ds; simp add: doc_status_from_str_def)
  subgoal by (cases k; simp add: channel_kind_parse_def)
  done

lemma status_from_str_Inr: "status_from_str v = Inr st \<longleftrightarrow> v = status_to_str st"
  by (cases st) (auto simp: status_from_str_def split: if_splits)

lemma confidence_from_str_Inr: "confidence_from_str v = Inr c \<longleftrightarrow> v = confidence_to_str c"
  by (cases c) (auto simp: confidence_from_str_def split: if_splits)

section \<open>From rows to entities\<close>

definition job_from_row :: "job_row \<Rightarrow> port_error + research_job" where
  "job_from_row row =
     (case status_from_str (jb_status row) of
        Inl e \<Rightarrow> Inl e
      | Inr status \<Rightarrow> Inr
          \<lparr>job_id = jb_id row, job_user_id = jb_user_id row, job_keyword = jb_keyword row,
           job_mode = mode_from_str (jb_mode row), job_status = status, job_error = jb_error row,
           job_question = jb_question row, job_answer = jb_answer row,
           job_recurring_search_id = jb_recurring_search_id row, job_usage = jb_usage row,
           job_created_at = jb_created_at row, job_completed_at = jb_completed_at row\<rparr>)"

definition result_from_row :: "result_row \<Rightarrow> port_error + search_result" where
  "result_from_row row =
     (case confidence_from_str (sw_date_confidence row) of
        Inl e \<Rightarrow> Inl e
      | Inr confidence \<Rightarrow> Inr
          \<lparr>sr_title = sw_title row, sr_url = sw_url row, sr_snippet = sw_snippet row,
           sr_published_at = sw_published_at row, sr_date_confidence = confidence,
           sr_event_type = event_type_from_str (sw_event_type row), sr_summary = sw_summary row,
           sr_is_new = sw_is_new row, sr_raw = sw_raw row\<rparr>)"

definition recurring_from_row :: "search_row \<Rightarrow> recurring_search" where
  "recurring_from_row row =
     \<lparr>rs_id = sx_id row, rs_user_id = sx_user_id row, rs_keyword = sx_keyword row,
      rs_mode = mode_from_str (sx_mode row), rs_interval_minutes = sx_interval_minutes row,
      rs_webhook_url = sx_webhook_url row, rs_created_at = sx_created_at row,
      rs_last_run_at = sx_last_run_at row\<rparr>"

definition channel_from_row :: "channel_row \<Rightarrow> notification_channel" where
  "channel_from_row row =
     \<lparr>ch_id = cw_id row, ch_user_id = cw_user_id row,
      ch_kind = (case channel_kind_parse (cw_kind row) of None \<Rightarrow> Slack | Some kind \<Rightarrow> kind),
      ch_target = cw_target row, ch_secret = cw_secret row, ch_created_at = cw_created_at row\<rparr>"

definition document_from_row :: "document_row \<Rightarrow> document" where
  "document_from_row row =
     \<lparr>doc_id = dw_id row, doc_user_id = dw_user_id row, doc_name = dw_name row,
      doc_status = doc_status_from_str (dw_status row), doc_error = dw_error row,
      doc_created_at = dw_created_at row\<rparr>"

text \<open>\<open>rows.iter().map(f).collect()\<close> into a \<open>Result\<close>: the first error, or all values.\<close>

fun collect_rows :: "('r \<Rightarrow> port_error + 'v) \<Rightarrow> 'r list \<Rightarrow> port_error + 'v list" where
  "collect_rows f [] = Inr []"
| "collect_rows f (row # rows) =
     (case f row of
        Inl e \<Rightarrow> Inl e
      | Inr v \<Rightarrow> (case collect_rows f rows of Inl e \<Rightarrow> Inl e | Inr vs \<Rightarrow> Inr (v # vs)))"

lemma collect_rows_all: "(\<And>r. r \<in> set rows \<Longrightarrow> f r = Inr (g r)) \<Longrightarrow> collect_rows f rows = Inr (map g rows)"
  by (induction rows) simp_all

text \<open>
  The entities of rows that satisfy the CHECK constraints; a \<open>TIMESTAMPTZ\<close> holds whole
  microseconds.
\<close>

definition job_of :: "job_row \<Rightarrow> research_job" where
  "job_of row = projr (job_from_row row)"

definition result_of :: "result_row \<Rightarrow> search_result" where
  "result_of row = projr (result_from_row row)"

definition job_row_ok :: "job_row \<Rightarrow> bool" where
  "job_row_ok row \<longleftrightarrow>
     (case status_from_str (jb_status row) of Inl _ \<Rightarrow> False | Inr _ \<Rightarrow> True) \<and>
     map_option now_utc (jb_completed_at row) = jb_completed_at row"

definition result_row_ok :: "result_row \<Rightarrow> bool" where
  "result_row_ok row \<longleftrightarrow> (case confidence_from_str (sw_date_confidence row) of Inl _ \<Rightarrow> False | Inr _ \<Rightarrow> True)"

lemma job_row_okE:
  assumes "job_row_ok row"
  obtains st where "jb_status row = status_to_str st"
  using assms by (auto simp: job_row_ok_def status_from_str_Inr split: sum.splits)

lemma job_of_row: "job_row_ok row \<Longrightarrow> job_from_row row = Inr (job_of row)"
  by (erule job_row_okE) (simp add: job_of_def job_from_row_def)

lemma result_of_row: "result_row_ok row \<Longrightarrow> result_from_row row = Inr (result_of row)"
  by (auto simp: result_row_ok_def result_of_def result_from_row_def split: sum.splits)

lemma job_of_fields:
  assumes "job_row_ok row"
  shows "job_id (job_of row) = jb_id row" "job_user_id (job_of row) = jb_user_id row"
    "job_created_at (job_of row) = jb_created_at row" "job_usage (job_of row) = jb_usage row"
    "job_recurring_search_id (job_of row) = jb_recurring_search_id row"
    "status_to_str (job_status (job_of row)) = jb_status row"
  using assms by (auto simp: job_of_def job_from_row_def elim!: job_row_okE)

lemma row_fields [simp]:
  "rs_id (recurring_from_row x) = sx_id x" "rs_user_id (recurring_from_row x) = sx_user_id x"
  "rs_created_at (recurring_from_row x) = sx_created_at x"
  "ch_id (channel_from_row c) = cw_id c" "ch_user_id (channel_from_row c) = cw_user_id c"
  "ch_created_at (channel_from_row c) = cw_created_at c"
  "doc_id (document_from_row d) = dw_id d" "doc_user_id (document_from_row d) = dw_user_id d"
  "doc_created_at (document_from_row d) = dw_created_at d" "doc_name (document_from_row d) = dw_name d"
  by (simp_all add: recurring_from_row_def channel_from_row_def document_from_row_def)

section \<open>A table as a map\<close>

definition table :: "('r \<Rightarrow> uuid) \<Rightarrow> ('r \<Rightarrow> 'v) \<Rightarrow> 'r list \<Rightarrow> uuid \<rightharpoonup> 'v" where
  "table key conv rows = map_of (map (\<lambda>r. (key r, conv r)) rows)"

lemma table_dom: "dom (table key conv rows) = key ` set rows"
  by (simp add: table_def dom_map_of_conv_image_fst image_image)

lemma table_None: "table key conv rows i = None \<longleftrightarrow> i \<notin> key ` set rows"
  using table_dom [of key conv rows] by blast

lemma table_Some:
  "distinct (map key rows) \<Longrightarrow> table key conv rows i = Some v \<longleftrightarrow> (\<exists>r \<in> set rows. key r = i \<and> conv r = v)"
  by (subst table_def, subst map_of_eq_Some_iff) (auto simp: comp_def)

lemma table_row: "distinct (map key rows) \<Longrightarrow> r \<in> set rows \<Longrightarrow> table key conv rows (key r) = Some (conv r)"
  by (auto simp: table_Some)

lemma table_find: "map_option conv (find (\<lambda>r. key r = i) rows) = table key conv rows i"
  by (induction rows) (simp_all add: table_def)

lemma ran_table: "distinct (map key rows) \<Longrightarrow> ran (table key conv rows) = conv ` set rows"
  by (auto simp: ran_def table_Some)

lemma same_map: "(\<And>i v. m i = Some v \<longleftrightarrow> m' i = Some v) \<Longrightarrow> m = m'"
  by (rule ext) (metis option.exhaust)

lemma key_inj: "distinct (map key rows) \<Longrightarrow> r \<in> set rows \<Longrightarrow> q \<in> set rows \<Longrightarrow> key r = key q \<Longrightarrow> r = q"
  by (auto simp: distinct_map inj_on_def)

lemma table_insert:
  assumes "distinct (map key rows)" and "key r \<notin> key ` set rows"
  shows "table key conv (rows @ [r]) = (table key conv rows)(key r \<mapsto> conv r)"
proof (rule same_map)
  fix i v
  have "distinct (map key (rows @ [r]))" and "\<forall>q \<in> set rows. key q \<noteq> key r"
    using assms by (auto intro: rev_image_eqI)
  then show "table key conv (rows @ [r]) i = Some v \<longleftrightarrow> ((table key conv rows)(key r \<mapsto> conv r)) i = Some v"
    using assms by (auto simp: table_Some)
qed

lemma table_filter:
  assumes "distinct (map key rows)" and "\<And>r. r \<in> set rows \<Longrightarrow> P r = Q (conv r)"
  shows "table key conv (filter P rows) = map_keep (\<lambda>_. Q) (table key conv rows)"
proof (rule same_map)
  fix i v
  have "distinct (map key (filter P rows))" using assms(1) by (rule distinct_map_filter)
  then show "table key conv (filter P rows) i = Some v \<longleftrightarrow> map_keep (\<lambda>_. Q) (table key conv rows) i = Some v"
    using assms by (auto simp: table_Some)
qed

lemma table_delete:
  assumes "distinct (map key rows)"
  shows "table key conv (filter (\<lambda>r. key r \<noteq> i) rows) = (table key conv rows)(i := None)"
proof (rule same_map)
  fix k v
  have "distinct (map key (filter (\<lambda>r. key r \<noteq> i) rows))" using assms by (rule distinct_map_filter)
  then show "table key conv (filter (\<lambda>r. key r \<noteq> i) rows) k = Some v \<longleftrightarrow>
      ((table key conv rows)(i := None)) k = Some v"
    using assms by (auto simp: table_Some)
qed

text \<open>\<open>UPDATE ... WHERE id = i\<close>\<close>

definition update_row :: "('r \<Rightarrow> uuid) \<Rightarrow> uuid \<Rightarrow> ('r \<Rightarrow> 'r) \<Rightarrow> 'r list \<Rightarrow> 'r list" where
  "update_row key i f rows = map (\<lambda>r. if key r = i then f r else r) rows"

lemma update_row_keys: "(\<And>r. key (f r) = key r) \<Longrightarrow> map key (update_row key i f rows) = map key rows"
  by (simp add: update_row_def)

lemma table_update:
  assumes "distinct (map key rows)" and "\<And>r. key (f r) = key r"
    and "\<And>r. r \<in> set rows \<Longrightarrow> key r = i \<Longrightarrow> conv (f r) = g (conv r)"
  shows "table key conv (update_row key i f rows) = map_modify i g (table key conv rows)"
proof (rule same_map)
  fix k v
  have d: "distinct (map key (update_row key i f rows))" using assms(1,2) by (simp add: update_row_keys)
  have "table key conv (update_row key i f rows) k = Some v \<longleftrightarrow>
      (\<exists>r \<in> set rows. key r = k \<and> (if key r = i then g (conv r) else conv r) = v)"
    unfolding table_Some [OF d] unfolding update_row_def set_map bex_simps(7)
    by (rule bex_cong) (auto simp: assms(2,3))
  also have "\<dots> \<longleftrightarrow> map_modify i g (table key conv rows) k = Some v"
  proof (cases "table key conv rows i")
    case None
    then have "\<forall>r \<in> set rows. key r \<noteq> i" by (auto simp: table_None)
    with None show ?thesis by (auto simp: table_Some [OF assms(1)])
  next
    case (Some u)
    then obtain q where q: "q \<in> set rows" "key q = i" "conv q = u" by (auto simp: table_Some [OF assms(1)])
    have "\<forall>r \<in> set rows. key r = i \<longrightarrow> r = q" using key_inj [OF assms(1)] q by blast
    with q have "(\<exists>r \<in> set rows. key r = i \<and> g (conv r) = v) \<longleftrightarrow> g u = v" by metis
    moreover have "(\<exists>r \<in> set rows. key r = k \<and> (if key r = i then g (conv r) else conv r) = v) \<longleftrightarrow>
        (if k = i then \<exists>r \<in> set rows. key r = i \<and> g (conv r) = v else table key conv rows k = Some v)"
      by (auto simp: table_Some [OF assms(1)])
    ultimately show ?thesis using Some by auto
  qed
  finally show "table key conv (update_row key i f rows) k = Some v \<longleftrightarrow>
      map_modify i g (table key conv rows) k = Some v" .
qed

lemma table_keyed:
  assumes "distinct (map key rows)" and "\<And>r. r \<in> set rows \<Longrightarrow> key' (conv r) = key r"
  shows "keyed key' (table key conv rows)"
  using assms(2) by (auto simp: keyed_def table_dom table_Some [OF assms(1)])

lemma conv_inj:
  assumes "distinct (map key rows)" and "\<And>r. r \<in> set rows \<Longrightarrow> key' (conv r) = key r"
  shows "inj_on conv (set rows)"
  by (rule inj_onI) (metis assms key_inj)

lemma table_count:
  assumes "distinct (map key rows)" and "\<And>r. r \<in> set rows \<Longrightarrow> key' (conv r) = key r"
    and "\<And>r. r \<in> set rows \<Longrightarrow> P r = Q (conv r)"
  shows "length (filter P rows) = card {v \<in> ran (table key conv rows). Q v}"
proof -
  have "{v \<in> ran (table key conv rows). Q v} = conv ` set (filter P rows)"
    unfolding ran_table [OF assms(1)] using assms(3) by auto
  moreover have "inj_on conv (set (filter P rows))"
    using conv_inj [where conv = conv and key' = key', OF assms(1,2)] by (rule inj_on_subset) auto
  moreover have "distinct (filter P rows)" using assms(1) by (simp add: distinct_map)
  ultimately show ?thesis by (metis card_image distinct_card)
qed

lemma table_listing:
  assumes "distinct (map key rows)" and "\<And>r. r \<in> set rows \<Longrightarrow> key' (conv r) = key r"
    and "\<And>r. r \<in> set rows \<Longrightarrow> P r = Q (conv r)" and "\<And>r. r \<in> set rows \<Longrightarrow> k r = l (conv r)"
    and "mset xs = mset (filter P rows)"
  shows "listing Q l (table key conv rows) (map conv (sort_key k xs))"
proof -
  have set: "set xs = set (filter P rows)" using assms(5) by (metis set_mset_mset)
  have "distinct xs" using assms(1,5) by (metis distinct_filter distinct_map mset_eq_imp_distinct_iff)
  then have "distinct (map conv (sort_key k xs))"
    using conv_inj [where conv = conv and key' = key', OF assms(1,2)] set by (auto simp: distinct_map intro: inj_on_subset)
  moreover have "set (map conv (sort_key k xs)) = {v \<in> ran (table key conv rows). Q v}"
    unfolding ran_table [OF assms(1)] using assms(3) set by auto
  moreover have "sorted_wrt (\<lambda>x y. l x \<le> l y) (map conv (sort_key k xs))"
  proof -
    have "sorted_wrt (\<lambda>x y. k x \<le> k y) (sort_key k xs)" using sorted_sort_key [of k xs] by (simp only: sorted_map)
    then have "sorted_wrt (\<lambda>x y. l (conv x) \<le> l (conv y)) (sort_key k xs)"
      by (rule sorted_wrt_mono_rel [rotated]) (use assms(4) set in auto)
    then show ?thesis by (simp add: sorted_wrt_map)
  qed
  ultimately show ?thesis by (simp add: listing_def)
qed

end
