(* ===== verification/Postgres_State.thy ===== *)
theory Postgres_State
  imports Postgres_Tables
begin

text \<open>
  The database as a state: its tables, what a statement does to them and what the foreign keys
  of \<open>migrations/*.sql\<close> make of a deletion. \<open>pg_wf\<close> is what the constraints guarantee of every
  reachable database, \<open>pg_abs\<close> the abstract world of the ports.
\<close>

section \<open>The database\<close>

record pg =
  pg_users :: "user list"
  pg_tokens :: "refresh_token list"
  pg_jobs :: "job_row list"
  pg_results :: "result_row list"
  pg_steps :: "step_row list"
  pg_searches :: "search_row list"
  pg_events :: "security_event list"
  pg_channels :: "channel_row list"
  pg_documents :: "document_row list"
  pg_chunks :: "chunk_row list"
  pg_clock :: nat
  pg_calls :: "outcall list"

definition empty_pg :: pg where
  "empty_pg =
     \<lparr>pg_users = [], pg_tokens = [], pg_jobs = [], pg_results = [], pg_steps = [], pg_searches = [],
      pg_events = [], pg_channels = [], pg_documents = [], pg_chunks = [], pg_clock = 0, pg_calls = []\<rparr>"

text \<open>
  Not part of the repository: whether the connection and the server serve the statement; the order
  of rows the statement leaves open; the texts of errors; the collation; what \<open>jsonb\<close> keeps of a
  value; which vectors pgvector accepts and which rows its index scan visits, nearest first; whether
  a \<open>double precision\<close> sum leaves the range; fresh UUIDs.
\<close>

datatype db_error =
    UniqueViolation string
  | ForeignKeyViolation string
  | CheckViolation string
  | NulInText
  | IntegerOutOfRange
  | DoubleOutOfRange
  | InvalidJson
  | InvalidVector

record pg_env =
  pe_fault :: "nat \<Rightarrow> rstr option"
  pe_order :: "nat \<Rightarrow> nat list"
  pe_message :: "db_error \<Rightarrow> rstr"
  pe_collate :: "rstr \<Rightarrow> nat list"
  pe_jsonb :: "json \<Rightarrow> json option"
  pe_vector :: "f32 list \<Rightarrow> bool"
  pe_nearest :: "nat \<Rightarrow> f32 list \<Rightarrow> f32 list list \<Rightarrow> nat list option"
  pe_double_range :: "f64 \<Rightarrow> f64 \<Rightarrow> bool"
  pe_uuid :: "nat \<Rightarrow> uuid"

definition db_err :: "rstr \<Rightarrow> port_error" where
  "db_err e = PortError (lit ''database error: '' @ e)"

section \<open>Statements\<close>

text \<open>\<open>pg_exec E texts op\<close> runs one statement with the text parameters \<open>texts\<close>.\<close>

definition pg_exec :: "pg_env \<Rightarrow> rstr list \<Rightarrow> (pg \<Rightarrow> db_error + 'a \<times> pg) \<Rightarrow> (pg, 'a) port" where
  "pg_exec E texts op s =
     (let n = pg_clock s; s = s\<lparr>pg_clock := n + 1\<rparr> in
      case pe_fault E n of
        Some failure \<Rightarrow> (Inl (db_err failure), s)
      | None \<Rightarrow>
          if \<exists>t \<in> set texts. 0 \<in> set t then (Inl (db_err (pe_message E NulInText)), s)
          else case op s of
              Inl e \<Rightarrow> (Inl (db_err (pe_message E e)), s)
            | Inr (x, s') \<Rightarrow> (Inr x, s'))"

definition opt_text :: "rstr option \<Rightarrow> rstr list" where
  "opt_text x = (case x of None \<Rightarrow> [] | Some t \<Rightarrow> [t])"

definition pg_query :: "pg_env \<Rightarrow> rstr list \<Rightarrow> (pg \<Rightarrow> 'a) \<Rightarrow> (pg, 'a) port" where
  "pg_query E texts q = pg_exec E texts (\<lambda>s. Inr (q s, s))"

text \<open>The rows of a scan, in the order of this statement.\<close>

definition scan :: "pg_env \<Rightarrow> pg \<Rightarrow> 'r list \<Rightarrow> 'r list" where
  "scan E s rows =
     (let order = pe_order E (pg_clock s) in
      if sort order = [0..<length rows] then map (\<lambda>i. rows ! i) order else rows)"

text \<open>A transaction that is dropped after an error has changed nothing.\<close>

definition pg_transaction :: "(pg, 'a) port \<Rightarrow> (pg, 'a) port" where
  "pg_transaction m s =
     (case m s of
        (Inl e, s') \<Rightarrow> (Inl e, s\<lparr>pg_clock := pg_clock s'\<rparr>)
      | (Inr x, s') \<Rightarrow> (Inr x, s'))"

definition pg_begin :: "pg_env \<Rightarrow> (pg, unit) port" where
  "pg_begin E = pg_exec E [] (\<lambda>s. Inr ((), s))"

definition pg_commit :: "pg_env \<Rightarrow> (pg, unit) port" where
  "pg_commit E = pg_exec E [] (\<lambda>s. Inr ((), s))"

section \<open>Deletions and the foreign keys\<close>

definition drop_jobs_where :: "(job_row \<Rightarrow> bool) \<Rightarrow> pg \<Rightarrow> pg" where
  "drop_jobs_where P s =
     (let gone = jb_id ` set (filter P (pg_jobs s)) in
      s\<lparr>pg_jobs := filter (\<lambda>j. \<not> P j) (pg_jobs s),
        pg_results := filter (\<lambda>r. sw_job_id r \<notin> gone) (pg_results s),
        pg_steps := filter (\<lambda>r. sp_job_id r \<notin> gone) (pg_steps s)\<rparr>)"

text \<open>\<open>ON DELETE SET NULL\<close>\<close>

definition unlink_from :: "uuid set \<Rightarrow> job_row \<Rightarrow> job_row" where
  "unlink_from gone j =
     (case jb_recurring_search_id j of
        Some x \<Rightarrow> if x \<in> gone then j\<lparr>jb_recurring_search_id := None\<rparr> else j
      | None \<Rightarrow> j)"

definition drop_searches_where :: "(search_row \<Rightarrow> bool) \<Rightarrow> pg \<Rightarrow> pg" where
  "drop_searches_where P s =
     (let gone = sx_id ` set (filter P (pg_searches s)) in
      s\<lparr>pg_searches := filter (\<lambda>x. \<not> P x) (pg_searches s),
        pg_jobs := map (unlink_from gone) (pg_jobs s)\<rparr>)"

definition drop_documents_where :: "(document_row \<Rightarrow> bool) \<Rightarrow> pg \<Rightarrow> pg" where
  "drop_documents_where P s =
     (let gone = dw_id ` set (filter P (pg_documents s)) in
      s\<lparr>pg_documents := filter (\<lambda>d. \<not> P d) (pg_documents s),
        pg_chunks := filter (\<lambda>c. kw_document_id c \<notin> gone) (pg_chunks s)\<rparr>)"

definition anonymise :: "uuid \<Rightarrow> security_event \<Rightarrow> security_event" where
  "anonymise i e = (if se_user_id e = Some i then e\<lparr>se_user_id := None\<rparr> else e)"

definition drop_user_row :: "uuid \<Rightarrow> pg \<Rightarrow> pg" where
  "drop_user_row i s =
     (let s = drop_jobs_where (\<lambda>j. jb_user_id j = i) s;
          s = drop_searches_where (\<lambda>x. sx_user_id x = i) s;
          s = drop_documents_where (\<lambda>d. dw_user_id d = i) s in
      s\<lparr>pg_users := filter (\<lambda>u. user_id u \<noteq> i) (pg_users s),
        pg_tokens := filter (\<lambda>t. rt_user_id t \<noteq> i) (pg_tokens s),
        pg_channels := filter (\<lambda>c. cw_user_id c \<noteq> i) (pg_channels s),
        pg_chunks := filter (\<lambda>c. kw_user_id c \<noteq> i) (pg_chunks s),
        pg_events := map (anonymise i) (pg_events s)\<rparr>)"

section \<open>What the constraints guarantee\<close>

definition users_of :: "pg \<Rightarrow> uuid set" where "users_of s = user_id ` set (pg_users s)"
definition jobs_of :: "pg \<Rightarrow> uuid set" where "jobs_of s = jb_id ` set (pg_jobs s)"
definition searches_of :: "pg \<Rightarrow> uuid set" where "searches_of s = sx_id ` set (pg_searches s)"
definition documents_of :: "pg \<Rightarrow> uuid set" where "documents_of s = dw_id ` set (pg_documents s)"

lemmas id_sets = users_of_def jobs_of_def searches_of_def documents_of_def

definition interval_ok :: "32 word \<Rightarrow> bool" where
  "interval_ok n \<longleftrightarrow> 1 \<le> sint n \<and> sint n \<le> 10080"

definition step_key :: "step_row \<Rightarrow> uuid \<times> int" where
  "step_key r = (sp_job_id r, step_seq (sp_step r))"

definition job_refs_ok :: "uuid set \<Rightarrow> uuid set \<Rightarrow> job_row list \<Rightarrow> bool" where
  "job_refs_ok users searches rows \<longleftrightarrow>
     (\<forall>j \<in> set rows. job_row_ok j \<and> jb_user_id j \<in> users \<and>
        (case jb_recurring_search_id j of None \<Rightarrow> True | Some x \<Rightarrow> x \<in> searches))"

definition event_ref_ok :: "uuid set \<Rightarrow> security_event \<Rightarrow> bool" where
  "event_ref_ok users e \<longleftrightarrow> (case se_user_id e of None \<Rightarrow> True | Some u \<Rightarrow> u \<in> users)"

definition pg_wf :: "pg \<Rightarrow> bool" where
  "pg_wf s \<longleftrightarrow>
     distinct (map user_id (pg_users s)) \<and> distinct (map user_email (pg_users s)) \<and>
     distinct (map rt_id (pg_tokens s)) \<and> distinct (map rt_token_hash (pg_tokens s)) \<and>
     (\<forall>t \<in> set (pg_tokens s). rt_user_id t \<in> users_of s) \<and>
     distinct (map jb_id (pg_jobs s)) \<and> job_refs_ok (users_of s) (searches_of s) (pg_jobs s) \<and>
     (\<forall>r \<in> set (pg_results s). result_row_ok r \<and> sw_job_id r \<in> jobs_of s) \<and>
     distinct (map step_key (pg_steps s)) \<and> (\<forall>r \<in> set (pg_steps s). sp_job_id r \<in> jobs_of s) \<and>
     distinct (map sx_id (pg_searches s)) \<and>
     (\<forall>x \<in> set (pg_searches s). sx_user_id x \<in> users_of s \<and> interval_ok (sx_interval_minutes x)) \<and>
     (\<forall>e \<in> set (pg_events s). event_ref_ok (users_of s) e) \<and>
     distinct (map cw_id (pg_channels s)) \<and>
     (\<forall>c \<in> set (pg_channels s). cw_user_id c \<in> users_of s \<and> channel_kind_parse (cw_kind c) \<noteq> None) \<and>
     distinct (map dw_id (pg_documents s)) \<and> (\<forall>d \<in> set (pg_documents s). dw_user_id d \<in> users_of s) \<and>
     (\<forall>c \<in> set (pg_chunks s). kw_document_id c \<in> documents_of s \<and> kw_user_id c \<in> users_of s)"

lemma pg_wfD:
  assumes "pg_wf s"
  shows "distinct (map user_id (pg_users s))" "distinct (map user_email (pg_users s))"
    "distinct (map rt_id (pg_tokens s))" "distinct (map rt_token_hash (pg_tokens s))"
    "\<forall>t \<in> set (pg_tokens s). rt_user_id t \<in> users_of s"
    "distinct (map jb_id (pg_jobs s))" "job_refs_ok (users_of s) (searches_of s) (pg_jobs s)"
    "\<forall>r \<in> set (pg_results s). result_row_ok r \<and> sw_job_id r \<in> jobs_of s"
    "distinct (map step_key (pg_steps s))" "\<forall>r \<in> set (pg_steps s). sp_job_id r \<in> jobs_of s"
    "distinct (map sx_id (pg_searches s))"
    "\<forall>x \<in> set (pg_searches s). sx_user_id x \<in> users_of s \<and> interval_ok (sx_interval_minutes x)"
    "\<forall>e \<in> set (pg_events s). event_ref_ok (users_of s) e"
    "distinct (map cw_id (pg_channels s))"
    "\<forall>c \<in> set (pg_channels s). cw_user_id c \<in> users_of s \<and> channel_kind_parse (cw_kind c) \<noteq> None"
    "distinct (map dw_id (pg_documents s))" "\<forall>d \<in> set (pg_documents s). dw_user_id d \<in> users_of s"
    "\<forall>c \<in> set (pg_chunks s). kw_document_id c \<in> documents_of s \<and> kw_user_id c \<in> users_of s"
  using assms unfolding pg_wf_def by blast+

lemma pg_wf_clock [simp]: "pg_wf (s\<lparr>pg_clock := n\<rparr>) = pg_wf s" "pg_wf (s\<lparr>pg_calls := cs\<rparr>) = pg_wf s"
  by (simp_all add: pg_wf_def id_sets)

lemma job_rows_ok: "pg_wf s \<Longrightarrow> j \<in> set (pg_jobs s) \<Longrightarrow> job_row_ok j"
  using pg_wfD(7) by (auto simp: job_refs_ok_def)

section \<open>The abstract world\<close>

definition chunk_of :: "document_row list \<Rightarrow> chunk_row \<Rightarrow> stored_chunk" where
  "chunk_of documents c =
     \<lparr>sc_document_id = kw_document_id c, sc_user_id = kw_user_id c, sc_content = kw_content c,
      sc_embedding = kw_embedding c,
      sc_document_name =
        (case find (\<lambda>d. dw_id d = kw_document_id c) documents of None \<Rightarrow> [] | Some d \<Rightarrow> dw_name d)\<rparr>"

definition pg_abs :: "pg \<Rightarrow> aworld" where
  "pg_abs s =
     \<lparr>aw_users = table user_id (\<lambda>u. u) (pg_users s),
      aw_channels = table cw_id channel_from_row (pg_channels s),
      aw_tokens = table rt_id (\<lambda>t. t) (pg_tokens s),
      aw_jobs = table jb_id job_of (pg_jobs s),
      aw_results = (\<lambda>i. map result_of (filter (\<lambda>r. sw_job_id r = i) (pg_results s))),
      aw_steps = (\<lambda>i. sort_key step_seq (map sp_step (filter (\<lambda>r. sp_job_id r = i) (pg_steps s)))),
      aw_recurring = table sx_id recurring_from_row (pg_searches s),
      aw_events = pg_events s,
      aw_documents = table dw_id document_from_row (pg_documents s),
      aw_chunks = mset (map (chunk_of (pg_documents s)) (pg_chunks s)),
      aw_calls = pg_calls s\<rparr>"

lemma pg_abs_clock [simp]: "pg_abs (s\<lparr>pg_clock := n\<rparr>) = pg_abs s"
  by (simp add: pg_abs_def)

text \<open>One statement against the contract of a port.\<close>

lemma pg_exec_spec:
  assumes "\<And>s x s'. pg_wf s \<Longrightarrow> op s = Inr (x, s') \<Longrightarrow> pg_wf s' \<and> R (pg_abs s) x (pg_abs s')"
  shows "port_spec pg_wf pg_abs (pg_exec E texts op) R"
  unfolding port_spec_def
proof (intro allI impI)
  fix s
  assume wf: "pg_wf s"
  let ?s = "s\<lparr>pg_clock := pg_clock s + 1\<rparr>"
  show "case pg_exec E texts op s of (Inl e, s') \<Rightarrow> pg_wf s' \<and> pg_abs s' = pg_abs s
      | (Inr x, s') \<Rightarrow> pg_wf s' \<and> R (pg_abs s) x (pg_abs s')"
  proof (cases "pe_fault E (pg_clock s) = None \<and> \<not> (\<exists>t \<in> set texts. 0 \<in> set t)")
    case True
    then show ?thesis
      using wf assms [of ?s] by (auto simp: pg_exec_def Let_def split: sum.splits)
  next
    case False
    then show ?thesis using wf by (auto simp: pg_exec_def Let_def split: option.splits)
  qed
qed

lemma pg_query_spec:
  assumes "\<And>s. pg_wf s \<Longrightarrow> R (pg_abs s) (q s) (pg_abs s)"
  shows "port_spec pg_wf pg_abs (pg_query E texts q) R"
  unfolding pg_query_def by (rule pg_exec_spec) (use assms in auto)

lemma mset_scan [simp]: "mset (scan E s rows) = mset rows"
proof (cases "sort (pe_order E (pg_clock s)) = [0..<length rows]")
  case True
  then have "mset (pe_order E (pg_clock s)) = mset [0..<length rows]" by (metis mset_sort)
  then have "mset (map ((!) rows) (pe_order E (pg_clock s))) = image_mset ((!) rows) (mset [0..<length rows])"
    by (simp only: mset_map)
  also have "\<dots> = mset (map ((!) rows) [0..<length rows])" by (simp only: mset_map)
  also have "\<dots> = mset rows" by (simp only: map_nth)
  finally show ?thesis using True by (simp add: scan_def)
qed (simp add: scan_def)

lemma set_scan [simp]: "set (scan E s rows) = set rows"
  by (metis mset_scan set_mset_mset)

section \<open>Deletions seen from outside\<close>

lemma kept_keys: "i \<in> key ` set rows \<Longrightarrow> i \<notin> key ` set (filter P rows) \<Longrightarrow> i \<in> key ` set (filter (\<lambda>r. \<not> P r) rows)"
  by auto

lemma distinct_filter_map: "distinct (map f xs) \<Longrightarrow> distinct (map f (filter P xs))"
  by (rule distinct_map_filter)

lemma drop_jobs_where_wf:
  assumes "pg_wf s"
  shows "pg_wf (drop_jobs_where P s)"
proof -
  let ?s = "drop_jobs_where P s"
  have same: "users_of ?s = users_of s" "searches_of ?s = searches_of s" "documents_of ?s = documents_of s"
    by (simp_all add: id_sets drop_jobs_where_def Let_def)
  have jobs: "i \<in> jobs_of ?s" if "i \<in> jobs_of s" "i \<notin> jb_id ` set (filter P (pg_jobs s))" for i
    using kept_keys [OF that [unfolded jobs_of_def]] by (simp add: jobs_of_def drop_jobs_where_def Let_def)
  show ?thesis
    using pg_wfD [OF assms] jobs
    unfolding pg_wf_def same
    by (simp add: drop_jobs_where_def Let_def distinct_filter_map job_refs_ok_def)
qed

lemma filter_gone:
  "filter (\<lambda>r. f r \<notin> gone \<and> f r = i) rows = (if i \<in> gone then [] else filter (\<lambda>r. f r = i) rows)"
  by (induction rows) auto

lemma drop_jobs_where_abs:
  assumes wf: "pg_wf s" and P: "\<And>j. j \<in> set (pg_jobs s) \<Longrightarrow> P j = Q (job_of j)"
  shows "pg_abs (drop_jobs_where P s) = drop_jobs Q (pg_abs s)"
proof -
  note d = pg_wfD(6) [OF wf]
  let ?gone = "jb_id ` set (filter P (pg_jobs s))"
  have gone: "i \<in> ?gone \<longleftrightarrow> (\<exists>j. table jb_id job_of (pg_jobs s) i = Some j \<and> Q j)" for i
    using P by (auto simp: table_Some [OF d])
  have jobs: "table jb_id job_of (filter (\<lambda>j. \<not> P j) (pg_jobs s)) =
      map_keep (\<lambda>_ j. \<not> Q j) (table jb_id job_of (pg_jobs s))"
    by (rule table_filter [OF d]) (simp add: P)
  show ?thesis
    by (intro aworld.equality)
      (simp_all add: pg_abs_def drop_jobs_def drop_jobs_where_def Let_def jobs filter_gone
        gone [symmetric] if_distrib cong: if_cong)
qed

lemma unlink_fields [simp]:
  "jb_id (unlink_from gone j) = jb_id j" "jb_user_id (unlink_from gone j) = jb_user_id j"
  "job_row_ok (unlink_from gone j) = job_row_ok j"
  by (simp_all add: unlink_from_def job_row_ok_def split: option.splits)

lemma unlink_comp [simp]: "jb_id \<circ> unlink_from gone = jb_id"
  by (rule ext) simp

lemma drop_searches_where_wf:
  assumes "pg_wf s"
  shows "pg_wf (drop_searches_where P s)"
proof -
  let ?s = "drop_searches_where P s"
  let ?gone = "sx_id ` set (filter P (pg_searches s))"
  have same: "users_of ?s = users_of s" "documents_of ?s = documents_of s" "jobs_of ?s = jobs_of s"
    by (simp_all add: id_sets drop_searches_where_def Let_def image_image)
  have searches: "i \<in> searches_of ?s" if "i \<in> searches_of s" "i \<notin> ?gone" for i
    using kept_keys [OF that [unfolded searches_of_def]] by (simp add: searches_of_def drop_searches_where_def Let_def)
  have "case jb_recurring_search_id (unlink_from ?gone j) of None \<Rightarrow> True | Some x \<Rightarrow> x \<in> searches_of ?s"
    if "j \<in> set (pg_jobs s)" for j
    using pg_wfD(7) [OF assms] that searches
    by (auto simp: job_refs_ok_def unlink_from_def split: option.splits if_splits)
  moreover have "pg_jobs ?s = map (unlink_from ?gone) (pg_jobs s)"
    by (simp add: drop_searches_where_def Let_def)
  ultimately have "job_refs_ok (users_of s) (searches_of ?s) (pg_jobs ?s)"
    using pg_wfD(7) [OF assms] by (simp add: job_refs_ok_def)
  moreover have "map jb_id (pg_jobs ?s) = map jb_id (pg_jobs s)"
    by (simp add: drop_searches_where_def Let_def)
  ultimately show ?thesis
    using pg_wfD [OF assms]
    unfolding pg_wf_def same
    by (simp add: drop_searches_where_def Let_def distinct_filter_map)
qed

lemma job_of_unlink:
  assumes "job_row_ok j"
  shows "job_of (unlink_from gone j) = job_of j \<or>
    (\<exists>x \<in> gone. job_recurring_search_id (job_of j) = Some x \<and>
       job_of (unlink_from gone j) = (job_of j)\<lparr>job_recurring_search_id := None\<rparr>)"
  using assms
  by (auto simp: unlink_from_def job_of_def job_from_row_def elim!: job_row_okE split: option.splits)

lemma drop_searches_where_abs:
  assumes wf: "pg_wf s" and P: "\<And>x. x \<in> set (pg_searches s) \<Longrightarrow> P x = Q (recurring_from_row x)"
  shows "\<exists>m. pg_abs (drop_searches_where P s) =
           (pg_abs s)\<lparr>aw_recurring := map_keep (\<lambda>_ x. \<not> Q x) (aw_recurring (pg_abs s)), aw_jobs := m\<rparr> \<and>
         unlinked (sx_id ` set (filter P (pg_searches s))) (aw_jobs (pg_abs s)) m"
proof (intro exI conjI)
  let ?gone = "sx_id ` set (filter P (pg_searches s))"
  let ?m = "table jb_id job_of (map (unlink_from ?gone) (pg_jobs s))"
  note d = pg_wfD(6,11) [OF wf]
  have d': "distinct (map jb_id (map (unlink_from ?gone) (pg_jobs s)))" using d(1) by (simp add: comp_def)
  have searches: "table sx_id recurring_from_row (filter (\<lambda>x. \<not> P x) (pg_searches s)) =
      map_keep (\<lambda>_ x. \<not> Q x) (table sx_id recurring_from_row (pg_searches s))"
    by (rule table_filter [OF d(2)]) (simp add: P)
  show "pg_abs (drop_searches_where P s) =
      (pg_abs s)\<lparr>aw_recurring := map_keep (\<lambda>_ x. \<not> Q x) (aw_recurring (pg_abs s)), aw_jobs := ?m\<rparr>"
    by (intro aworld.equality) (simp_all add: pg_abs_def drop_searches_where_def Let_def searches)
  show "unlinked ?gone (aw_jobs (pg_abs s)) ?m"
    unfolding unlinked_def
  proof (intro conjI allI impI)
    show "dom ?m = dom (aw_jobs (pg_abs s))" by (simp add: pg_abs_def table_dom image_image)
    fix i j
    assume "aw_jobs (pg_abs s) i = Some j"
    then obtain r where r: "r \<in> set (pg_jobs s)" "jb_id r = i" "job_of r = j"
      by (auto simp: pg_abs_def table_Some [OF d(1)])
    then have "?m (jb_id (unlink_from ?gone r)) = Some (job_of (unlink_from ?gone r))"
      by (intro table_row [OF d']) simp
    then have "?m i = Some (job_of (unlink_from ?gone r))" using r(2) by simp
    with job_of_unlink [OF job_rows_ok [OF wf r(1)], of ?gone] r(3)
    show "?m i = Some j \<or> (\<exists>x \<in> ?gone. job_recurring_search_id j = Some x \<and>
        ?m i = Some (j\<lparr>job_recurring_search_id := None\<rparr>))" by auto
  qed
qed

lemma drop_documents_where_wf:
  assumes "pg_wf s"
  shows "pg_wf (drop_documents_where P s)"
proof -
  let ?s = "drop_documents_where P s"
  have same: "users_of ?s = users_of s" "searches_of ?s = searches_of s" "jobs_of ?s = jobs_of s"
    by (simp_all add: id_sets drop_documents_where_def Let_def)
  have documents: "i \<in> documents_of ?s" if "i \<in> documents_of s" "i \<notin> dw_id ` set (filter P (pg_documents s))" for i
    using kept_keys [OF that [unfolded documents_of_def]] by (simp add: documents_of_def drop_documents_where_def Let_def)
  show ?thesis
    using pg_wfD [OF assms] documents
    unfolding pg_wf_def same
    by (simp add: drop_documents_where_def Let_def distinct_filter_map)
qed

lemma find_kept: "\<forall>d \<in> set ds. key d = k \<longrightarrow> \<not> P d \<Longrightarrow>
  find (\<lambda>d. key d = k) (filter (\<lambda>d. \<not> P d) ds) = find (\<lambda>d. key d = k) ds"
  by (induction ds) auto

lemma drop_documents_where_abs:
  assumes wf: "pg_wf s" and P: "\<And>d. d \<in> set (pg_documents s) \<Longrightarrow> P d = Q (document_from_row d)"
  shows "pg_abs (drop_documents_where P s) =
    (pg_abs s)\<lparr>aw_documents := map_keep (\<lambda>_ d. \<not> Q d) (aw_documents (pg_abs s)),
      aw_chunks := {#c \<in># aw_chunks (pg_abs s). sc_document_id c \<notin> dw_id ` set (filter P (pg_documents s))#}\<rparr>"
proof -
  let ?gone = "dw_id ` set (filter P (pg_documents s))"
  have documents: "table dw_id document_from_row (filter (\<lambda>d. \<not> P d) (pg_documents s)) =
      map_keep (\<lambda>_ d. \<not> Q d) (table dw_id document_from_row (pg_documents s))"
    by (rule table_filter [OF pg_wfD(16) [OF wf]]) (simp add: P)
  have same: "chunk_of (filter (\<lambda>d. \<not> P d) (pg_documents s)) c = chunk_of (pg_documents s) c"
    if "kw_document_id c \<notin> ?gone" for c
    unfolding chunk_of_def
    by (subst find_kept) (use that in \<open>auto simp: image_iff\<close>)
  have "mset (map (chunk_of (filter (\<lambda>d. \<not> P d) (pg_documents s)))
          (filter (\<lambda>c. kw_document_id c \<notin> ?gone) (pg_chunks s))) =
      mset (map (chunk_of (pg_documents s)) (filter (\<lambda>c. kw_document_id c \<notin> ?gone) (pg_chunks s)))"
    using same by (intro arg_cong [where f = mset] map_cong refl) auto
  also have "\<dots> = {#c \<in># mset (map (chunk_of (pg_documents s)) (pg_chunks s)). sc_document_id c \<notin> ?gone#}"
    by (simp add: filter_mset_image_mset chunk_of_def flip: mset_filter)
  finally show ?thesis
    by (intro aworld.equality) (simp_all add: pg_abs_def drop_documents_where_def Let_def documents)
qed

lemma user_gone_wf:
  assumes wf: "pg_wf s" and none: "\<forall>j \<in> set (pg_jobs s). jb_user_id j \<noteq> i"
    "\<forall>x \<in> set (pg_searches s). sx_user_id x \<noteq> i" "\<forall>d \<in> set (pg_documents s). dw_user_id d \<noteq> i"
  shows "pg_wf (s\<lparr>pg_users := filter (\<lambda>u. user_id u \<noteq> i) (pg_users s),
        pg_tokens := filter (\<lambda>t. rt_user_id t \<noteq> i) (pg_tokens s),
        pg_channels := filter (\<lambda>c. cw_user_id c \<noteq> i) (pg_channels s),
        pg_chunks := filter (\<lambda>c. kw_user_id c \<noteq> i) (pg_chunks s),
        pg_events := map (anonymise i) (pg_events s)\<rparr>)" (is "pg_wf ?t")
proof -
  have same: "jobs_of ?t = jobs_of s" "searches_of ?t = searches_of s" "documents_of ?t = documents_of s"
    by (simp_all add: id_sets)
  have users: "users_of ?t = users_of s - {i}" by (auto simp: users_of_def)
  have events: "\<forall>e \<in> set (pg_events s). event_ref_ok (users_of s - {i}) (anonymise i e)"
    using pg_wfD(13) [OF wf] by (auto simp: anonymise_def event_ref_ok_def split: option.splits)
  show ?thesis
    using pg_wfD [OF wf] none events
    unfolding pg_wf_def same users job_refs_ok_def
    by (simp add: distinct_filter_map)
qed

lemma drop_user_row_wf:
  assumes "pg_wf s"
  shows "pg_wf (drop_user_row i s)"
  unfolding drop_user_row_def Let_def
  by (rule user_gone_wf, intro drop_documents_where_wf drop_searches_where_wf drop_jobs_where_wf assms)
    (auto simp: drop_documents_where_def drop_searches_where_def drop_jobs_where_def Let_def)

lemma none_where: "\<forall>r \<in> set rows. \<not> P r \<Longrightarrow> filter P rows = [] \<and> filter (\<lambda>r. \<not> P r) rows = rows"
  by (simp add: filter_empty_conv)

lemma unlink_none [simp]: "unlink_from {} = (\<lambda>j. j)"
  by (rule ext) (simp add: unlink_from_def split: option.split)

lemma drop_none:
  "\<forall>j \<in> set (pg_jobs s). \<not> P j \<Longrightarrow> drop_jobs_where P s = s"
  "\<forall>x \<in> set (pg_searches s). \<not> Q x \<Longrightarrow> drop_searches_where Q s = s"
  "\<forall>d \<in> set (pg_documents s). \<not> R d \<Longrightarrow> drop_documents_where R s = s"
  by (drule none_where, simp add: drop_jobs_where_def drop_searches_where_def drop_documents_where_def)+

lemma drop_user_row_abs:
  assumes wf: "pg_wf s" and none: "owns_nothing i (pg_abs s)"
  shows "\<exists>es. anonymised i (aw_events (pg_abs s)) es \<and>
    pg_abs (drop_user_row i s) =
      (pg_abs s)\<lparr>aw_users := (aw_users (pg_abs s))(i := None), aw_events := es\<rparr>"
proof (intro exI conjI)
  show "anonymised i (aw_events (pg_abs s)) (map (anonymise i) (pg_events s))"
    by (simp add: pg_abs_def anonymised_def list_all2_conv_all_nth anonymise_def)
  note d = pg_wfD [OF wf]
  have jobs: "\<forall>j \<in> set (pg_jobs s). jb_user_id j \<noteq> i"
    using none job_of_fields(2) job_rows_ok [OF wf] by (fastforce simp: owns_nothing_def pg_abs_def ran_table [OF d(6)])
  have others: "\<forall>x \<in> set (pg_searches s). sx_user_id x \<noteq> i" "\<forall>d \<in> set (pg_documents s). dw_user_id d \<noteq> i"
    "\<forall>t \<in> set (pg_tokens s). rt_user_id t \<noteq> i" "\<forall>c \<in> set (pg_channels s). cw_user_id c \<noteq> i"
    "\<forall>c \<in> set (pg_chunks s). kw_user_id c \<noteq> i"
    using none
    by (auto simp: owns_nothing_def pg_abs_def ran_table [OF d(11)] ran_table [OF d(16)] ran_table [OF d(3)]
        ran_table [OF d(14)] chunk_of_def)
  have "drop_user_row i s = s\<lparr>pg_users := filter (\<lambda>u. user_id u \<noteq> i) (pg_users s),
      pg_events := map (anonymise i) (pg_events s)\<rparr>"
    using others by (simp add: drop_user_row_def Let_def drop_none jobs filter_id_conv)
  then show "pg_abs (drop_user_row i s) = (pg_abs s)\<lparr>aw_users := (aw_users (pg_abs s))(i := None),
      aw_events := map (anonymise i) (pg_events s)\<rparr>"
    by (simp add: pg_abs_def table_delete [OF d(1)])
qed

end
