(* ===== verification/Postgres.thy ===== *)
theory Postgres
  imports Postgres_State
begin

text \<open>
  \<open>adapters/persistence/postgres.rs\<close>, second part: the repositories. Each operation is the
  statement, or the transaction, of the source. Instants are bound in microseconds. The CHECK
  constraints on text columns need no test here: the texts come from the conversions of
  \<open>Postgres_Tables\<close>.
\<close>

section \<open>Users\<close>

definition bound_user :: "user \<Rightarrow> user" where
  "bound_user u = u\<lparr>user_created_at := now_utc (user_created_at u)\<rparr>"

definition pg_user_insert :: "pg_env \<Rightarrow> user \<Rightarrow> (pg, unit) port" where
  "pg_user_insert E u = pg_exec E [user_email u, user_password_hash u] (\<lambda>s.
     if user_id u \<in> users_of s then Inl (UniqueViolation ''users_pkey'')
     else if user_email u \<in> user_email ` set (pg_users s) then Inl (UniqueViolation ''users_email_key'')
     else Inr ((), s\<lparr>pg_users := pg_users s @ [bound_user u]\<rparr>))"

definition pg_find_by_email :: "pg_env \<Rightarrow> rstr \<Rightarrow> (pg, user option) port" where
  "pg_find_by_email E em = pg_query E [em] (\<lambda>s. find (\<lambda>u. user_email u = em) (pg_users s))"

definition pg_find_by_id :: "pg_env \<Rightarrow> uuid \<Rightarrow> (pg, user option) port" where
  "pg_find_by_id E i = pg_query E [] (\<lambda>s. find (\<lambda>u. user_id u = i) (pg_users s))"

definition pg_user_delete :: "pg_env \<Rightarrow> uuid \<Rightarrow> (pg, unit) port" where
  "pg_user_delete E i = pg_exec E [] (\<lambda>s. Inr ((), drop_user_row i s))"

definition pg_user_repo :: "pg_env \<Rightarrow> pg user_repo" where
  "pg_user_repo E =
     \<lparr>ur_insert = pg_user_insert E, ur_find_by_email = pg_find_by_email E,
      ur_find_by_id = pg_find_by_id E, ur_delete = pg_user_delete E\<rparr>"

section \<open>Refresh tokens\<close>

definition bound_token :: "refresh_token \<Rightarrow> refresh_token" where
  "bound_token t =
     t\<lparr>rt_expires_at := now_utc (rt_expires_at t), rt_created_at := now_utc (rt_created_at t),
       rt_consumed_at := map_option now_utc (rt_consumed_at t)\<rparr>"

definition pg_token_insert :: "pg_env \<Rightarrow> refresh_token \<Rightarrow> (pg, unit) port" where
  "pg_token_insert E t = pg_exec E [rt_token_hash t] (\<lambda>s.
     if rt_id t \<in> rt_id ` set (pg_tokens s) then Inl (UniqueViolation ''refresh_tokens_pkey'')
     else if rt_token_hash t \<in> rt_token_hash ` set (pg_tokens s)
     then Inl (UniqueViolation ''refresh_tokens_token_hash_key'')
     else if rt_user_id t \<notin> users_of s then Inl (ForeignKeyViolation ''refresh_tokens_user_id_fkey'')
     else Inr ((), s\<lparr>pg_tokens := pg_tokens s @ [bound_token t]\<rparr>))"

definition pg_find_by_hash :: "pg_env \<Rightarrow> rstr \<Rightarrow> (pg, refresh_token option) port" where
  "pg_find_by_hash E h = pg_query E [h] (\<lambda>s. find (\<lambda>t. rt_token_hash t = h) (pg_tokens s))"

definition pg_mark_consumed :: "pg_env \<Rightarrow> uuid \<Rightarrow> time \<Rightarrow> (pg, unit) port" where
  "pg_mark_consumed E i at = pg_exec E [] (\<lambda>s.
     Inr ((), s\<lparr>pg_tokens := update_row rt_id i (consume (now_utc at)) (pg_tokens s)\<rparr>))"

text \<open>A deletion of tokens, and the rows affected.\<close>

definition delete_tokens :: "(refresh_token \<Rightarrow> bool) \<Rightarrow> pg \<Rightarrow> nat \<times> pg" where
  "delete_tokens P s =
     (length (filter P (pg_tokens s)), s\<lparr>pg_tokens := filter (\<lambda>t. \<not> P t) (pg_tokens s)\<rparr>)"

definition pg_token_delete :: "pg_env \<Rightarrow> uuid \<Rightarrow> (pg, unit) port" where
  "pg_token_delete E i = pg_exec E [] (\<lambda>s. Inr ((), snd (delete_tokens (\<lambda>t. rt_id t = i) s)))"

definition pg_delete_family :: "pg_env \<Rightarrow> uuid \<Rightarrow> (pg, unit) port" where
  "pg_delete_family E f = pg_exec E [] (\<lambda>s. Inr ((), snd (delete_tokens (\<lambda>t. rt_family_id t = f) s)))"

definition pg_token_delete_all :: "pg_env \<Rightarrow> uuid \<Rightarrow> (pg, nat) port" where
  "pg_token_delete_all E u = pg_exec E [] (\<lambda>s. Inr (delete_tokens (\<lambda>t. rt_user_id t = u) s))"

definition pg_delete_expired :: "pg_env \<Rightarrow> time \<Rightarrow> (pg, nat) port" where
  "pg_delete_expired E now =
     pg_exec E [] (\<lambda>s. Inr (delete_tokens (\<lambda>t. rt_expires_at t \<le> now_utc now) s))"

definition pg_token_repo :: "pg_env \<Rightarrow> pg token_repo" where
  "pg_token_repo E =
     \<lparr>tr_insert = pg_token_insert E, tr_find_by_hash = pg_find_by_hash E,
      tr_mark_consumed = pg_mark_consumed E, tr_delete = pg_token_delete E,
      tr_delete_family = pg_delete_family E, tr_delete_all_for_user = pg_token_delete_all E,
      tr_delete_expired = pg_delete_expired E\<rparr>"

section \<open>Jobs and results\<close>

definition job_row_of :: "research_job \<Rightarrow> job_row" where
  "job_row_of j =
     \<lparr>jb_id = job_id j, jb_user_id = job_user_id j, jb_keyword = job_keyword j,
      jb_mode = mode_to_str (job_mode j), jb_status = status_to_str (job_status j),
      jb_error = job_error j, jb_question = job_question j, jb_answer = job_answer j,
      jb_recurring_search_id = job_recurring_search_id j, jb_usage = job_usage_default,
      jb_created_at = now_utc (job_created_at j),
      jb_completed_at = map_option now_utc (job_completed_at j)\<rparr>"

definition pg_job_insert :: "pg_env \<Rightarrow> research_job \<Rightarrow> (pg, unit) port" where
  "pg_job_insert E j =
     pg_exec E (job_keyword j # opt_text (job_error j) @ opt_text (job_question j) @ opt_text (job_answer j)) (\<lambda>s.
     if job_id j \<in> jobs_of s then Inl (UniqueViolation ''research_jobs_pkey'')
     else if job_user_id j \<notin> users_of s then Inl (ForeignKeyViolation ''research_jobs_user_id_fkey'')
     else if case job_recurring_search_id j of None \<Rightarrow> False | Some x \<Rightarrow> x \<notin> searches_of s
     then Inl (ForeignKeyViolation ''research_jobs_recurring_search_id_fkey'')
     else Inr ((), s\<lparr>pg_jobs := pg_jobs s @ [job_row_of j]\<rparr>))"

definition job_row_update :: "research_job \<Rightarrow> job_row \<Rightarrow> job_row" where
  "job_row_update j row =
     row\<lparr>jb_status := status_to_str (job_status j), jb_error := job_error j, jb_question := job_question j,
         jb_answer := job_answer j, jb_completed_at := map_option now_utc (job_completed_at j)\<rparr>"

definition pg_job_update :: "pg_env \<Rightarrow> research_job \<Rightarrow> (pg, unit) port" where
  "pg_job_update E j =
     pg_exec E (opt_text (job_error j) @ opt_text (job_question j) @ opt_text (job_answer j)) (\<lambda>s.
     Inr ((), s\<lparr>pg_jobs := update_row jb_id (job_id j) (job_row_update j) (pg_jobs s)\<rparr>))"

definition pg_job_find :: "pg_env \<Rightarrow> uuid \<Rightarrow> (pg, research_job option) port" where
  "pg_job_find E i =
     io_bind (pg_query E [] (\<lambda>s. find (\<lambda>r. jb_id r = i) (pg_jobs s))) (\<lambda>row.
     io_of (case row of
              None \<Rightarrow> Inr None
            | Some r \<Rightarrow> (case job_from_row r of Inl e \<Rightarrow> Inl e | Inr j \<Rightarrow> Inr (Some j))))"

definition pg_job_list :: "pg_env \<Rightarrow> uuid \<Rightarrow> (pg, research_job list) port" where
  "pg_job_list E u =
     io_bind (pg_query E [] (\<lambda>s. sort_key (\<lambda>r. Reverse (jb_created_at r))
                (scan E s (filter (\<lambda>r. jb_user_id r = u) (pg_jobs s))))) (\<lambda>rows.
     io_of (collect_rows job_from_row rows))"

definition pg_count_created_since :: "pg_env \<Rightarrow> uuid \<Rightarrow> time \<Rightarrow> (pg, nat) port" where
  "pg_count_created_since E u since = pg_query E [] (\<lambda>s.
     length (filter (\<lambda>r. jb_user_id r = u \<and> now_utc since \<le> jb_created_at r) (pg_jobs s)))"

definition pg_list_unfinished :: "pg_env \<Rightarrow> time \<Rightarrow> (pg, research_job list) port" where
  "pg_list_unfinished E cutoff =
     io_bind (pg_query E [] (\<lambda>s. scan E s (filter (\<lambda>r.
                (jb_status r = lit ''pending'' \<or> jb_status r = lit ''running'') \<and>
                jb_created_at r < now_utc cutoff) (pg_jobs s)))) (\<lambda>rows.
     io_of (collect_rows job_from_row rows))"

definition delete_jobs :: "(job_row \<Rightarrow> bool) \<Rightarrow> pg \<Rightarrow> nat \<times> pg" where
  "delete_jobs P s = (length (filter P (pg_jobs s)), drop_jobs_where P s)"

definition pg_delete_finished :: "pg_env \<Rightarrow> time \<Rightarrow> (pg, nat) port" where
  "pg_delete_finished E cutoff = pg_exec E [] (\<lambda>s. Inr (delete_jobs (\<lambda>r.
     jb_recurring_search_id r = None \<and>
     (jb_status r = lit ''completed'' \<or> jb_status r = lit ''failed'') \<and>
     jb_created_at r < now_utc cutoff) s))"

definition pg_job_delete_all :: "pg_env \<Rightarrow> uuid \<Rightarrow> (pg, nat) port" where
  "pg_job_delete_all E u = pg_exec E [] (\<lambda>s. Inr (delete_jobs (\<lambda>r. jb_user_id r = u) s))"

definition result_row_of :: "uuid \<Rightarrow> json \<Rightarrow> search_result \<Rightarrow> result_row" where
  "result_row_of i raw r =
     \<lparr>sw_job_id = i, sw_title = sr_title r, sw_url = sr_url r, sw_snippet = sr_snippet r,
      sw_published_at = map_option now_utc (sr_published_at r),
      sw_date_confidence = confidence_to_str (sr_date_confidence r),
      sw_event_type = event_type_to_str (sr_event_type r), sw_summary = sr_summary r,
      sw_is_new = sr_is_new r, sw_raw = raw\<rparr>"

definition insert_result :: "pg_env \<Rightarrow> uuid \<Rightarrow> search_result \<Rightarrow> (pg, unit) port" where
  "insert_result E i r =
     pg_exec E ([sr_title r, sr_url r, sr_snippet r] @ opt_text (sr_summary r)) (\<lambda>s.
     case pe_jsonb E (sr_raw r) of
       None \<Rightarrow> Inl InvalidJson
     | Some raw \<Rightarrow>
         if i \<notin> jobs_of s then Inl (ForeignKeyViolation ''search_results_job_id_fkey'')
         else Inr ((), s\<lparr>pg_results := pg_results s @ [result_row_of i raw r]\<rparr>))"

fun insert_results :: "pg_env \<Rightarrow> uuid \<Rightarrow> search_result list \<Rightarrow> (pg, unit) port" where
  "insert_results E i [] = io_ret ()"
| "insert_results E i (r # rs) = io_bind (insert_result E i r) (\<lambda>_. insert_results E i rs)"

definition pg_store_results :: "pg_env \<Rightarrow> uuid \<Rightarrow> search_result list \<Rightarrow> (pg, unit) port" where
  "pg_store_results E i results = pg_transaction (
     io_bind (pg_begin E) (\<lambda>_.
     io_bind (pg_exec E [] (\<lambda>s. Inr ((), s\<lparr>pg_results := filter (\<lambda>r. sw_job_id r \<noteq> i) (pg_results s)\<rparr>))) (\<lambda>_.
     io_bind (insert_results E i results) (\<lambda>_.
     pg_commit E))))"

definition pg_results_for :: "pg_env \<Rightarrow> uuid \<Rightarrow> (pg, search_result list) port" where
  "pg_results_for E i =
     io_bind (pg_query E [] (\<lambda>s. sort_key (\<lambda>r. Reverse (sw_published_at r))
                (scan E s (filter (\<lambda>r. sw_job_id r = i) (pg_results s))))) (\<lambda>rows.
     io_of (collect_rows result_from_row rows))"

definition pg_append_step :: "pg_env \<Rightarrow> uuid \<Rightarrow> agent_step \<Rightarrow> (pg, unit) port" where
  "pg_append_step E i st = pg_exec E [step_kind st, step_detail st, step_reason st] (\<lambda>s.
     let row = \<lparr>sp_job_id = i, sp_step = st\<rparr> in
     if step_key row \<in> step_key ` set (pg_steps s) then Inr ((), s)
     else if i \<notin> jobs_of s then Inl (ForeignKeyViolation ''agent_steps_job_id_fkey'')
     else Inr ((), s\<lparr>pg_steps := pg_steps s @ [row]\<rparr>))"

definition pg_steps_for :: "pg_env \<Rightarrow> uuid \<Rightarrow> (pg, agent_step list) port" where
  "pg_steps_for E i = pg_query E [] (\<lambda>s.
     map sp_step (sort_key (\<lambda>r. step_seq (sp_step r)) (scan E s (filter (\<lambda>r. sp_job_id r = i) (pg_steps s)))))"

definition pg_clear_steps :: "pg_env \<Rightarrow> uuid \<Rightarrow> (pg, unit) port" where
  "pg_clear_steps E i = pg_exec E [] (\<lambda>s.
     Inr ((), s\<lparr>pg_steps := filter (\<lambda>r. sp_job_id r \<noteq> i) (pg_steps s)\<rparr>))"

text \<open>\<open>INTEGER\<close> and \<open>BIGINT\<close> additions that leave the range are errors, not wrap-around.\<close>

definition adds_up :: "'a::len word \<Rightarrow> 'a word \<Rightarrow> bool" where
  "adds_up a b \<longleftrightarrow> sint (a + b) = sint a + sint b"

definition usage_adds_up :: "job_usage \<Rightarrow> job_usage \<Rightarrow> bool" where
  "usage_adds_up u v \<longleftrightarrow>
     adds_up (llm_calls u) (llm_calls v) \<and> adds_up (llm_input_tokens u) (llm_input_tokens v) \<and>
     adds_up (llm_output_tokens u) (llm_output_tokens v) \<and> adds_up (search_calls u) (search_calls v)"

definition pg_add_usage :: "pg_env \<Rightarrow> (f64 \<Rightarrow> f64 \<Rightarrow> f64) \<Rightarrow> uuid \<Rightarrow> job_usage \<Rightarrow> (pg, unit) port" where
  "pg_add_usage E fadd i u = pg_exec E [] (\<lambda>s.
     case find (\<lambda>r. jb_id r = i) (pg_jobs s) of
       None \<Rightarrow> Inr ((), s)
     | Some row \<Rightarrow>
         if \<not> usage_adds_up (jb_usage row) u then Inl IntegerOutOfRange
         else if \<not> pe_double_range E (cost_usd (jb_usage row)) (cost_usd u) then Inl DoubleOutOfRange
         else Inr ((), s\<lparr>pg_jobs :=
                update_row jb_id i (\<lambda>r. r\<lparr>jb_usage := job_usage_add fadd (jb_usage r) u\<rparr>) (pg_jobs s)\<rparr>))"

text \<open>
  \<open>DISTINCT ON (r.url)\<close> under \<open>ORDER BY r.url\<close>: one row per URL, in the order of the collation,
  which falls back on the bytes.
\<close>

definition collated :: "pg_env \<Rightarrow> rstr list \<Rightarrow> rstr list" where
  "collated E urls = sort_key (pe_collate E) (sort_key utf8 urls)"

definition pg_recent_urls :: "pg_env \<Rightarrow> uuid \<Rightarrow> 32 word \<Rightarrow> (pg, rstr list) port" where
  "pg_recent_urls E rs limit = pg_query E [] (\<lambda>s.
     let runs = jb_id ` set (filter (\<lambda>j. jb_recurring_search_id j = Some rs) (pg_jobs s));
         urls = map sw_url (filter (\<lambda>r. sw_job_id r \<in> runs) (pg_results s)) in
     take (unat limit) (collated E (remdups urls)))"

definition pg_job_repo :: "pg_env \<Rightarrow> (f64 \<Rightarrow> f64 \<Rightarrow> f64) \<Rightarrow> pg job_repo" where
  "pg_job_repo E fadd =
     \<lparr>jr_insert = pg_job_insert E, jr_update = pg_job_update E, jr_find = pg_job_find E,
      jr_list_for_user = pg_job_list E, jr_count_created_since = pg_count_created_since E,
      jr_list_unfinished_older_than = pg_list_unfinished E,
      jr_delete_finished_before = pg_delete_finished E, jr_delete_all_for_user = pg_job_delete_all E,
      jr_store_results = pg_store_results E, jr_results_for = pg_results_for E,
      jr_append_step = pg_append_step E, jr_steps_for = pg_steps_for E,
      jr_clear_steps = pg_clear_steps E, jr_add_usage = pg_add_usage E fadd,
      jr_recent_urls_for_recurring = pg_recent_urls E\<rparr>"

section \<open>Recurring searches\<close>

definition search_row_of :: "recurring_search \<Rightarrow> search_row" where
  "search_row_of x =
     \<lparr>sx_id = rs_id x, sx_user_id = rs_user_id x, sx_keyword = rs_keyword x,
      sx_mode = mode_to_str (rs_mode x), sx_interval_minutes = rs_interval_minutes x,
      sx_webhook_url = rs_webhook_url x, sx_created_at = now_utc (rs_created_at x),
      sx_last_run_at = map_option now_utc (rs_last_run_at x)\<rparr>"

definition pg_search_insert :: "pg_env \<Rightarrow> recurring_search \<Rightarrow> (pg, unit) port" where
  "pg_search_insert E x = pg_exec E (rs_keyword x # opt_text (rs_webhook_url x)) (\<lambda>s.
     if \<not> interval_ok (rs_interval_minutes x)
     then Inl (CheckViolation ''recurring_searches_interval_minutes_check'')
     else if rs_id x \<in> searches_of s then Inl (UniqueViolation ''recurring_searches_pkey'')
     else if rs_user_id x \<notin> users_of s then Inl (ForeignKeyViolation ''recurring_searches_user_id_fkey'')
     else Inr ((), s\<lparr>pg_searches := pg_searches s @ [search_row_of x]\<rparr>))"

definition pg_search_find :: "pg_env \<Rightarrow> uuid \<Rightarrow> (pg, recurring_search option) port" where
  "pg_search_find E i = pg_query E [] (\<lambda>s.
     map_option recurring_from_row (find (\<lambda>r. sx_id r = i) (pg_searches s)))"

definition pg_search_list :: "pg_env \<Rightarrow> uuid \<Rightarrow> (pg, recurring_search list) port" where
  "pg_search_list E u = pg_query E [] (\<lambda>s.
     map recurring_from_row (sort_key (\<lambda>r. Reverse (sx_created_at r))
       (scan E s (filter (\<lambda>r. sx_user_id r = u) (pg_searches s)))))"

definition delete_searches :: "(search_row \<Rightarrow> bool) \<Rightarrow> pg \<Rightarrow> nat \<times> pg" where
  "delete_searches P s = (length (filter P (pg_searches s)), drop_searches_where P s)"

definition pg_search_delete :: "pg_env \<Rightarrow> uuid \<Rightarrow> uuid \<Rightarrow> (pg, bool) port" where
  "pg_search_delete E u i = pg_exec E [] (\<lambda>s.
     case delete_searches (\<lambda>r. sx_id r = i \<and> sx_user_id r = u) s of (affected, s') \<Rightarrow> Inr (0 < affected, s'))"

definition pg_search_delete_all :: "pg_env \<Rightarrow> uuid \<Rightarrow> (pg, nat) port" where
  "pg_search_delete_all E u = pg_exec E [] (\<lambda>s. Inr (delete_searches (\<lambda>r. sx_user_id r = u) s))"

text \<open>The interval is an \<open>INTEGER\<close> for \<open>make_interval\<close>.\<close>

definition pg_list_due :: "pg_env \<Rightarrow> time \<Rightarrow> (pg, recurring_search list) port" where
  "pg_list_due E now = pg_query E [] (\<lambda>s.
     map recurring_from_row (scan E s (filter (\<lambda>r.
       case sx_last_run_at r of
         None \<Rightarrow> True
       | Some prev \<Rightarrow> prev + minutes (sint (sx_interval_minutes r)) \<le> now_utc now) (pg_searches s))))"

definition pg_mark_ran :: "pg_env \<Rightarrow> uuid \<Rightarrow> time \<Rightarrow> (pg, unit) port" where
  "pg_mark_ran E i at = pg_exec E [] (\<lambda>s.
     Inr ((), s\<lparr>pg_searches :=
       update_row sx_id i (\<lambda>r. r\<lparr>sx_last_run_at := Some (now_utc at)\<rparr>) (pg_searches s)\<rparr>))"

definition pg_search_repo :: "pg_env \<Rightarrow> pg recurring_repo" where
  "pg_search_repo E =
     \<lparr>rr_insert = pg_search_insert E, rr_find = pg_search_find E, rr_list_for_user = pg_search_list E,
      rr_delete = pg_search_delete E, rr_delete_all_for_user = pg_search_delete_all E,
      rr_list_due = pg_list_due E, rr_mark_ran = pg_mark_ran E\<rparr>"

section \<open>Security audit and readiness\<close>

definition bound_event :: "security_event \<Rightarrow> security_event" where
  "bound_event e = e\<lparr>se_created_at := now_utc (se_created_at e)\<rparr>"

definition pg_record :: "pg_env \<Rightarrow> security_event \<Rightarrow> (pg, unit) port" where
  "pg_record E e = pg_exec E (se_kind e # opt_text (se_client_ip e) @ [se_detail e]) (\<lambda>s.
     if se_id e \<in> se_id ` set (pg_events s) then Inl (UniqueViolation ''security_events_pkey'')
     else if \<not> event_ref_ok (users_of s) e then Inl (ForeignKeyViolation ''security_events_user_id_fkey'')
     else Inr ((), s\<lparr>pg_events := pg_events s @ [bound_event e]\<rparr>))"

definition pg_list_recent :: "pg_env \<Rightarrow> int \<Rightarrow> (pg, security_event list) port" where
  "pg_list_recent E limit = pg_query E [] (\<lambda>s.
     take (nat (max limit 0)) (sort_key (\<lambda>e. Reverse (se_created_at e)) (scan E s (pg_events s))))"

definition pg_delete_before :: "pg_env \<Rightarrow> time \<Rightarrow> (pg, nat) port" where
  "pg_delete_before E cutoff = pg_exec E [] (\<lambda>s.
     Inr (length (filter (\<lambda>e. se_created_at e < now_utc cutoff) (pg_events s)),
          s\<lparr>pg_events := filter (\<lambda>e. \<not> se_created_at e < now_utc cutoff) (pg_events s)\<rparr>))"

definition pg_audit :: "pg_env \<Rightarrow> pg audit_port" where
  "pg_audit E =
     \<lparr>au_record = pg_record E, au_list_recent = pg_list_recent E, au_delete_before = pg_delete_before E\<rparr>"

definition pg_ready :: "pg_env \<Rightarrow> pg \<Rightarrow> bool" where
  "pg_ready E s = (case pg_query E [] (\<lambda>_. 1 :: nat) s of (Inl _, _) \<Rightarrow> False | (Inr _, _) \<Rightarrow> True)"

section \<open>Notification channels\<close>

definition channel_row_of :: "notification_channel \<Rightarrow> channel_row" where
  "channel_row_of c =
     \<lparr>cw_id = ch_id c, cw_user_id = ch_user_id c, cw_kind = channel_kind_as_str (ch_kind c),
      cw_target = ch_target c, cw_secret = ch_secret c, cw_created_at = now_utc (ch_created_at c)\<rparr>"

definition pg_channel_insert :: "pg_env \<Rightarrow> notification_channel \<Rightarrow> (pg, unit) port" where
  "pg_channel_insert E c = pg_exec E (ch_target c # opt_text (ch_secret c)) (\<lambda>s.
     if ch_id c \<in> cw_id ` set (pg_channels s) then Inl (UniqueViolation ''notification_channels_pkey'')
     else if ch_user_id c \<notin> users_of s then Inl (ForeignKeyViolation ''notification_channels_user_id_fkey'')
     else Inr ((), s\<lparr>pg_channels := pg_channels s @ [channel_row_of c]\<rparr>))"

definition pg_channel_list :: "pg_env \<Rightarrow> uuid \<Rightarrow> (pg, notification_channel list) port" where
  "pg_channel_list E u = pg_query E [] (\<lambda>s.
     map channel_from_row (sort_key cw_created_at (scan E s (filter (\<lambda>r. cw_user_id r = u) (pg_channels s)))))"

definition delete_channels :: "(channel_row \<Rightarrow> bool) \<Rightarrow> pg \<Rightarrow> nat \<times> pg" where
  "delete_channels P s =
     (length (filter P (pg_channels s)), s\<lparr>pg_channels := filter (\<lambda>c. \<not> P c) (pg_channels s)\<rparr>)"

definition pg_channel_delete :: "pg_env \<Rightarrow> uuid \<Rightarrow> uuid \<Rightarrow> (pg, bool) port" where
  "pg_channel_delete E u i = pg_exec E [] (\<lambda>s.
     case delete_channels (\<lambda>r. cw_id r = i \<and> cw_user_id r = u) s of (affected, s') \<Rightarrow> Inr (0 < affected, s'))"

definition pg_channel_delete_all :: "pg_env \<Rightarrow> uuid \<Rightarrow> (pg, nat) port" where
  "pg_channel_delete_all E u = pg_exec E [] (\<lambda>s. Inr (delete_channels (\<lambda>r. cw_user_id r = u) s))"

definition pg_channel_repo :: "pg_env \<Rightarrow> pg channel_repo" where
  "pg_channel_repo E =
     \<lparr>cr_insert = pg_channel_insert E, cr_list_for_user = pg_channel_list E,
      cr_delete = pg_channel_delete E, cr_delete_all_for_user = pg_channel_delete_all E\<rparr>"

section \<open>Documents\<close>

definition document_row_of :: "document \<Rightarrow> document_row" where
  "document_row_of d =
     \<lparr>dw_id = doc_id d, dw_user_id = doc_user_id d, dw_name = doc_name d,
      dw_status = document_status_as_str (doc_status d), dw_error = doc_error d,
      dw_created_at = now_utc (doc_created_at d)\<rparr>"

definition pg_document_insert :: "pg_env \<Rightarrow> document \<Rightarrow> (pg, unit) port" where
  "pg_document_insert E d = pg_exec E (doc_name d # opt_text (doc_error d)) (\<lambda>s.
     if doc_id d \<in> documents_of s then Inl (UniqueViolation ''documents_pkey'')
     else if doc_user_id d \<notin> users_of s then Inl (ForeignKeyViolation ''documents_user_id_fkey'')
     else Inr ((), s\<lparr>pg_documents := pg_documents s @ [document_row_of d]\<rparr>))"

definition pg_document_list :: "pg_env \<Rightarrow> uuid \<Rightarrow> (pg, document list) port" where
  "pg_document_list E u = pg_query E [] (\<lambda>s.
     map document_from_row (sort_key (\<lambda>r. Reverse (dw_created_at r))
       (scan E s (filter (\<lambda>r. dw_user_id r = u) (pg_documents s)))))"

definition pg_document_find :: "pg_env \<Rightarrow> uuid \<Rightarrow> (pg, document option) port" where
  "pg_document_find E i = pg_query E [] (\<lambda>s.
     map_option document_from_row (find (\<lambda>r. dw_id r = i) (pg_documents s)))"

definition delete_documents :: "(document_row \<Rightarrow> bool) \<Rightarrow> pg \<Rightarrow> nat \<times> pg" where
  "delete_documents P s = (length (filter P (pg_documents s)), drop_documents_where P s)"

definition pg_document_delete :: "pg_env \<Rightarrow> uuid \<Rightarrow> uuid \<Rightarrow> (pg, bool) port" where
  "pg_document_delete E u i = pg_exec E [] (\<lambda>s.
     case delete_documents (\<lambda>r. dw_id r = i \<and> dw_user_id r = u) s of (affected, s') \<Rightarrow> Inr (0 < affected, s'))"

definition EMBEDDING_DIMENSION :: nat where "EMBEDDING_DIMENSION = 768"

definition chunk_row_of :: "uuid \<Rightarrow> document \<Rightarrow> new_chunk \<Rightarrow> chunk_row" where
  "chunk_row_of i d n =
     \<lparr>kw_id = i, kw_document_id = doc_id d, kw_user_id = doc_user_id d, kw_seq = nc_seq n,
      kw_content = nc_content n, kw_embedding = nc_embedding n\<rparr>"

definition insert_chunk :: "pg_env \<Rightarrow> document \<Rightarrow> new_chunk \<Rightarrow> (pg, unit) port" where
  "insert_chunk E d n = pg_exec E [nc_content n] (\<lambda>s.
     let i = pe_uuid E (pg_clock s) in
     if length (nc_embedding n) \<noteq> EMBEDDING_DIMENSION \<or> \<not> pe_vector E (nc_embedding n) then Inl InvalidVector
     else if i \<in> kw_id ` set (pg_chunks s) then Inl (UniqueViolation ''document_chunks_pkey'')
     else if doc_id d \<notin> documents_of s then Inl (ForeignKeyViolation ''document_chunks_document_id_fkey'')
     else if doc_user_id d \<notin> users_of s then Inl (ForeignKeyViolation ''document_chunks_user_id_fkey'')
     else Inr ((), s\<lparr>pg_chunks := pg_chunks s @ [chunk_row_of i d n]\<rparr>))"

fun insert_chunks :: "pg_env \<Rightarrow> document \<Rightarrow> new_chunk list \<Rightarrow> (pg, unit) port" where
  "insert_chunks E d [] = io_ret ()"
| "insert_chunks E d (n # ns) = io_bind (insert_chunk E d n) (\<lambda>_. insert_chunks E d ns)"

definition row_ready :: "document_row \<Rightarrow> document_row" where
  "row_ready r = r\<lparr>dw_status := lit ''ready'', dw_error := None\<rparr>"

definition pg_store_chunks :: "pg_env \<Rightarrow> document \<Rightarrow> new_chunk list \<Rightarrow> (pg, unit) port" where
  "pg_store_chunks E d chunks = pg_transaction (
     io_bind (pg_begin E) (\<lambda>_.
     io_bind (pg_exec E [] (\<lambda>s. Inr ((), s\<lparr>pg_chunks := filter (\<lambda>c. kw_document_id c \<noteq> doc_id d) (pg_chunks s)\<rparr>))) (\<lambda>_.
     io_bind (insert_chunks E d chunks) (\<lambda>_.
     io_bind (pg_exec E [] (\<lambda>s. Inr ((), s\<lparr>pg_documents := update_row dw_id (doc_id d) row_ready (pg_documents s)\<rparr>))) (\<lambda>_.
     pg_commit E)))))"

definition row_failed :: "rstr \<Rightarrow> document_row \<Rightarrow> document_row" where
  "row_failed err r = r\<lparr>dw_status := lit ''failed'', dw_error := Some err\<rparr>"

definition pg_document_mark_failed :: "pg_env \<Rightarrow> uuid \<Rightarrow> rstr \<Rightarrow> (pg, unit) port" where
  "pg_document_mark_failed E i err = pg_exec E [err] (\<lambda>s.
     Inr ((), s\<lparr>pg_documents := update_row dw_id i (row_failed err) (pg_documents s)\<rparr>))"

text \<open>
  The index is scanned in the order of distance, approximately and over the chunks of all users;
  the filter on the user and the join come after it.
\<close>

definition pg_retrieve :: "pg_env \<Rightarrow> uuid \<Rightarrow> f32 list \<Rightarrow> int \<Rightarrow> (pg, retrieved_chunk list) port" where
  "pg_retrieve E u embedding k = pg_exec E [] (\<lambda>s.
     if \<not> pe_vector E embedding then Inl InvalidVector
     else case pe_nearest E (pg_clock s) embedding (map kw_embedding (pg_chunks s)) of
         None \<Rightarrow> Inl InvalidVector
       | Some visited \<Rightarrow>
           let rows = map (\<lambda>i. pg_chunks s ! i) (filter (\<lambda>i. i < length (pg_chunks s)) (remdups visited));
               mine = filter (\<lambda>c. kw_user_id c = u \<and> kw_document_id c \<in> documents_of s) rows in
           Inr (map (\<lambda>c. retrieved_of (chunk_of (pg_documents s) c)) (take (nat (max k 0)) mine), s))"

definition pg_document_delete_all :: "pg_env \<Rightarrow> uuid \<Rightarrow> (pg, nat) port" where
  "pg_document_delete_all E u = pg_exec E [] (\<lambda>s. Inr (delete_documents (\<lambda>r. dw_user_id r = u) s))"

definition pg_document_repo :: "pg_env \<Rightarrow> pg document_repo" where
  "pg_document_repo E =
     \<lparr>dr_insert = pg_document_insert E, dr_list_for_user = pg_document_list E,
      dr_find = pg_document_find E, dr_delete = pg_document_delete E,
      dr_store_chunks = pg_store_chunks E, dr_mark_failed = pg_document_mark_failed E,
      dr_retrieve = pg_retrieve E, dr_delete_all_for_user = pg_document_delete_all E\<rparr>"

end
