(* ===== verification/Postgres_Ports.thy ===== *)
theory Postgres_Ports
  imports Postgres
begin

text \<open>
  The PostgreSQL repositories implement the ports with the precision of microseconds: the same
  contracts as the in-memory repositories, so that what is proved of the use cases from the
  contracts holds in production too.
\<close>

section \<open>What is bound and what is kept\<close>

lemma bound_exact:
  "exact_user now_utc u \<Longrightarrow> bound_user u = u" "exact_token now_utc t \<Longrightarrow> bound_token t = t"
  "exact_event now_utc e \<Longrightarrow> bound_event e = e"
  by (simp_all add: exact_user_def exact_token_def exact_event_def bound_user_def bound_token_def bound_event_def)

lemma bound_fields [simp]:
  "user_id (bound_user u) = user_id u" "user_email (bound_user u) = user_email u"
  "rt_id (bound_token t) = rt_id t" "rt_token_hash (bound_token t) = rt_token_hash t"
  "rt_user_id (bound_token t) = rt_user_id t" "rt_family_id (bound_token t) = rt_family_id t"
  "event_ref_ok users (bound_event e) = event_ref_ok users e"
  by (simp_all add: bound_user_def bound_token_def bound_event_def event_ref_ok_def)

lemma table_self: "find (\<lambda>r. key r = i) rows = table key (\<lambda>r. r) rows i"
  using table_find [of "\<lambda>r. r" key i rows] by (simp add: option.map_ident)

lemma ran_self: "distinct (map key rows) \<Longrightarrow> ran (table key (\<lambda>r. r) rows) = set rows"
  by (simp add: ran_table)

text \<open>The tables of the abstract world, and what writing one table does to it.\<close>

lemma pg_tables [simp]:
  "aw_users (pg_abs s) = table user_id (\<lambda>u. u) (pg_users s)"
  "aw_channels (pg_abs s) = table cw_id channel_from_row (pg_channels s)"
  "aw_tokens (pg_abs s) = table rt_id (\<lambda>t. t) (pg_tokens s)"
  "aw_jobs (pg_abs s) = table jb_id job_of (pg_jobs s)"
  "aw_recurring (pg_abs s) = table sx_id recurring_from_row (pg_searches s)"
  "aw_events (pg_abs s) = pg_events s"
  "aw_documents (pg_abs s) = table dw_id document_from_row (pg_documents s)"
  "aw_calls (pg_abs s) = pg_calls s"
  by (simp_all add: pg_abs_def)

lemma pg_abs_update:
  "pg_abs (s\<lparr>pg_users := us\<rparr>) = (pg_abs s)\<lparr>aw_users := table user_id (\<lambda>u. u) us\<rparr>"
  "pg_abs (s\<lparr>pg_tokens := ts\<rparr>) = (pg_abs s)\<lparr>aw_tokens := table rt_id (\<lambda>t. t) ts\<rparr>"
  "pg_abs (s\<lparr>pg_jobs := js\<rparr>) = (pg_abs s)\<lparr>aw_jobs := table jb_id job_of js\<rparr>"
  "pg_abs (s\<lparr>pg_channels := cs\<rparr>) = (pg_abs s)\<lparr>aw_channels := table cw_id channel_from_row cs\<rparr>"
  "pg_abs (s\<lparr>pg_searches := xs\<rparr>) = (pg_abs s)\<lparr>aw_recurring := table sx_id recurring_from_row xs\<rparr>"
  "pg_abs (s\<lparr>pg_events := es\<rparr>) = (pg_abs s)\<lparr>aw_events := es\<rparr>"
  "pg_abs (s\<lparr>pg_results := rs\<rparr>) = (pg_abs s)\<lparr>aw_results := (\<lambda>i. map result_of (filter (\<lambda>r. sw_job_id r = i) rs))\<rparr>"
  "pg_abs (s\<lparr>pg_steps := ss\<rparr>) = (pg_abs s)\<lparr>aw_steps :=
     (\<lambda>i. sort_key step_seq (map sp_step (filter (\<lambda>r. sp_job_id r = i) ss)))\<rparr>"
  by (simp_all add: pg_abs_def)

lemma pg_abs_same [simp]:
  "(pg_abs s)\<lparr>aw_channels := table cw_id channel_from_row (pg_channels s)\<rparr> = pg_abs s"
  by (simp add: pg_abs_def)

text \<open>A row that names only rows that are there may be added.\<close>

lemma wf_add:
  assumes "pg_wf s"
  shows "user_id u \<notin> users_of s \<Longrightarrow> user_email u \<notin> user_email ` set (pg_users s) \<Longrightarrow>
      pg_wf (s\<lparr>pg_users := pg_users s @ [u]\<rparr>)"
    "rt_id t \<notin> rt_id ` set (pg_tokens s) \<Longrightarrow> rt_token_hash t \<notin> rt_token_hash ` set (pg_tokens s) \<Longrightarrow>
      rt_user_id t \<in> users_of s \<Longrightarrow> pg_wf (s\<lparr>pg_tokens := pg_tokens s @ [t]\<rparr>)"
    "jb_id j \<notin> jobs_of s \<Longrightarrow> job_refs_ok (users_of s) (searches_of s) [j] \<Longrightarrow>
      pg_wf (s\<lparr>pg_jobs := pg_jobs s @ [j]\<rparr>)"
    "sx_id x \<notin> searches_of s \<Longrightarrow> sx_user_id x \<in> users_of s \<Longrightarrow> interval_ok (sx_interval_minutes x) \<Longrightarrow>
      pg_wf (s\<lparr>pg_searches := pg_searches s @ [x]\<rparr>)"
    "event_ref_ok (users_of s) e \<Longrightarrow> pg_wf (s\<lparr>pg_events := pg_events s @ [e]\<rparr>)"
    "cw_id c \<notin> cw_id ` set (pg_channels s) \<Longrightarrow> cw_user_id c \<in> users_of s \<Longrightarrow>
      channel_kind_parse (cw_kind c) \<noteq> None \<Longrightarrow> pg_wf (s\<lparr>pg_channels := pg_channels s @ [c]\<rparr>)"
    "dw_id d \<notin> documents_of s \<Longrightarrow> dw_user_id d \<in> users_of s \<Longrightarrow>
      pg_wf (s\<lparr>pg_documents := pg_documents s @ [d]\<rparr>)"
  using assms unfolding pg_wf_def job_refs_ok_def
  by (auto simp: id_sets event_ref_ok_def split: option.splits)

text \<open>Deleting tokens, channels, results, steps or events leaves no dangling reference.\<close>

lemma wf_delete:
  assumes "pg_wf s"
  shows "pg_wf (s\<lparr>pg_tokens := filter P (pg_tokens s)\<rparr>)" "pg_wf (s\<lparr>pg_channels := filter Q (pg_channels s)\<rparr>)"
    "pg_wf (s\<lparr>pg_results := filter R (pg_results s)\<rparr>)" "pg_wf (s\<lparr>pg_steps := filter S (pg_steps s)\<rparr>)"
    "pg_wf (s\<lparr>pg_events := filter T (pg_events s)\<rparr>)" "pg_wf (s\<lparr>pg_chunks := filter V (pg_chunks s)\<rparr>)"
  using assms unfolding pg_wf_def by (simp_all add: id_sets distinct_filter_map)

lemma update_row_same: "(\<And>r. f (g r) = f r) \<Longrightarrow> map f (update_row key i g rows) = map f rows"
  by (simp add: update_row_def)

lemma update_row_image: "(\<And>r. f (g r) = f r) \<Longrightarrow> f ` set (update_row key i g rows) = f ` set rows"
  by (metis list.set_map update_row_same)

lemma update_row_all:
  "(\<And>r. P r \<Longrightarrow> P (g r)) \<Longrightarrow> \<forall>r \<in> set rows. P r \<Longrightarrow> \<forall>r \<in> set (update_row key i g rows). P r"
  by (auto simp: update_row_def)

lemma table_filter_self:
  "distinct (map key rows) \<Longrightarrow> table key (\<lambda>r. r) (filter P rows) = map_keep (\<lambda>_. P) (table key (\<lambda>r. r) rows)"
  by (rule table_filter) simp_all

lemma table_count_self:
  "distinct (map key rows) \<Longrightarrow> length (filter P rows) = card {v \<in> ran (table key (\<lambda>r. r) rows). P v}"
  by (rule table_count) simp_all

section \<open>Users and tokens\<close>

lemmas pg_user_defs = pg_user_insert_def pg_find_by_email_def pg_find_by_id_def pg_user_delete_def

interpretation pg_user: user_port now_utc "pg_user_repo E" pg_wf pg_abs
proof (unfold_locales, unfold pg_user_repo_def user_repo.simps pg_user_defs, goal_cases)
  case (1 s)
  then show ?case by (simp add: table_keyed pg_wfD(1))
next
  case (2 u)
  show ?case
    by (rule pg_exec_spec)
      (auto simp: pg_abs_update users_of_def table_insert pg_wfD(1) bound_exact intro!: wf_add(1) split: if_splits)
next
  case (3 em)
  show ?case
    using ran_self [OF pg_wfD(1)]
    by (intro pg_query_spec)
      (auto simp: find_None_iff find_Some_iff table_row pg_wfD(1) split: option.split)
next
  case (4 i)
  show ?case by (rule pg_query_spec) (simp add: table_self)
next
  case (5 i)
  show ?case
    using drop_user_row_abs by (intro pg_exec_spec) (auto simp: drop_user_row_wf)
qed

lemmas pg_token_defs = pg_token_insert_def pg_find_by_hash_def pg_mark_consumed_def pg_token_delete_def
  pg_delete_family_def pg_token_delete_all_def pg_delete_expired_def delete_tokens_def

lemma wf_tokens:
  assumes "pg_wf s" and "\<And>t. rt_id (f t) = rt_id t" and "\<And>t. rt_token_hash (f t) = rt_token_hash t"
    and "\<And>t. rt_user_id (f t) = rt_user_id t"
  shows "pg_wf (s\<lparr>pg_tokens := update_row rt_id i f (pg_tokens s)\<rparr>)"
proof -
  have "\<forall>t \<in> set (update_row rt_id i f (pg_tokens s)). rt_user_id t \<in> users_of s"
    using assms(4) pg_wfD(5) [OF assms(1)] by (intro update_row_all) simp_all
  then show ?thesis
    using assms by (simp add: pg_wf_def id_sets update_row_same)
qed

lemma wf_consume: "pg_wf s \<Longrightarrow> pg_wf (s\<lparr>pg_tokens := update_row rt_id i (consume at) (pg_tokens s)\<rparr>)"
  by (rule wf_tokens) (simp_all add: consume_def)

lemma table_consume:
  "pg_wf s \<Longrightarrow> table rt_id (\<lambda>t. t) (update_row rt_id i (consume at) (pg_tokens s)) =
     map_modify i (consume at) (table rt_id (\<lambda>t. t) (pg_tokens s))"
  by (rule table_update [OF pg_wfD(3)]) (simp_all add: consume_def)

interpretation pg_token: token_port now_utc "pg_token_repo E" pg_wf pg_abs
proof (unfold_locales, unfold pg_token_repo_def token_repo.simps pg_token_defs, goal_cases)
  case (1 s)
  then show ?case by (simp add: table_keyed pg_wfD(3))
next
  case (2 t)
  show ?case
    by (rule pg_exec_spec)
      (auto simp: pg_abs_update table_insert pg_wfD(3) bound_exact intro!: wf_add(2) split: if_splits)
next
  case (3 h)
  show ?case
    using ran_self [OF pg_wfD(3)]
    by (intro pg_query_spec)
      (auto simp: find_None_iff find_Some_iff table_row pg_wfD(3) split: option.split)
next
  case (4 i at)
  show ?case by (rule pg_exec_spec) (auto simp: pg_abs_update wf_consume table_consume)
next
  case (5 i)
  show ?case by (rule pg_exec_spec) (auto simp: pg_abs_update wf_delete table_delete pg_wfD(3))
next
  case (6 f)
  show ?case
    by (rule pg_exec_spec) (auto simp: pg_abs_update wf_delete pg_wfD(3) table_filter_self)
next
  case (7 u)
  show ?case
    by (rule pg_exec_spec)
      (auto simp: pg_abs_update wf_delete pg_wfD(3) table_filter_self table_count_self [where key = rt_id])
next
  case (8 now)
  show ?case
    by (rule pg_exec_spec)
      (auto simp: pg_abs_update wf_delete pg_wfD(3) is_expired_def table_filter_self
        table_count_self [where key = rt_id])
qed

section \<open>Channels and the audit trail\<close>

lemma channel_row_exact: "exact_channel now_utc c \<Longrightarrow> channel_from_row (channel_row_of c) = c"
  by (simp add: channel_from_row_def channel_row_of_def exact_channel_def)

lemma channel_row_keys [simp]:
  "cw_id (channel_row_of c) = ch_id c" "cw_user_id (channel_row_of c) = ch_user_id c"
  "channel_kind_parse (cw_kind (channel_row_of c)) = Some (ch_kind c)"
  by (simp_all add: channel_row_of_def)

text \<open>Deleting one row of an owner, and all rows of an owner, seen on the table.\<close>

lemma table_delete_owned:
  assumes "distinct (map key rows)" and "\<And>r. r \<in> set rows \<Longrightarrow> owner' (conv r) = owner r"
  shows "filter (\<lambda>r. key r = i \<and> owner r = u) rows \<noteq> [] \<longleftrightarrow>
      (\<exists>v. table key conv rows i = Some v \<and> owner' v = u)"
    and "table key conv (filter (\<lambda>r. key r = i \<longrightarrow> owner r \<noteq> u) rows) =
      (if \<exists>v. table key conv rows i = Some v \<and> owner' v = u
       then (table key conv rows)(i := None) else table key conv rows)"
proof -
  have some: "(\<exists>v. table key conv rows i = Some v \<and> owner' v = u) \<longleftrightarrow>
      (\<exists>r \<in> set rows. key r = i \<and> owner r = u)"
    using assms by (auto simp: table_Some)
  then show "filter (\<lambda>r. key r = i \<and> owner r = u) rows \<noteq> [] \<longleftrightarrow>
      (\<exists>v. table key conv rows i = Some v \<and> owner' v = u)"
    by (auto simp: filter_empty_conv)
  show "table key conv (filter (\<lambda>r. key r = i \<longrightarrow> owner r \<noteq> u) rows) =
      (if \<exists>v. table key conv rows i = Some v \<and> owner' v = u
       then (table key conv rows)(i := None) else table key conv rows)"
  proof (cases "\<exists>r \<in> set rows. key r = i \<and> owner r = u")
    case True
    then have "filter (\<lambda>r. key r = i \<longrightarrow> owner r \<noteq> u) rows = filter (\<lambda>r. key r \<noteq> i) rows"
      using key_inj [OF assms(1)] by (intro filter_cong refl) metis
    with True some show ?thesis by (simp only: table_delete [OF assms(1)] if_True)
  next
    case False
    then have "filter (\<lambda>r. key r = i \<longrightarrow> owner r \<noteq> u) rows = rows"
      by (intro filter_True) blast
    with False some show ?thesis by (simp only: if_False)
  qed
qed

lemmas pg_channel_defs = pg_channel_insert_def pg_channel_list_def pg_channel_delete_def
  pg_channel_delete_all_def delete_channels_def

interpretation pg_channel: channel_port now_utc "pg_channel_repo E" pg_wf pg_abs
proof (unfold_locales, unfold pg_channel_repo_def channel_repo.simps pg_channel_defs, goal_cases)
  case (1 s)
  then show ?case by (simp add: table_keyed pg_wfD(14))
next
  case (2 c)
  show ?case
    by (rule pg_exec_spec)
      (auto simp: pg_abs_update table_insert pg_wfD(14) channel_row_exact intro!: wf_add(6) split: if_splits)
next
  case (3 u)
  show ?case
    by (rule pg_query_spec) (simp add: table_listing [OF pg_wfD(14), where key' = ch_id and P = "\<lambda>r. cw_user_id r = u"])
next
  case (4 u i)
  show ?case
    by (rule pg_exec_spec)
      (auto simp: pg_abs_update wf_delete table_delete_owned [OF pg_wfD(14), where conv = channel_from_row and owner' = ch_user_id])
next
  case (5 u)
  show ?case
    by (rule pg_exec_spec)
      (auto simp: pg_abs_update wf_delete table_filter [OF pg_wfD(14), where Q = "\<lambda>c. ch_user_id c \<noteq> u"]
        table_count [OF pg_wfD(14), where key' = ch_id and Q = "\<lambda>c. ch_user_id c = u"])
qed

lemmas pg_audit_defs = pg_record_def pg_list_recent_def pg_delete_before_def

lemma mset_take: "mset (take n xs) \<subseteq># mset xs"
  by (metis append_take_drop_id mset_append mset_subset_eq_add_left)

interpretation pg_audit: audit_log now_utc "pg_audit E" pg_wf pg_abs
proof (unfold_locales, unfold pg_audit_def audit_port.simps pg_audit_defs, goal_cases)
  case (1 e)
  show ?case
    by (rule pg_exec_spec) (auto simp: pg_abs_update bound_exact intro!: wf_add(5) split: if_splits)
next
  case (2 limit)
  have "mset (take n (sort_key k (scan E s es))) \<subseteq># mset es" for n s es and k :: "security_event \<Rightarrow> time reverse"
    using mset_take [of n "sort_key k (scan E s es)"] by simp
  moreover have "length (scan E s es) = length es" for s and es :: "security_event list"
    by (metis mset_scan size_mset)
  ultimately show ?case by (intro pg_query_spec) (auto simp: max_def)
next
  case (3 cutoff)
  show ?case
    by (rule pg_exec_spec) (auto simp: pg_abs_update wf_delete not_less)
qed

section \<open>Recurring searches\<close>

lemma search_row_exact: "exact_search now_utc x \<Longrightarrow> recurring_from_row (search_row_of x) = x"
  by (simp add: recurring_from_row_def search_row_of_def exact_search_def)

lemma search_row_keys [simp]:
  "sx_id (search_row_of x) = rs_id x" "sx_user_id (search_row_of x) = rs_user_id x"
  "sx_interval_minutes (search_row_of x) = rs_interval_minutes x"
  by (simp_all add: search_row_of_def)

lemma drop_one_search:
  fixes i u :: uuid
  assumes wf: "pg_wf s"
  defines "owned \<equiv> \<exists>x. aw_recurring (pg_abs s) i = Some x \<and> rs_user_id x = u"
    and "s' \<equiv> drop_searches_where (\<lambda>r. sx_id r = i \<and> sx_user_id r = u) s"
  shows "0 < length (filter (\<lambda>r. sx_id r = i \<and> sx_user_id r = u) (pg_searches s)) \<longleftrightarrow> owned"
    and "owned \<Longrightarrow> \<exists>m. pg_abs s' =
           (pg_abs s)\<lparr>aw_recurring := (aw_recurring (pg_abs s))(i := None), aw_jobs := m\<rparr> \<and>
         unlinked {i} (aw_jobs (pg_abs s)) m"
    and "\<not> owned \<Longrightarrow> s' = s"
proof -
  note d = pg_wfD(11) [OF wf]
  let ?P = "\<lambda>r. sx_id r = i \<and> sx_user_id r = u"
  let ?Q = "\<lambda>x. rs_id x = i \<and> rs_user_id x = u"
  have owned: "owned \<longleftrightarrow> (\<exists>r \<in> set (pg_searches s). ?P r)"
    unfolding owned_def by (auto simp: table_Some [OF d])
  then show "0 < length (filter ?P (pg_searches s)) \<longleftrightarrow> owned"
    by (auto simp: filter_empty_conv)
  show "s' = s" if "\<not> owned"
    unfolding s'_def by (rule drop_none) (use that owned in blast)
  show "\<exists>m. pg_abs s' = (pg_abs s)\<lparr>aw_recurring := (aw_recurring (pg_abs s))(i := None), aw_jobs := m\<rparr> \<and>
      unlinked {i} (aw_jobs (pg_abs s)) m" if own: "owned"
  proof -
    have gone: "sx_id ` set (filter ?P (pg_searches s)) = {i}" using own owned by auto
    have keep: "map_keep (\<lambda>_ x. \<not> ?Q x) (aw_recurring (pg_abs s)) = (aw_recurring (pg_abs s))(i := None)"
      using own table_delete_owned(2) [OF d, where conv = recurring_from_row and owner' = rs_user_id and owner = sx_user_id]
        table_filter [OF d, where conv = recurring_from_row and P = "\<lambda>r. \<not> ?P r" and Q = "\<lambda>x. \<not> ?Q x"]
      unfolding owned_def by simp
    obtain m where m: "pg_abs (drop_searches_where ?P s) =
        (pg_abs s)\<lparr>aw_recurring := map_keep (\<lambda>_ x. \<not> ?Q x) (aw_recurring (pg_abs s)), aw_jobs := m\<rparr> \<and>
        unlinked {i} (aw_jobs (pg_abs s)) m"
      using drop_searches_where_abs [OF wf, of ?P ?Q] unfolding gone by auto
    show ?thesis unfolding s'_def by (rule exI [of _ m]) (use m keep in simp)
  qed
qed

lemma drop_searches_of:
  fixes u :: uuid
  assumes wf: "pg_wf s"
  defines "P \<equiv> \<lambda>r. sx_user_id r = u"
  shows "length (filter P (pg_searches s)) = card {x \<in> ran (aw_recurring (pg_abs s)). rs_user_id x = u}"
    and "\<exists>m. pg_abs (drop_searches_where P s) =
           (pg_abs s)\<lparr>aw_recurring := map_keep (\<lambda>_ x. rs_user_id x \<noteq> u) (aw_recurring (pg_abs s)), aw_jobs := m\<rparr> \<and>
         unlinked {i. \<exists>x. aw_recurring (pg_abs s) i = Some x \<and> rs_user_id x = u} (aw_jobs (pg_abs s)) m"
proof -
  note d = pg_wfD(11) [OF wf]
  show "length (filter P (pg_searches s)) = card {x \<in> ran (aw_recurring (pg_abs s)). rs_user_id x = u}"
    unfolding P_def pg_tables by (rule table_count [OF d, where key' = rs_id]) simp_all
  have "sx_id ` set (filter P (pg_searches s)) =
      {i. \<exists>x. aw_recurring (pg_abs s) i = Some x \<and> rs_user_id x = u}"
    unfolding P_def by (auto simp: table_Some [OF d])
  with drop_searches_where_abs [OF wf, of P "\<lambda>x. rs_user_id x = u"]
  show "\<exists>m. pg_abs (drop_searches_where P s) =
      (pg_abs s)\<lparr>aw_recurring := map_keep (\<lambda>_ x. rs_user_id x \<noteq> u) (aw_recurring (pg_abs s)), aw_jobs := m\<rparr> \<and>
      unlinked {i. \<exists>x. aw_recurring (pg_abs s) i = Some x \<and> rs_user_id x = u} (aw_jobs (pg_abs s)) m"
    unfolding P_def by simp
qed

lemma search_ran:
  fixes t :: time
  assumes "pg_wf s"
  defines "f \<equiv> \<lambda>r. r\<lparr>sx_last_run_at := Some t\<rparr>"
  shows "pg_wf (s\<lparr>pg_searches := update_row sx_id i f (pg_searches s)\<rparr>)"
    and "table sx_id recurring_from_row (update_row sx_id i f (pg_searches s)) =
      map_modify i (mark_ran t) (table sx_id recurring_from_row (pg_searches s))"
proof -
  have "\<forall>x \<in> set (update_row sx_id i f (pg_searches s)).
      sx_user_id x \<in> users_of s \<and> interval_ok (sx_interval_minutes x)"
    using pg_wfD(12) [OF assms(1)] by (intro update_row_all) (simp_all add: f_def)
  then show "pg_wf (s\<lparr>pg_searches := update_row sx_id i f (pg_searches s)\<rparr>)"
    using assms(1) by (simp add: pg_wf_def id_sets update_row_same update_row_image f_def)
  show "table sx_id recurring_from_row (update_row sx_id i f (pg_searches s)) =
      map_modify i (mark_ran t) (table sx_id recurring_from_row (pg_searches s))"
    by (rule table_update [OF pg_wfD(11) [OF assms(1)]])
      (simp_all add: f_def recurring_from_row_def mark_ran_def)
qed

lemma interval_ok_unsigned: "interval_ok n \<Longrightarrow> uint n = sint n"
  by (simp add: interval_ok_def uint_sint take_bit_int_eq_self)

lemma is_due_row: "interval_ok (sx_interval_minutes r) \<Longrightarrow> is_due now (recurring_from_row r) \<longleftrightarrow>
  (case sx_last_run_at r of None \<Rightarrow> True | Some prev \<Rightarrow> prev + minutes (sint (sx_interval_minutes r)) \<le> now)"
  by (simp add: is_due_def recurring_from_row_def interval_ok_unsigned split: option.split)

lemma list_due:
  fixes now :: time
  assumes wf: "pg_wf s"
  defines "due \<equiv> filter (\<lambda>r. case sx_last_run_at r of None \<Rightarrow> True
      | Some prev \<Rightarrow> prev + minutes (sint (sx_interval_minutes r)) \<le> now) (pg_searches s)"
  shows "distinct (map sx_id (scan E s due))"
    and "x \<in> set (map recurring_from_row (scan E s due)) \<longleftrightarrow>
      aw_recurring (pg_abs s) (rs_id x) = Some x \<and> is_due now x"
proof -
  have "mset (map sx_id (scan E s due)) = mset (map sx_id due)" by simp
  moreover have "distinct (map sx_id due)"
    unfolding due_def by (rule distinct_filter_map) (rule pg_wfD(11) [OF wf])
  ultimately show "distinct (map sx_id (scan E s due))" by (metis mset_eq_imp_distinct_iff)
  have "due = filter (\<lambda>r. is_due now (recurring_from_row r)) (pg_searches s)"
    unfolding due_def using pg_wfD(12) [OF wf] by (intro filter_cong refl) (simp add: is_due_row)
  then show "x \<in> set (map recurring_from_row (scan E s due)) \<longleftrightarrow>
      aw_recurring (pg_abs s) (rs_id x) = Some x \<and> is_due now x"
    by (auto simp: table_Some [OF pg_wfD(11) [OF wf]])
qed

lemmas pg_search_defs = pg_search_insert_def pg_search_find_def pg_search_list_def pg_search_delete_def
  pg_search_delete_all_def pg_list_due_def pg_mark_ran_def delete_searches_def

interpretation pg_recurring: recurring_port now_utc "pg_search_repo E" pg_wf pg_abs
proof (unfold_locales, unfold pg_search_repo_def recurring_repo.simps pg_search_defs, goal_cases)
  case (1 s)
  then show ?case by (simp add: table_keyed pg_wfD(11))
next
  case (2 x)
  show ?case
    by (rule pg_exec_spec)
      (auto simp: pg_abs_update table_insert pg_wfD(11) search_row_exact searches_of_def
        intro!: wf_add(4) split: if_splits)
next
  case (3 i)
  show ?case by (rule pg_query_spec) (simp add: table_find)
next
  case (4 u)
  show ?case
    by (rule pg_query_spec) (simp add: table_listing [OF pg_wfD(11), where key' = rs_id and P = "\<lambda>r. sx_user_id r = u"])
next
  case (5 u i)
  show ?case
    using drop_one_search by (intro pg_exec_spec) (auto simp: drop_searches_where_wf)
next
  case (6 u)
  show ?case
    using drop_searches_of by (intro pg_exec_spec) (auto simp: drop_searches_where_wf)
next
  case (7 now)
  show ?case
    using list_due by (intro pg_query_spec) (simp add: comp_def del: set_map)
next
  case (8 i at)
  show ?case
    by (rule pg_exec_spec) (auto simp: pg_abs_update search_ran)
qed

section \<open>Transactions\<close>

lemma pg_transaction_spec:
  assumes "\<And>s x s'. pg_wf s \<Longrightarrow> m s = (Inr x, s') \<Longrightarrow> pg_wf s' \<and> R (pg_abs s) x (pg_abs s')"
  shows "port_spec pg_wf pg_abs (pg_transaction m) R"
  by (rule port_specI) (use assms in \<open>auto simp: pg_transaction_def split: prod.splits sum.splits\<close>)

lemma io_bind_Inr:
  "io_bind m f s = (Inr y, t) \<longleftrightarrow> (\<exists>x s'. m s = (Inr x, s') \<and> f x s' = (Inr y, t))"
  by (auto simp: io_bind_def split: prod.splits sum.splits)

lemma pg_exec_Inr:
  "pg_exec E texts op s = (Inr x, s') \<Longrightarrow> op (s\<lparr>pg_clock := pg_clock s + 1\<rparr>) = Inr (x, s')"
  by (auto simp: pg_exec_def Let_def split: option.splits if_splits sum.splits)

lemma pg_begin_Inr: "pg_begin E s = (Inr x, s') \<Longrightarrow> s' = s\<lparr>pg_clock := pg_clock s + 1\<rparr>"
  "pg_commit E s = (Inr x, s') \<Longrightarrow> s' = s\<lparr>pg_clock := pg_clock s + 1\<rparr>"
  unfolding pg_begin_def pg_commit_def by (drule pg_exec_Inr, simp)+

section \<open>Documents\<close>

lemma document_row_exact: "exact_document now_utc d \<Longrightarrow> document_from_row (document_row_of d) = d"
  by (simp add: document_from_row_def document_row_of_def exact_document_def)

lemma document_row_keys [simp]:
  "dw_id (document_row_of d) = doc_id d" "dw_user_id (document_row_of d) = doc_user_id d"
  by (simp_all add: document_row_of_def)

lemma chunk_of_more:
  "kw_document_id c \<in> dw_id ` set ds \<Longrightarrow> chunk_of (ds @ ds') c = chunk_of ds c"
  unfolding chunk_of_def by (induction ds) auto

lemma chunk_of_update:
  "(\<And>r. dw_id (f r) = dw_id r) \<Longrightarrow> (\<And>r. dw_name (f r) = dw_name r) \<Longrightarrow>
   chunk_of (update_row dw_id i f ds) c = chunk_of ds c"
  unfolding chunk_of_def update_row_def by (induction ds) simp_all

lemma chunks_same:
  assumes "\<And>c. c \<in> set (pg_chunks s) \<Longrightarrow> chunk_of ds c = chunk_of (pg_documents s) c"
  shows "pg_abs (s\<lparr>pg_documents := ds\<rparr>) = (pg_abs s)\<lparr>aw_documents := table dw_id document_from_row ds\<rparr>"
proof -
  have "map (chunk_of ds) (pg_chunks s) = map (chunk_of (pg_documents s)) (pg_chunks s)"
    using assms by simp
  then have "mset (map (chunk_of ds) (pg_chunks s)) = mset (map (chunk_of (pg_documents s)) (pg_chunks s))"
    by (simp only:)
  then show ?thesis by (simp add: pg_abs_def)
qed

lemma document_added:
  assumes "pg_wf s"
  shows "pg_abs (s\<lparr>pg_documents := pg_documents s @ [d]\<rparr>) =
    (pg_abs s)\<lparr>aw_documents := table dw_id document_from_row (pg_documents s @ [d])\<rparr>"
  by (rule chunks_same) (use pg_wfD(18) [OF assms] in \<open>auto simp: documents_of_def intro!: chunk_of_more\<close>)

lemma document_updated:
  assumes wf: "pg_wf s"
    and keys: "\<And>r. dw_id (f r) = dw_id r" "\<And>r. dw_name (f r) = dw_name r" "\<And>r. dw_user_id (f r) = dw_user_id r"
    and conv: "\<And>r. document_from_row (f r) = g (document_from_row r)"
  shows "pg_wf (s\<lparr>pg_documents := update_row dw_id i f (pg_documents s)\<rparr>)"
    and "pg_abs (s\<lparr>pg_documents := update_row dw_id i f (pg_documents s)\<rparr>) =
      (pg_abs s)\<lparr>aw_documents := map_modify i g (aw_documents (pg_abs s))\<rparr>"
proof -
  have "\<forall>d \<in> set (update_row dw_id i f (pg_documents s)). dw_user_id d \<in> users_of s"
    using pg_wfD(17) [OF wf] keys(3) by (intro update_row_all) simp_all
  then show "pg_wf (s\<lparr>pg_documents := update_row dw_id i f (pg_documents s)\<rparr>)"
    using wf keys(1) by (simp add: pg_wf_def id_sets update_row_same update_row_image)
  have "table dw_id document_from_row (update_row dw_id i f (pg_documents s)) =
      map_modify i g (table dw_id document_from_row (pg_documents s))"
    by (rule table_update [OF pg_wfD(16) [OF wf]]) (simp_all add: keys conv)
  then show "pg_abs (s\<lparr>pg_documents := update_row dw_id i f (pg_documents s)\<rparr>) =
      (pg_abs s)\<lparr>aw_documents := map_modify i g (aw_documents (pg_abs s))\<rparr>"
    by (simp add: chunks_same chunk_of_update keys)
qed

lemma document_ready_row: "document_from_row (row_ready r) = document_ready (document_from_row r)"
  by (simp add: document_from_row_def row_ready_def document_ready_def doc_status_from_str_def)

lemma document_failed_row: "document_from_row (row_failed e r) = document_failed e (document_from_row r)"
  by (simp add: document_from_row_def row_failed_def document_failed_def doc_status_from_str_def)

lemma row_ready_keys [simp]:
  "dw_id (row_ready r) = dw_id r" "dw_name (row_ready r) = dw_name r" "dw_user_id (row_ready r) = dw_user_id r"
  "dw_id (row_failed e r) = dw_id r" "dw_name (row_failed e r) = dw_name r" "dw_user_id (row_failed e r) = dw_user_id r"
  by (simp_all add: row_ready_def row_failed_def)

lemma drop_one_document:
  fixes i u :: uuid
  assumes wf: "pg_wf s"
  defines "owned \<equiv> \<exists>d. aw_documents (pg_abs s) i = Some d \<and> doc_user_id d = u"
    and "s' \<equiv> drop_documents_where (\<lambda>r. dw_id r = i \<and> dw_user_id r = u) s"
  shows "0 < length (filter (\<lambda>r. dw_id r = i \<and> dw_user_id r = u) (pg_documents s)) \<longleftrightarrow> owned"
    and "owned \<Longrightarrow> pg_abs s' = (pg_abs s)\<lparr>aw_documents := (aw_documents (pg_abs s))(i := None),
           aw_chunks := {#c \<in># aw_chunks (pg_abs s). sc_document_id c \<noteq> i#}\<rparr>"
    and "\<not> owned \<Longrightarrow> s' = s"
proof -
  note d = pg_wfD(16) [OF wf]
  let ?P = "\<lambda>r. dw_id r = i \<and> dw_user_id r = u"
  let ?Q = "\<lambda>x. doc_id x = i \<and> doc_user_id x = u"
  have owned: "owned \<longleftrightarrow> (\<exists>r \<in> set (pg_documents s). ?P r)"
    unfolding owned_def by (auto simp: table_Some [OF d])
  then show "0 < length (filter ?P (pg_documents s)) \<longleftrightarrow> owned"
    by (auto simp: filter_empty_conv)
  show "s' = s" if "\<not> owned"
    unfolding s'_def by (rule drop_none) (use that owned in blast)
  show "pg_abs s' = (pg_abs s)\<lparr>aw_documents := (aw_documents (pg_abs s))(i := None),
      aw_chunks := {#c \<in># aw_chunks (pg_abs s). sc_document_id c \<noteq> i#}\<rparr>" if own: "owned"
  proof -
    have gone: "dw_id ` set (filter ?P (pg_documents s)) = {i}" using own owned by auto
    have keep: "map_keep (\<lambda>_ x. \<not> ?Q x) (aw_documents (pg_abs s)) = (aw_documents (pg_abs s))(i := None)"
      using own table_delete_owned(2) [OF d, where conv = document_from_row and owner' = doc_user_id and owner = dw_user_id]
        table_filter [OF d, where conv = document_from_row and P = "\<lambda>r. \<not> ?P r" and Q = "\<lambda>x. \<not> ?Q x"]
      unfolding owned_def by simp
    have "pg_abs (drop_documents_where ?P s) =
        (pg_abs s)\<lparr>aw_documents := map_keep (\<lambda>_ x. \<not> ?Q x) (aw_documents (pg_abs s)),
          aw_chunks := {#c \<in># aw_chunks (pg_abs s). sc_document_id c \<notin> {i}#}\<rparr>"
      using drop_documents_where_abs [OF wf, of ?P ?Q] unfolding gone by simp
    then show ?thesis unfolding s'_def keep by simp
  qed
qed

lemma chunks_of_abs: "aw_chunks (pg_abs s) = mset (map (chunk_of (pg_documents s)) (pg_chunks s))"
  by (simp add: pg_abs_def)

text \<open>When every chunk belongs to a document of its owner, a user's chunks go with the documents.\<close>

lemma drop_documents_of:
  fixes u :: uuid
  assumes wf: "pg_wf s"
  defines "P \<equiv> \<lambda>r. dw_user_id r = u"
  shows "length (filter P (pg_documents s)) = card {d \<in> ran (aw_documents (pg_abs s)). doc_user_id d = u}"
    and "chunks_ok (pg_abs s) \<Longrightarrow> pg_abs (drop_documents_where P s) =
      (pg_abs s)\<lparr>aw_documents := map_keep (\<lambda>_ d. doc_user_id d \<noteq> u) (aw_documents (pg_abs s)),
        aw_chunks := {#c \<in># aw_chunks (pg_abs s). sc_user_id c \<noteq> u#}\<rparr>"
proof -
  note d = pg_wfD(16) [OF wf]
  show "length (filter P (pg_documents s)) = card {d \<in> ran (aw_documents (pg_abs s)). doc_user_id d = u}"
    unfolding P_def pg_tables by (rule table_count [OF d, where key' = doc_id]) simp_all
  assume ok: "chunks_ok (pg_abs s)"
  have owner: "sc_document_id c \<notin> dw_id ` set (filter P (pg_documents s)) \<longleftrightarrow> sc_user_id c \<noteq> u"
    if c: "c \<in># aw_chunks (pg_abs s)" for c
  proof -
    obtain r where r: "r \<in> set (pg_documents s)" "dw_id r = sc_document_id c" "dw_user_id r = sc_user_id c"
      using ok c by (auto simp: chunks_ok_def table_Some [OF d])
    have same: "q = r" if "q \<in> set (pg_documents s)" "dw_id q = sc_document_id c" for q
      using key_inj [OF d that(1) r(1)] that(2) r(2) by simp
    have "sc_document_id c \<in> dw_id ` set (filter P (pg_documents s)) \<longleftrightarrow>
        (\<exists>q \<in> set (pg_documents s). dw_id q = sc_document_id c \<and> dw_user_id q = u)"
      unfolding P_def by (simp add: image_iff eq_commute [of "sc_document_id c"]) blast
    also have "\<dots> \<longleftrightarrow> dw_user_id r = u" using same r(1,2) by blast
    finally show ?thesis using r(3) by simp
  qed
  have "{#c \<in># aw_chunks (pg_abs s). sc_document_id c \<notin> dw_id ` set (filter P (pg_documents s))#} =
      {#c \<in># aw_chunks (pg_abs s). sc_user_id c \<noteq> u#}"
    using owner by (rule filter_mset_cong [OF refl])
  with drop_documents_where_abs [OF wf, of P "\<lambda>d. doc_user_id d = u"]
  show "pg_abs (drop_documents_where P s) =
      (pg_abs s)\<lparr>aw_documents := map_keep (\<lambda>_ d. doc_user_id d \<noteq> u) (aw_documents (pg_abs s)),
        aw_chunks := {#c \<in># aw_chunks (pg_abs s). sc_user_id c \<noteq> u#}\<rparr>"
    unfolding P_def by simp
qed

definition new_rows :: "document \<Rightarrow> chunk_row list \<Rightarrow> new_chunk list \<Rightarrow> bool" where
  "new_rows d rows ns \<longleftrightarrow> list_all2 (\<lambda>r n. \<exists>i. r = chunk_row_of i d n) rows ns"

lemma insert_chunks_Inr:
  "insert_chunks E d ns s = (Inr x, s') \<Longrightarrow>
   \<exists>rows n. s' = s\<lparr>pg_chunks := pg_chunks s @ rows, pg_clock := n\<rparr> \<and> new_rows d rows ns \<and>
     (ns \<noteq> [] \<longrightarrow> doc_id d \<in> documents_of s \<and> doc_user_id d \<in> users_of s)"
proof (induction ns arbitrary: s)
  case Nil
  then show ?case
    by (intro exI [of _ "[]"] exI [of _ "pg_clock s"]) (simp add: io_ret_def new_rows_def)
next
  case (Cons n ns)
  then obtain s1 where one: "insert_chunk E d n s = (Inr (), s1)" and rest: "insert_chunks E d ns s1 = (Inr x, s')"
    by (auto simp: io_bind_Inr)
  from one obtain i where s1: "s1 = s\<lparr>pg_clock := pg_clock s + 1, pg_chunks := pg_chunks s @ [chunk_row_of i d n]\<rparr>"
    and refs: "doc_id d \<in> documents_of s" "doc_user_id d \<in> users_of s"
    unfolding insert_chunk_def by (auto dest!: pg_exec_Inr simp: Let_def id_sets split: if_splits)
  from Cons.IH [OF rest] obtain rows m where rows: "s' = s1\<lparr>pg_chunks := pg_chunks s1 @ rows, pg_clock := m\<rparr>"
    "new_rows d rows ns" by blast
  show ?case
    by (rule exI [of _ "chunk_row_of i d n # rows"], rule exI [of _ m])
      (use rows s1 refs in \<open>auto simp: new_rows_def\<close>)
qed

lemma new_rows_stored:
  assumes "new_rows d rows ns" and "find (\<lambda>r. dw_id r = doc_id d) ds = Some r" and "dw_name r = doc_name d"
  shows "map (chunk_of ds) rows = map (stored_chunk_of d) ns"
  using assms(1) unfolding new_rows_def
proof (induction rows ns rule: list_all2_induct)
  case (Cons q qs n ns)
  then show ?case using assms(2,3) by (auto simp: chunk_of_def chunk_row_of_def stored_chunk_of_def)
qed simp

lemma new_rows_refs: "new_rows d rows ns \<Longrightarrow> c \<in> set rows \<Longrightarrow>
   ns \<noteq> [] \<and> kw_document_id c = doc_id d \<and> kw_user_id c = doc_user_id d"
  unfolding new_rows_def by (induction rows ns rule: list_all2_induct) (auto simp: chunk_row_of_def)

text \<open>Replacing a document's chunks: the old ones are gone.\<close>

lemma chunks_replaced:
  assumes wf: "pg_wf s" and rows: "new_rows d rows ns"
    and refs: "ns \<noteq> [] \<Longrightarrow> doc_id d \<in> documents_of s \<and> doc_user_id d \<in> users_of s"
  defines "s1 \<equiv> s\<lparr>pg_chunks := filter (\<lambda>c. kw_document_id c \<noteq> doc_id d) (pg_chunks s) @ rows\<rparr>"
  shows "pg_wf s1"
    and "aw_documents (pg_abs s) (doc_id d) = Some d \<Longrightarrow> pg_abs s1 = (pg_abs s)\<lparr>aw_chunks :=
      {#c \<in># aw_chunks (pg_abs s). sc_document_id c \<noteq> doc_id d#} + mset (map (stored_chunk_of d) ns)\<rparr>"
proof -
  have "\<forall>c \<in> set rows. kw_document_id c \<in> documents_of s \<and> kw_user_id c \<in> users_of s"
    using new_rows_refs [OF rows] refs by metis
  then show "pg_wf s1" using wf unfolding s1_def by (auto simp: pg_wf_def id_sets)
  assume known: "aw_documents (pg_abs s) (doc_id d) = Some d"
  have "map_option document_from_row (find (\<lambda>r. dw_id r = doc_id d) (pg_documents s)) = Some d"
    using known by (simp add: table_find)
  then obtain r where r: "find (\<lambda>r. dw_id r = doc_id d) (pg_documents s) = Some r" "document_from_row r = d"
    by auto
  then have "map (chunk_of (pg_documents s)) rows = map (stored_chunk_of d) ns"
    using row_fields(10) [of r] by (intro new_rows_stored [OF rows]) simp_all
  then have new: "mset (map (chunk_of (pg_documents s)) rows) = mset (map (stored_chunk_of d) ns)" by (simp only:)
  have old: "mset (map (chunk_of (pg_documents s)) (filter (\<lambda>c. kw_document_id c \<noteq> doc_id d) (pg_chunks s))) =
      {#c \<in># aw_chunks (pg_abs s). sc_document_id c \<noteq> doc_id d#}"
    by (simp add: chunks_of_abs filter_mset_image_mset chunk_of_def flip: mset_filter)
  have "aw_chunks (pg_abs s1) = {#c \<in># aw_chunks (pg_abs s). sc_document_id c \<noteq> doc_id d#} +
      mset (map (stored_chunk_of d) ns)"
    unfolding old [symmetric] new [symmetric] by (simp add: chunks_of_abs s1_def)
  moreover have "pg_abs s1 = (pg_abs s)\<lparr>aw_chunks := aw_chunks (pg_abs s1)\<rparr>"
    by (simp add: pg_abs_def s1_def)
  ultimately show "pg_abs s1 = (pg_abs s)\<lparr>aw_chunks :=
      {#c \<in># aw_chunks (pg_abs s). sc_document_id c \<noteq> doc_id d#} + mset (map (stored_chunk_of d) ns)\<rparr>"
    by simp
qed

lemma store_chunks_Inr:
  assumes "io_bind (pg_begin E) (\<lambda>_.
     io_bind (pg_exec E [] (\<lambda>s. Inr ((), s\<lparr>pg_chunks := filter (\<lambda>c. kw_document_id c \<noteq> doc_id d) (pg_chunks s)\<rparr>))) (\<lambda>_.
     io_bind (insert_chunks E d ns) (\<lambda>_.
     io_bind (pg_exec E [] (\<lambda>s. Inr ((), s\<lparr>pg_documents := update_row dw_id (doc_id d) row_ready (pg_documents s)\<rparr>))) (\<lambda>_.
     pg_commit E)))) s = (Inr x, s')"
  obtains rows n where "new_rows d rows ns"
    and "ns \<noteq> [] \<longrightarrow> doc_id d \<in> documents_of s \<and> doc_user_id d \<in> users_of s"
    and "s' = s\<lparr>pg_chunks := filter (\<lambda>c. kw_document_id c \<noteq> doc_id d) (pg_chunks s) @ rows,
      pg_documents := update_row dw_id (doc_id d) row_ready (pg_documents s), pg_clock := n\<rparr>"
proof -
  obtain a s1 b s2 c s3 e s4 where steps: "pg_begin E s = (Inr a, s1)"
    "pg_exec E [] (\<lambda>s. Inr ((), s\<lparr>pg_chunks := filter (\<lambda>c. kw_document_id c \<noteq> doc_id d) (pg_chunks s)\<rparr>)) s1 = (Inr b, s2)"
    "insert_chunks E d ns s2 = (Inr c, s3)"
    "pg_exec E [] (\<lambda>s. Inr ((), s\<lparr>pg_documents := update_row dw_id (doc_id d) row_ready (pg_documents s)\<rparr>)) s3 = (Inr e, s4)"
    "pg_commit E s4 = (Inr x, s')"
    using assms unfolding io_bind_Inr by blast
  obtain rows n where rows: "s3 = s2\<lparr>pg_chunks := pg_chunks s2 @ rows, pg_clock := n\<rparr>" "new_rows d rows ns"
    "ns \<noteq> [] \<longrightarrow> doc_id d \<in> documents_of s2 \<and> doc_user_id d \<in> users_of s2"
    using insert_chunks_Inr [OF steps(3)] by blast
  note run = pg_begin_Inr(1) [OF steps(1)] pg_exec_Inr [OF steps(2)] pg_exec_Inr [OF steps(4)] pg_begin_Inr(2) [OF steps(5)]
  show thesis
    by (rule that [OF rows(2), of "pg_clock s'"]) (use rows run in \<open>auto simp: id_sets\<close>)
qed

lemma retrieved_rows:
  "mset (map (\<lambda>i. xs ! i) (filter (\<lambda>i. i < length xs) (remdups visited))) \<subseteq># mset xs"
proof -
  let ?is = "filter (\<lambda>i. i < length xs) (remdups visited)"
  have "mset ?is \<subseteq># mset [0..<length xs]"
    unfolding mset_upt by (subst mset_set_set [symmetric]) (auto intro!: subset_imp_msubset_mset_set)
  then have "image_mset ((!) xs) (mset ?is) \<subseteq># image_mset ((!) xs) (mset [0..<length xs])"
    by (rule image_mset_subseteq_mono)
  then show ?thesis by (metis map_nth mset_map)
qed

lemma stored_chunks:
  fixes m :: nat
  assumes wf: "pg_wf s" and rows: "new_rows d rows ns"
    and refs: "ns \<noteq> [] \<longrightarrow> doc_id d \<in> documents_of s \<and> doc_user_id d \<in> users_of s"
  defines "s' \<equiv> s\<lparr>pg_chunks := filter (\<lambda>c. kw_document_id c \<noteq> doc_id d) (pg_chunks s) @ rows,
      pg_documents := update_row dw_id (doc_id d) row_ready (pg_documents s), pg_clock := m\<rparr>"
  shows "pg_wf s'"
    and "aw_documents (pg_abs s) (doc_id d) = Some d \<Longrightarrow> pg_abs s' =
      (pg_abs s)\<lparr>aw_documents := (aw_documents (pg_abs s))(doc_id d \<mapsto> document_ready d),
        aw_chunks := {#c \<in># aw_chunks (pg_abs s). sc_document_id c \<noteq> doc_id d#} + {#} +
          mset (map (stored_chunk_of d) ns)\<rparr>"
proof -
  define s1 where "s1 = s\<lparr>pg_chunks := filter (\<lambda>c. kw_document_id c \<noteq> doc_id d) (pg_chunks s) @ rows\<rparr>"
  have s': "s' = (s1\<lparr>pg_documents := update_row dw_id (doc_id d) row_ready (pg_documents s1)\<rparr>)\<lparr>pg_clock := m\<rparr>"
    unfolding s'_def s1_def by simp
  note replaced = chunks_replaced [OF wf rows, folded s1_def]
  have wf1: "pg_wf s1" by (rule replaced(1)) (use refs in blast)
  note ready = document_updated [OF wf1, of row_ready document_ready "doc_id d", OF _ _ _ document_ready_row]
  show "pg_wf s'" unfolding s' by (simp add: ready(1))
  assume known: "aw_documents (pg_abs s) (doc_id d) = Some d"
  have "pg_abs s1 = (pg_abs s)\<lparr>aw_chunks :=
      {#c \<in># aw_chunks (pg_abs s). sc_document_id c \<noteq> doc_id d#} + mset (map (stored_chunk_of d) ns)\<rparr>"
    by (rule replaced(2)) (use refs known in blast)+
  then show "pg_abs s' =
      (pg_abs s)\<lparr>aw_documents := (aw_documents (pg_abs s))(doc_id d \<mapsto> document_ready d),
        aw_chunks := {#c \<in># aw_chunks (pg_abs s). sc_document_id c \<noteq> doc_id d#} + {#} +
          mset (map (stored_chunk_of d) ns)\<rparr>"
    using known unfolding s' by (simp add: ready(2))
qed

lemma retrieved_chunks:
  assumes "rows = map (\<lambda>i. pg_chunks s ! i) (filter (\<lambda>i. i < length (pg_chunks s)) (remdups visited))"
    and "cs = map (chunk_of (pg_documents s))
      (take n (filter (\<lambda>c. kw_user_id c = u \<and> kw_document_id c \<in> documents_of s) rows))"
  shows "mset cs \<subseteq># {#c \<in># aw_chunks (pg_abs s). sc_user_id c = u#}" and "length cs \<le> n"
proof -
  have "mset (take n (filter (\<lambda>c. kw_user_id c = u \<and> kw_document_id c \<in> documents_of s) rows)) \<subseteq>#
      {#c \<in># mset rows. kw_user_id c = u \<and> kw_document_id c \<in> documents_of s#}"
    unfolding mset_filter [symmetric] by (rule mset_take)
  also have "\<dots> \<subseteq># {#c \<in># mset rows. kw_user_id c = u#}"
    by (rule filter_mset_mono_strong) auto
  also have "\<dots> \<subseteq># {#c \<in># mset (pg_chunks s). kw_user_id c = u#}"
    unfolding assms(1) by (rule multiset_filter_mono) (rule retrieved_rows)
  finally have "mset cs \<subseteq># image_mset (chunk_of (pg_documents s)) {#c \<in># mset (pg_chunks s). kw_user_id c = u#}"
    unfolding assms(2) mset_map by (rule image_mset_subseteq_mono)
  also have "\<dots> = {#c \<in># aw_chunks (pg_abs s). sc_user_id c = u#}"
    by (simp add: chunks_of_abs filter_mset_image_mset chunk_of_def)
  finally show "mset cs \<subseteq># {#c \<in># aw_chunks (pg_abs s). sc_user_id c = u#}" .
  show "length cs \<le> n" using assms(2) by simp
qed

lemmas pg_document_defs = pg_document_insert_def pg_document_list_def pg_document_find_def
  pg_document_delete_def pg_store_chunks_def pg_document_mark_failed_def pg_retrieve_def
  pg_document_delete_all_def delete_documents_def

interpretation pg_document: document_port now_utc "pg_document_repo E" pg_wf pg_abs
proof (unfold_locales, unfold pg_document_repo_def document_repo.simps pg_document_defs, goal_cases)
  case (1 s)
  then show ?case by (simp add: table_keyed pg_wfD(16))
next
  case (2 d)
  show ?case
    by (rule pg_exec_spec)
      (auto simp: document_added table_insert pg_wfD(16) document_row_exact documents_of_def
        intro!: wf_add(7) split: if_splits)
next
  case (3 u)
  show ?case
    by (rule pg_query_spec) (simp add: table_listing [OF pg_wfD(16), where key' = doc_id and P = "\<lambda>r. dw_user_id r = u"])
next
  case (4 i)
  show ?case by (rule pg_query_spec) (simp add: table_find)
next
  case (5 u i)
  show ?case
    using drop_one_document by (intro pg_exec_spec) (auto simp: drop_documents_where_wf)
next
  case (6 d ns)
  show ?case
  proof (rule pg_transaction_spec, goal_cases)
    case (1 s x s')
    from 1(2) obtain rows n where r: "new_rows d rows ns"
      "ns \<noteq> [] \<longrightarrow> doc_id d \<in> documents_of s \<and> doc_user_id d \<in> users_of s"
      and s': "s' = s\<lparr>pg_chunks := filter (\<lambda>c. kw_document_id c \<noteq> doc_id d) (pg_chunks s) @ rows,
        pg_documents := update_row dw_id (doc_id d) row_ready (pg_documents s), pg_clock := n\<rparr>"
      by (rule store_chunks_Inr)
    from stored_chunks [OF 1(1) r, where m = n, folded s'] show ?case
      by (auto intro!: exI [of _ "{#}"])
  qed
next
  case (7 i err)
  show ?case
    by (rule pg_exec_spec) (auto simp: document_updated [where g = "document_failed err"] document_failed_row)
next
  case (8 u emb k)
  show ?case
  proof (rule pg_exec_spec, goal_cases)
    case (1 s r s')
    then obtain visited where s': "s' = s" and r: "r = map (\<lambda>c. retrieved_of (chunk_of (pg_documents s) c))
        (take (nat (max k 0)) (filter (\<lambda>c. kw_user_id c = u \<and> kw_document_id c \<in> documents_of s)
          (map (\<lambda>i. pg_chunks s ! i) (filter (\<lambda>i. i < length (pg_chunks s)) (remdups visited)))))"
      by (auto simp: Let_def split: if_splits option.splits)
    define rows where rows: "rows = map (\<lambda>i. pg_chunks s ! i) (filter (\<lambda>i. i < length (pg_chunks s)) (remdups visited))"
    have k: "nat (max k 0) = nat k" by simp
    define cs where cs: "cs = map (chunk_of (pg_documents s))
      (take (nat k) (filter (\<lambda>c. kw_user_id c = u \<and> kw_document_id c \<in> documents_of s) rows))"
    have "r = map retrieved_of cs" unfolding r cs rows k by simp
    then show ?case
      using retrieved_chunks [OF rows cs] 1(1) s' by blast
  qed
next
  case (9 u)
  show ?case
    using drop_documents_of by (intro pg_exec_spec) (auto simp: drop_documents_where_wf)
qed

end
