(* ===== verification/Postgres_Jobs.thy ===== *)
theory Postgres_Jobs
  imports Postgres_Ports
begin

text \<open>The PostgreSQL repository of jobs, results and journals implements the port.\<close>

section \<open>Reading rows\<close>

lemma pg_query_run:
  "pg_query E texts q s = (r, s') \<Longrightarrow> s' = s\<lparr>pg_clock := pg_clock s + 1\<rparr> \<and> (\<forall>x. r = Inr x \<longrightarrow> x = q s')"
  by (auto simp: pg_query_def pg_exec_def Let_def split: option.splits if_splits)

lemma pg_read_spec:
  assumes "\<And>s y. pg_wf s \<Longrightarrow> f (q s) = Inr y \<Longrightarrow> R (pg_abs s) y (pg_abs s)"
  shows "port_spec pg_wf pg_abs (io_bind (pg_query E texts q) (\<lambda>x. io_of (f x))) R"
proof (rule port_specI)
  fix s y t
  assume wf: "pg_wf s" and run: "io_bind (pg_query E texts q) (\<lambda>x. io_of (f x)) s = (Inr y, t)"
  then obtain x s' where "pg_query E texts q s = (Inr x, s')" "f x = Inr y" "t = s'"
    by (auto simp: io_bind_Inr io_of_def)
  with pg_query_run [OF this(1)] wf assms [of t y] show "pg_wf t \<and> R (pg_abs s) y (pg_abs t)" by auto
next
  fix s e t
  assume wf: "pg_wf s" and run: "io_bind (pg_query E texts q) (\<lambda>x. io_of (f x)) s = (Inl e, t)"
  obtain r s' where q: "pg_query E texts q s = (r, s')" by fastforce
  with run have "t = s'" by (auto simp: io_bind_def io_of_def split: sum.splits)
  with pg_query_run [OF q] wf show "pg_wf t \<and> pg_abs t = pg_abs s" by simp
qed

lemma collect_jobs:
  assumes "pg_wf s" and "set rows \<subseteq> set (pg_jobs s)"
  shows "collect_rows job_from_row rows = Inr (map job_of rows)"
  using assms by (intro collect_rows_all) (auto simp: job_of_row job_rows_ok)

lemma job_fields:
  assumes "pg_wf s" and "r \<in> set (pg_jobs s)"
  shows "job_id (job_of r) = jb_id r" "job_user_id (job_of r) = jb_user_id r"
    "job_created_at (job_of r) = jb_created_at r" "job_usage (job_of r) = jb_usage r"
    "job_recurring_search_id (job_of r) = jb_recurring_search_id r"
    "status_to_str (job_status (job_of r)) = jb_status r"
  using job_of_fields [OF job_rows_ok [OF assms]] by simp_all

lemma status_row: "job_row_ok r \<Longrightarrow> jb_status r = status_to_str st \<longleftrightarrow> job_status (job_of r) = st"
  using job_of_fields(6) [of r] by (metis text_columns(1) sum.inject(2))

lemma stale_row:
  "job_row_ok r \<Longrightarrow> stale cutoff (job_of r) \<longleftrightarrow>
     (jb_status r = lit ''pending'' \<or> jb_status r = lit ''running'') \<and> jb_created_at r < cutoff"
  using status_row [of r Pending] status_row [of r Running] by (auto simp: stale_def job_of_fields)

lemma purgeable_row:
  "job_row_ok r \<Longrightarrow> purgeable cutoff (job_of r) \<longleftrightarrow>
     jb_recurring_search_id r = None \<and> (jb_status r = lit ''completed'' \<or> jb_status r = lit ''failed'') \<and>
     jb_created_at r < cutoff"
  using status_row [of r Completed] status_row [of r Failed]
  by (auto simp: purgeable_def job_is_finished_def job_of_fields)

lemma jobs_keyed: "pg_wf s \<Longrightarrow> keyed job_id (table jb_id job_of (pg_jobs s))"
  by (rule table_keyed) (simp_all add: pg_wfD(6) job_fields(1))

lemma jobs_count:
  assumes "pg_wf s" and "\<And>r. r \<in> set (pg_jobs s) \<Longrightarrow> P r = Q (job_of r)"
  shows "length (filter P (pg_jobs s)) = card {j \<in> ran (table jb_id job_of (pg_jobs s)). Q j}"
  using assms by (intro table_count [where key' = job_id]) (simp_all add: pg_wfD(6) job_fields(1))

section \<open>Writing jobs\<close>

lemma now_utc_again [simp]: "now_utc (now_utc t) = now_utc t"
  by (rule micro_instants.prec_now)

lemma job_row_exact:
  "exact_job now_utc j \<Longrightarrow> job_usage j = job_usage_default \<Longrightarrow> job_of (job_row_of j) = j"
  by (simp add: job_of_def job_from_row_def job_row_of_def exact_job_def)

lemma job_row_new [simp]:
  "jb_id (job_row_of j) = job_id j" "jb_user_id (job_row_of j) = job_user_id j"
  "jb_recurring_search_id (job_row_of j) = job_recurring_search_id j" "job_row_ok (job_row_of j)"
  by (simp_all add: job_row_of_def job_row_ok_def option.map_comp comp_def)

lemma wf_jobs:
  assumes wf: "pg_wf s"
    and keep: "\<And>r. jb_id (f r) = jb_id r" "\<And>r. jb_user_id (f r) = jb_user_id r"
    "\<And>r. jb_recurring_search_id (f r) = jb_recurring_search_id r"
    and ok: "\<And>r. job_row_ok r \<Longrightarrow> job_row_ok (f r)"
  shows "pg_wf (s\<lparr>pg_jobs := update_row jb_id i f (pg_jobs s)\<rparr>)"
proof -
  have "job_refs_ok (users_of s) (searches_of s) (update_row jb_id i f (pg_jobs s))"
    using pg_wfD(7) [OF wf] ok unfolding job_refs_ok_def by (intro update_row_all) (simp_all add: keep)
  then show ?thesis using wf keep(1) by (simp add: pg_wf_def id_sets update_row_same update_row_image)
qed

lemma job_row_update_keep [simp]:
  "jb_id (job_row_update j r) = jb_id r" "jb_user_id (job_row_update j r) = jb_user_id r"
  "jb_recurring_search_id (job_row_update j r) = jb_recurring_search_id r"
  "job_row_ok (job_row_update j r)"
  by (simp_all add: job_row_update_def job_row_ok_def option.map_comp comp_def)

lemma job_row_updated:
  assumes "job_row_ok r" and "writes_back now_utc (job_of r) j" and "jb_id r = job_id j"
  shows "job_of (job_row_update j r) = keep_usage (job_of r) j"
  using assms
  by (auto simp: writes_back_def job_of_def job_from_row_def job_row_update_def keep_usage_def job_row_ok_def
      split: sum.splits)

lemma jobs_updated:
  assumes wf: "pg_wf s"
    and known: "aw_jobs (pg_abs s) (job_id j) = Some old" "writes_back now_utc old j"
  shows "pg_abs (s\<lparr>pg_jobs := update_row jb_id (job_id j) (job_row_update j) (pg_jobs s)\<rparr>) = put_job j (pg_abs s)"
proof -
  have "job_of (job_row_update j r) = keep_usage (job_of r) j"
    if r: "r \<in> set (pg_jobs s)" "jb_id r = job_id j" for r
  proof (rule job_row_updated [OF job_rows_ok [OF wf r(1)] _ r(2)])
    have "aw_jobs (pg_abs s) (jb_id r) = Some (job_of r)"
      using table_row [OF pg_wfD(6) [OF wf] r(1)] by simp
    then show "writes_back now_utc (job_of r) j" using known r(2) by simp
  qed
  then have "table jb_id job_of (update_row jb_id (job_id j) (job_row_update j) (pg_jobs s)) =
      map_modify (job_id j) (\<lambda>old. keep_usage old j) (table jb_id job_of (pg_jobs s))"
    by (intro table_update [OF pg_wfD(6) [OF wf]]) simp_all
  then show ?thesis by (simp add: pg_abs_update put_job_def)
qed

lemma usage_added:
  fixes u :: job_usage and fadd :: "f64 \<Rightarrow> f64 \<Rightarrow> f64"
  assumes wf: "pg_wf s"
  defines "f \<equiv> \<lambda>r. r\<lparr>jb_usage := job_usage_add fadd (jb_usage r) u\<rparr>"
  shows "pg_wf (s\<lparr>pg_jobs := update_row jb_id i f (pg_jobs s)\<rparr>)"
    and "table jb_id job_of (update_row jb_id i f (pg_jobs s)) =
      map_modify i (\<lambda>j. j\<lparr>job_usage := job_usage_add fadd (job_usage j) u\<rparr>) (table jb_id job_of (pg_jobs s))"
proof -
  show "pg_wf (s\<lparr>pg_jobs := update_row jb_id i f (pg_jobs s)\<rparr>)"
    by (rule wf_jobs [OF wf]) (simp_all add: f_def job_row_ok_def)
  have "job_of (f r) = (job_of r)\<lparr>job_usage := job_usage_add fadd (job_usage (job_of r)) u\<rparr>"
    if "r \<in> set (pg_jobs s)" for r
    using job_rows_ok [OF wf that]
    by (auto simp: f_def job_of_def job_from_row_def job_row_ok_def split: sum.splits)
  then show "table jb_id job_of (update_row jb_id i f (pg_jobs s)) =
      map_modify i (\<lambda>j. j\<lparr>job_usage := job_usage_add fadd (job_usage j) u\<rparr>) (table jb_id job_of (pg_jobs s))"
    by (intro table_update [OF pg_wfD(6) [OF wf]]) (simp_all add: f_def)
qed

section \<open>Results\<close>

text \<open>What the database makes of a result.\<close>

definition pg_stored :: "pg_env \<Rightarrow> search_result \<Rightarrow> search_result" where
  "pg_stored E r = r\<lparr>sr_published_at := map_option now_utc (sr_published_at r),
     sr_raw := (case pe_jsonb E (sr_raw r) of None \<Rightarrow> sr_raw r | Some raw \<Rightarrow> raw)\<rparr>"

lemma result_row_stored:
  "pe_jsonb E (sr_raw r) = Some raw \<Longrightarrow> result_of (result_row_of i raw r) = pg_stored E r"
  by (simp add: result_of_def result_from_row_def result_row_of_def pg_stored_def)

lemma insert_results_Inr:
  "insert_results E i rs s = (Inr x, s') \<Longrightarrow>
   \<exists>rows n. s' = s\<lparr>pg_results := pg_results s @ rows, pg_clock := n\<rparr> \<and>
     (\<forall>r \<in> set rows. sw_job_id r = i \<and> result_row_ok r) \<and> map result_of rows = map (pg_stored E) rs \<and>
     (rows \<noteq> [] \<longrightarrow> i \<in> jobs_of s)"
proof (induction rs arbitrary: s)
  case Nil
  then show ?case
    by (intro exI [of _ "[]"] exI [of _ "pg_clock s"]) (simp add: io_ret_def)
next
  case (Cons r rs)
  then obtain s1 where one: "insert_result E i r s = (Inr (), s1)" and rest: "insert_results E i rs s1 = (Inr x, s')"
    by (auto simp: io_bind_Inr)
  from one obtain raw where raw: "pe_jsonb E (sr_raw r) = Some raw"
    and s1: "s1 = s\<lparr>pg_clock := pg_clock s + 1, pg_results := pg_results s @ [result_row_of i raw r]\<rparr>"
    and job: "i \<in> jobs_of s"
    unfolding insert_result_def by (auto dest!: pg_exec_Inr simp: id_sets split: if_splits option.splits)
  from Cons.IH [OF rest] obtain rows m where rows: "s' = s1\<lparr>pg_results := pg_results s1 @ rows, pg_clock := m\<rparr>"
    "\<forall>r \<in> set rows. sw_job_id r = i \<and> result_row_ok r" "map result_of rows = map (pg_stored E) rs" by blast
  have new: "sw_job_id (result_row_of i raw r) = i" "result_row_ok (result_row_of i raw r)"
    by (simp_all add: result_row_of_def result_row_ok_def)
  show ?case
    by (rule exI [of _ "result_row_of i raw r # rows"], rule exI [of _ m])
      (use rows s1 job new result_row_stored [OF raw, of i] in simp)
qed

lemma store_results_Inr:
  assumes "io_bind (pg_begin E) (\<lambda>_.
     io_bind (pg_exec E [] (\<lambda>s. Inr ((), s\<lparr>pg_results := filter (\<lambda>r. sw_job_id r \<noteq> i) (pg_results s)\<rparr>))) (\<lambda>_.
     io_bind (insert_results E i rs) (\<lambda>_. pg_commit E))) s = (Inr x, s')"
  obtains rows n where "\<forall>r \<in> set rows. sw_job_id r = i \<and> result_row_ok r"
    and "map result_of rows = map (pg_stored E) rs" and "rows \<noteq> [] \<longrightarrow> i \<in> jobs_of s"
    and "s' = s\<lparr>pg_results := filter (\<lambda>r. sw_job_id r \<noteq> i) (pg_results s) @ rows, pg_clock := n\<rparr>"
proof -
  obtain a s1 b s2 c s3 where steps: "pg_begin E s = (Inr a, s1)"
    "pg_exec E [] (\<lambda>s. Inr ((), s\<lparr>pg_results := filter (\<lambda>r. sw_job_id r \<noteq> i) (pg_results s)\<rparr>)) s1 = (Inr b, s2)"
    "insert_results E i rs s2 = (Inr c, s3)" "pg_commit E s3 = (Inr x, s')"
    using assms unfolding io_bind_Inr by blast
  obtain rows n where rows: "s3 = s2\<lparr>pg_results := pg_results s2 @ rows, pg_clock := n\<rparr>"
    "\<forall>r \<in> set rows. sw_job_id r = i \<and> result_row_ok r" "map result_of rows = map (pg_stored E) rs"
    "rows \<noteq> [] \<longrightarrow> i \<in> jobs_of s2"
    using insert_results_Inr [OF steps(3)] by blast
  note run = pg_begin_Inr(1) [OF steps(1)] pg_exec_Inr [OF steps(2)] pg_begin_Inr(2) [OF steps(4)]
  show thesis
    by (rule that [OF rows(2,3), of "pg_clock s'"]) (use rows run in \<open>auto simp: id_sets\<close>)
qed

lemma results_stored:
  assumes wf: "pg_wf s" and rows: "\<forall>r \<in> set rows. sw_job_id r = i \<and> result_row_ok r"
    "map result_of rows = map (pg_stored E) rs" "rows \<noteq> [] \<longrightarrow> i \<in> jobs_of s"
  defines "s1 \<equiv> s\<lparr>pg_results := filter (\<lambda>r. sw_job_id r \<noteq> i) (pg_results s) @ rows\<rparr>"
  shows "pg_wf s1" and "pg_abs s1 = set_results i (map (pg_stored E) rs) (pg_abs s)"
proof -
  have "\<forall>r \<in> set rows. result_row_ok r \<and> sw_job_id r \<in> jobs_of s"
    using rows(1,3) by (cases rows) auto
  then show "pg_wf s1" using wf unfolding s1_def by (auto simp: pg_wf_def id_sets)
  have own: "filter (\<lambda>r. sw_job_id r = i) rows = rows" using rows(1) by simp
  have others: "filter (\<lambda>r. sw_job_id r = k) rows = []" if "k \<noteq> i" for k
    using rows(1) that by (auto simp: filter_empty_conv)
  have "(\<lambda>k. map result_of (filter (\<lambda>r. sw_job_id r = k) (pg_results s1))) =
      (\<lambda>k. map result_of (filter (\<lambda>r. sw_job_id r = k) (pg_results s)))(i := map (pg_stored E) rs)"
    unfolding s1_def by (rule ext) (simp add: own others rows(2) filter_empty_conv conj_commute cong: conj_cong)
  then show "pg_abs s1 = set_results i (map (pg_stored E) rs) (pg_abs s)"
    by (simp add: pg_abs_def set_results_def s1_def)
qed

lemma collect_results:
  assumes "pg_wf s" and "set rows \<subseteq> set (pg_results s)"
  shows "collect_rows result_from_row rows = Inr (map result_of rows)"
  using assms pg_wfD(8) [OF assms(1)] by (intro collect_rows_all) (auto simp: result_of_row)

section \<open>Journals\<close>

lemma sort_again: "sort_key f (sort_key f xs @ ys) = sort_key f (xs @ ys)"
proof (rule properties_for_sort_key [symmetric])
  show "mset (sort_key f (sort_key f xs @ ys)) = mset (xs @ ys)" by simp
  show "filter (\<lambda>x. f k = f x) (sort_key f (sort_key f xs @ ys)) = filter (\<lambda>x. f k = f x) (xs @ ys)" for k
    using sort_key_stable [where f = f and k = "f k"] by (simp add: eq_commute [of "f k"])
  show "sorted (map f (sort_key f (sort_key f xs @ ys)))" by (rule sorted_sort_key)
qed

lemma steps_distinct:
  assumes "pg_wf s"
  shows "inj_on step_seq (set (map sp_step (filter (\<lambda>r. sp_job_id r = i) (pg_steps s))))"
  using pg_wfD(9) [OF assms] by (force simp: distinct_map inj_on_def step_key_def)

lemma steps_read:
  assumes "pg_wf s"
  shows "map sp_step (sort_key (\<lambda>r. step_seq (sp_step r)) (scan E s (filter (\<lambda>r. sp_job_id r = i) (pg_steps s)))) =
    aw_steps (pg_abs s) i"
proof -
  let ?rows = "filter (\<lambda>r. sp_job_id r = i) (pg_steps s)"
  let ?out = "map sp_step (sort_key (\<lambda>r. step_seq (sp_step r)) (scan E s ?rows))"
  have "sort_key step_seq (map sp_step ?rows) = ?out"
  proof (rule sort_key_inj_key_eq [OF _ steps_distinct [OF assms]])
    have "mset ?out = image_mset sp_step (mset (scan E s ?rows))" by simp
    then show "mset (map sp_step ?rows) = mset ?out" by (simp only: mset_scan mset_map)
    show "sorted (map step_seq ?out)"
      using sorted_sort_key [of "\<lambda>r. step_seq (sp_step r)" "scan E s ?rows"] by (simp add: comp_def)
  qed
  then show ?thesis by (simp add: pg_abs_def)
qed

lemma step_known:
  "step_key \<lparr>sp_job_id = i, sp_step = st\<rparr> \<in> step_key ` set (pg_steps s) \<longleftrightarrow>
   step_seq st \<in> step_seq ` set (aw_steps (pg_abs s) i)"
  by (force simp: pg_abs_def step_key_def)

lemma step_added:
  assumes "pg_wf s" and "step_key \<lparr>sp_job_id = i, sp_step = st\<rparr> \<notin> step_key ` set (pg_steps s)" and "i \<in> jobs_of s"
  defines "s1 \<equiv> s\<lparr>pg_steps := pg_steps s @ [\<lparr>sp_job_id = i, sp_step = st\<rparr>]\<rparr>"
  shows "pg_wf s1"
    and "pg_abs s1 = (pg_abs s)\<lparr>aw_steps := (aw_steps (pg_abs s))(i := journal_insert st (aw_steps (pg_abs s) i))\<rparr>"
proof -
  show "pg_wf s1" using assms(1,2,3) unfolding s1_def by (auto simp: pg_wf_def id_sets)
  have "journal_insert st (aw_steps (pg_abs s) i) =
      sort_key step_seq (map sp_step (filter (\<lambda>r. sp_job_id r = i) (pg_steps s)) @ [st])"
    using assms(2) unfolding step_known by (simp add: journal_insert_def) (simp add: pg_abs_def sort_again)
  then show "pg_abs s1 =
      (pg_abs s)\<lparr>aw_steps := (aw_steps (pg_abs s))(i := journal_insert st (aw_steps (pg_abs s) i))\<rparr>"
    by (simp add: pg_abs_def s1_def fun_eq_iff)
qed

section \<open>Delivered URLs\<close>

lemma result_url: "result_row_ok r \<Longrightarrow> sr_url (result_of r) = sw_url r"
  by (auto simp: result_row_ok_def result_of_def result_from_row_def split: sum.splits)

lemma delivered_rows:
  assumes wf: "pg_wf s"
  shows "sw_url ` {r \<in> set (pg_results s). sw_job_id r \<in>
      jb_id ` set (filter (\<lambda>j. jb_recurring_search_id j = Some rs) (pg_jobs s))} = delivered_urls (pg_abs s) rs"
proof -
  have runs: "(\<exists>j. aw_jobs (pg_abs s) i = Some j \<and> job_recurring_search_id j = Some rs) \<longleftrightarrow>
      i \<in> jb_id ` set (filter (\<lambda>j. jb_recurring_search_id j = Some rs) (pg_jobs s))" for i
    by (force simp: table_Some [OF pg_wfD(6) [OF wf]] job_fields(5) [OF wf])
  have results: "set (aw_results (pg_abs s) i) = result_of ` {r \<in> set (pg_results s). sw_job_id r = i}" for i
    by (auto simp: pg_abs_def)
  have url: "sr_url (result_of r) = sw_url r" if "r \<in> set (pg_results s)" for r
    using pg_wfD(8) [OF wf] that by (simp add: result_url)
  have "delivered_urls (pg_abs s) rs =
      {sr_url r | r i. i \<in> jb_id ` set (filter (\<lambda>j. jb_recurring_search_id j = Some rs) (pg_jobs s)) \<and>
        r \<in> set (aw_results (pg_abs s) i)}"
    unfolding delivered_urls_def runs [symmetric] by blast
  also have "\<dots> = sw_url ` {r \<in> set (pg_results s). sw_job_id r \<in>
      jb_id ` set (filter (\<lambda>j. jb_recurring_search_id j = Some rs) (pg_jobs s))}"
    unfolding results using url by force
  finally show ?thesis ..
qed

lemma set_collated: "set (collated E urls) = set urls" "distinct (collated E urls) = distinct urls"
  "length (collated E urls) = length urls"
  by (simp_all add: collated_def)

lemma recent_rows:
  fixes rs :: uuid and limit :: "32 word" and E :: pg_env
  assumes wf: "pg_wf s"
  defines "urls \<equiv> remdups (map sw_url (filter (\<lambda>r. sw_job_id r \<in>
      jb_id ` set (filter (\<lambda>j. jb_recurring_search_id j = Some rs) (pg_jobs s))) (pg_results s)))"
  defines "r \<equiv> take (unat limit) (collated E urls)"
  shows "distinct r" "set r \<subseteq> delivered_urls (pg_abs s) rs" "length r \<le> unat limit"
    "length r < unat limit \<Longrightarrow> set r = delivered_urls (pg_abs s) rs"
proof -
  have all: "set (collated E urls) = delivered_urls (pg_abs s) rs"
    using delivered_rows [OF wf, of rs] by (simp add: set_collated urls_def)
  show "distinct r" by (simp add: r_def set_collated urls_def)
  show "set r \<subseteq> delivered_urls (pg_abs s) rs" unfolding r_def all [symmetric] by (rule set_take_subset)
  show "length r \<le> unat limit" by (simp add: r_def)
  assume "length r < unat limit"
  then have "r = collated E urls" by (simp add: r_def)
  then show "set r = delivered_urls (pg_abs s) rs" using all by simp
qed

section \<open>The port\<close>

lemmas pg_job_defs = pg_job_insert_def pg_job_update_def pg_job_find_def pg_job_list_def
  pg_count_created_since_def pg_list_unfinished_def pg_delete_finished_def pg_job_delete_all_def
  pg_store_results_def pg_results_for_def pg_append_step_def pg_steps_for_def pg_clear_steps_def
  pg_add_usage_def pg_recent_urls_def delete_jobs_def

lemma stale_rows:
  fixes cutoff :: time
  assumes wf: "pg_wf s"
  defines "rows \<equiv> filter (\<lambda>r. (jb_status r = lit ''pending'' \<or> jb_status r = lit ''running'') \<and>
      jb_created_at r < cutoff) (pg_jobs s)"
  shows "distinct (map job_id (map job_of (scan E s rows)))"
    and "j \<in> set (map job_of (scan E s rows)) \<longleftrightarrow> aw_jobs (pg_abs s) (job_id j) = Some j \<and> stale cutoff j"
proof -
  have sub: "set rows \<subseteq> set (pg_jobs s)" by (auto simp: rows_def)
  have ids: "map job_id (map job_of (scan E s rows)) = map jb_id (scan E s rows)"
    using sub by (auto simp: job_fields(1) [OF wf])
  have "distinct (map jb_id rows)" unfolding rows_def by (rule distinct_filter_map) (rule pg_wfD(6) [OF wf])
  moreover have "mset (map jb_id (scan E s rows)) = mset (map jb_id rows)" by simp
  ultimately show "distinct (map job_id (map job_of (scan E s rows)))"
    unfolding ids by (metis mset_eq_imp_distinct_iff)
  have "rows = filter (\<lambda>r. stale cutoff (job_of r)) (pg_jobs s)"
    unfolding rows_def using job_rows_ok [OF wf] by (intro filter_cong refl) (simp add: stale_row)
  then show "j \<in> set (map job_of (scan E s rows)) \<longleftrightarrow> aw_jobs (pg_abs s) (job_id j) = Some j \<and> stale cutoff j"
    by (auto simp: table_Some [OF pg_wfD(6) [OF wf]] job_fields(1) [OF wf])
qed

lemma jobs_listed:
  assumes "pg_wf s"
  shows "listing (\<lambda>j. job_user_id j = u) (\<lambda>j. Reverse (job_created_at j)) (aw_jobs (pg_abs s))
    (map job_of (sort_key (\<lambda>r. Reverse (jb_created_at r)) (scan E s (filter (\<lambda>r. jb_user_id r = u) (pg_jobs s)))))"
  unfolding pg_tables
  by (rule table_listing [OF pg_wfD(6) [OF assms], where key' = job_id and P = "\<lambda>r. jb_user_id r = u"])
    (simp_all add: job_fields [OF assms])

interpretation pg_job: job_port now_utc "pg_job_repo E fadd" pg_wf pg_abs fadd "pg_stored E"
proof (unfold_locales, unfold pg_job_repo_def job_repo.simps pg_job_defs, goal_cases)
  case (1 s)
  then show ?case by (simp add: jobs_keyed)
next
  case (2 j)
  show ?case
    by (rule pg_exec_spec)
      (auto simp: pg_abs_update add_job_def table_insert pg_wfD(6) job_row_exact jobs_of_def job_refs_ok_def
        intro!: wf_add(3) split: if_splits option.splits)
next
  case (3 j)
  show ?case
    using jobs_updated by (intro pg_exec_spec) (auto simp: wf_jobs simp del: pg_tables)
next
  case (4 i)
  show ?case
  proof (rule pg_read_spec, goal_cases)
    case (1 s y)
    let ?row = "find (\<lambda>r. jb_id r = i) (pg_jobs s)"
    have "job_from_row r = Inr (job_of r)" if "?row = Some r" for r
      using that by (auto simp: find_Some_iff intro!: job_of_row job_rows_ok [OF 1(1)])
    then have "y = map_option job_of ?row" using 1(2) by (cases ?row) auto
    then show ?case by (simp add: table_find)
  qed
next
  case (5 u)
  show ?case
    using jobs_listed by (intro pg_read_spec) (auto simp: collect_jobs)
next
  case (6 u since)
  show ?case
    by (rule pg_query_spec) (auto simp: jobs_since_def job_fields intro!: jobs_count)
next
  case (7 cutoff)
  show ?case
    using stale_rows by (intro pg_read_spec) (auto simp: collect_jobs simp del: map_map)
next
  case (8 cutoff)
  show ?case
    by (rule pg_exec_spec)
      (auto simp: drop_jobs_where_wf purgeable_row job_rows_ok intro!: jobs_count drop_jobs_where_abs)
next
  case (9 u)
  show ?case
    by (rule pg_exec_spec)
      (auto simp: drop_jobs_where_wf job_fields intro!: jobs_count drop_jobs_where_abs)
next
  case (10 i xs)
  show ?case
    by (rule pg_transaction_spec, erule store_results_Inr) (simp add: results_stored)
next
  case (11 i)
  show ?case
    by (rule pg_read_spec) (auto simp: collect_results pg_abs_def)
next
  case (12 i st)
  show ?case
    using step_added
    by (intro pg_exec_spec) (auto simp: Let_def step_known journal_insert_def simp del: pg_tables split: if_splits)
next
  case (13 i)
  show ?case by (rule pg_query_spec) (simp add: steps_read)
next
  case (14 i)
  show ?case
    by (rule pg_exec_spec)
      (auto simp: wf_delete pg_abs_def forget_steps_def fun_eq_iff filter_gone [where gone = "{i}", simplified])
next
  case (15 i d)
  show ?case
    by (rule pg_exec_spec)
      (auto simp: pg_abs_update usage_added table_find [symmetric] split: if_splits option.splits)
next
  case (16 rs limit)
  show ?case
    using recent_rows by (intro pg_query_spec) (auto simp: Let_def)
qed

end
