(* ===== verification/Leader_Lock.thy ===== *)
theory Leader_Lock
  imports Prelude
begin

text \<open>
  \<open>PostgresLeaderLock\<close> (\<open>adapters/persistence/postgres.rs\<close>): replicas of the backend agree on
  which of them runs the background loop through a session advisory lock of the database. The
  lock belongs to a session and may be taken several times by the same one; it is freed when the
  session ends. A replica draws sessions from its own pool and keeps the one it leads with.
\<close>

section \<open>The advisory lock\<close>

text \<open>The session that has the lock, and how many times it took it.\<close>

type_synonym advisory = "(nat \<times> nat) option"

fun try_advisory_lock :: "nat \<Rightarrow> advisory \<Rightarrow> bool \<times> advisory" where
  "try_advisory_lock c None = (True, Some (c, 1))"
| "try_advisory_lock c (Some (h, n)) = (if h = c then (True, Some (h, n + 1)) else (False, Some (h, n)))"

fun advisory_unlock :: "nat \<Rightarrow> advisory \<Rightarrow> advisory" where
  "advisory_unlock c None = None"
| "advisory_unlock c (Some (h, n)) =
     (if h = c then (if n \<le> 1 then None else Some (h, n - 1)) else Some (h, n))"

definition free_sessions :: "(nat \<Rightarrow> bool) \<Rightarrow> advisory \<Rightarrow> advisory" where
  "free_sessions ended l =
     (case l of None \<Rightarrow> None | Some (h, n) \<Rightarrow> if ended h then None else Some (h, n))"

text \<open>A statement may be answered, run without its answer arriving, or not run.\<close>

datatype reply = Answered | AnswerLost | NotRun

text \<open>
  \<open>acquire\<close> and \<open>release\<close>, on the lock and the replica's \<open>held\<close> session; \<open>conn\<close> is what the
  pool gives. An unlock that fails is logged and the session goes back to the pool.
\<close>

definition pg_acquire :: "nat option \<Rightarrow> reply \<Rightarrow> advisory \<times> nat option \<Rightarrow> bool \<times> advisory \<times> nat option" where
  "pg_acquire conn reply state =
     (case state of (l, held) \<Rightarrow>
        case conn of
          None \<Rightarrow> (False, l, held)
        | Some c \<Rightarrow>
            (case reply of
               NotRun \<Rightarrow> (False, l, held)
             | AnswerLost \<Rightarrow> (False, snd (try_advisory_lock c l), held)
             | Answered \<Rightarrow>
                 (case try_advisory_lock c l of
                    (acquired, l') \<Rightarrow> (acquired, l', if acquired then Some c else held))))"

definition pg_release :: "reply \<Rightarrow> advisory \<times> nat option \<Rightarrow> advisory \<times> nat option" where
  "pg_release reply state =
     (case state of (l, held) \<Rightarrow>
        case held of
          None \<Rightarrow> (l, None)
        | Some c \<Rightarrow> (if reply = NotRun then l else advisory_unlock c l, None))"

section \<open>Replicas\<close>

text \<open>
  The background loop of a replica waits for its next tick, works as the leader, has been ended
  by a panic while the process goes on serving requests, or is down with its process.
\<close>

datatype loop_phase = Waiting | Leading | Stopped | Down

record lock_world =
  lw_lock :: advisory
  lw_sessions :: "nat \<Rightarrow> nat option"
  lw_next :: nat
  lw_held :: "nat \<Rightarrow> nat option"
  lw_phase :: "nat \<Rightarrow> loop_phase"

definition lock_start :: lock_world where
  "lock_start = \<lparr>lw_lock = None, lw_sessions = (\<lambda>_. None), lw_next = 0, lw_held = (\<lambda>_. None),
     lw_phase = (\<lambda>_. Waiting)\<rparr>"

datatype lock_event =
    Connect nat | Acquire nat | Release nat | Panic nat | Disconnect nat | Crash nat | Restart nat

text \<open>
  \<open>losing\<close>: whether a session may end while its replica leads with it. Idle sessions may always
  end. A panic drops the task with its \<open>held\<close> session, which goes back to the pool as it is.
\<close>

definition end_sessions :: "(nat \<Rightarrow> bool) \<Rightarrow> lock_world \<Rightarrow> lock_world" where
  "end_sessions ended lw =
     lw\<lparr>lw_lock := free_sessions ended (lw_lock lw),
        lw_sessions := (\<lambda>c. if ended c then None else lw_sessions lw c)\<rparr>"

inductive lock_step :: "bool \<Rightarrow> lock_event \<Rightarrow> lock_world \<Rightarrow> lock_world \<Rightarrow> bool" for losing where
  connect: "lw_phase lw r \<noteq> Down \<Longrightarrow>
    lock_step losing (Connect r) lw
      (lw\<lparr>lw_sessions := (lw_sessions lw)(lw_next lw \<mapsto> r), lw_next := lw_next lw + 1\<rparr>)"
| acquire: "lw_phase lw r = Waiting \<Longrightarrow>
    (case conn of None \<Rightarrow> True | Some c \<Rightarrow> lw_sessions lw c = Some r \<and> lw_held lw r \<noteq> Some c) \<Longrightarrow>
    pg_acquire conn reply (lw_lock lw, lw_held lw r) = (leads, l, h) \<Longrightarrow>
    lock_step losing (Acquire r) lw
      (lw\<lparr>lw_lock := l, lw_held := (lw_held lw)(r := h),
          lw_phase := (lw_phase lw)(r := if leads then Leading else Waiting)\<rparr>)"
| release: "lw_phase lw r = Leading \<Longrightarrow>
    pg_release reply (lw_lock lw, lw_held lw r) = (l, h) \<Longrightarrow>
    lock_step losing (Release r) lw
      (lw\<lparr>lw_lock := l, lw_held := (lw_held lw)(r := h), lw_phase := (lw_phase lw)(r := Waiting)\<rparr>)"
| panic: "lw_phase lw r = Leading \<Longrightarrow>
    lock_step losing (Panic r) lw 
      (lw\<lparr>lw_held := (lw_held lw)(r := None), lw_phase := (lw_phase lw)(r := Stopped)\<rparr>)"
| disconnect: "losing \<or> (\<forall>r. lw_held lw r \<noteq> Some c) \<Longrightarrow>
    lock_step losing (Disconnect c) lw (end_sessions (\<lambda>x. x = c) lw)"
| crash: "lock_step losing (Crash r) lw
      ((end_sessions (\<lambda>x. lw_sessions lw x = Some r) lw)
         \<lparr>lw_held := (lw_held lw)(r := None), lw_phase := (lw_phase lw)(r := Down)\<rparr>)"
| restart: "lw_phase lw r = Down \<Longrightarrow>
    lock_step losing (Restart r) lw (lw\<lparr>lw_phase := (lw_phase lw)(r := Waiting)\<rparr>)"

definition lock_reachable :: "bool \<Rightarrow> lock_world \<Rightarrow> bool" where
  "lock_reachable losing lw \<longleftrightarrow> (\<lambda>a b. \<exists>e. lock_step losing e a b)\<^sup>*\<^sup>* lock_start lw"

lemma lock_reachable_start [simp]: "lock_reachable losing lock_start"
  by (simp add: lock_reachable_def)

lemma lock_reachable_step: "lock_reachable losing a \<Longrightarrow> lock_step losing e a b \<Longrightarrow> lock_reachable losing b"
  unfolding lock_reachable_def by (rule rtranclp.rtrancl_into_rtrancl) blast+

section \<open>The invariant\<close>

text \<open>The lock belongs to a live session, and a leader has it through a session of its own.\<close>

definition sessions_ok :: "lock_world \<Rightarrow> bool" where
  "sessions_ok lw \<longleftrightarrow>
     (\<forall>c. lw_sessions lw c \<noteq> None \<longrightarrow> c < lw_next lw) \<and>
     (\<forall>c n. lw_lock lw = Some (c, n) \<longrightarrow> lw_sessions lw c \<noteq> None \<and> 1 \<le> n) \<and>
     (\<forall>r. lw_phase lw r \<noteq> Leading \<longrightarrow> lw_held lw r = None)"

definition leads_with :: "lock_world \<Rightarrow> nat \<Rightarrow> nat \<Rightarrow> bool" where
  "leads_with lw r c \<longleftrightarrow>
     lw_held lw r = Some c \<and> lw_sessions lw c = Some r \<and> (\<exists>n. lw_lock lw = Some (c, n))"

definition leaders_ok :: "lock_world \<Rightarrow> bool" where
  "leaders_ok lw \<longleftrightarrow>
     (\<forall>r. lw_phase lw r = Leading \<longrightarrow> (\<exists>c. leads_with lw r c))"

lemma leads_alone: "leads_with lw r c \<Longrightarrow> leads_with lw r' c' \<Longrightarrow> r = r'"
  by (auto simp: leads_with_def)

lemma try_lock_cases:
  assumes "try_advisory_lock c l = (b, l')"
  shows "(b \<and> (\<exists>n. l' = Some (c, n) \<and> 1 \<le> n)) \<or> (\<not> b \<and> l' = l)"
  using assms by (cases "(c, l)" rule: try_advisory_lock.cases) (auto split: if_splits)

lemma acquire_cases:
  assumes "pg_acquire conn reply (l, h) = (leads, l', h')"
  obtains (unchanged) "\<not> leads" "l' = l" "h' = h"
    | (lost) c n where "\<not> leads" "conn = Some c" "l' = Some (c, n)" "1 \<le> n" "h' = h"
    | (led) c n where "leads" "conn = Some c" "l' = Some (c, n)" "1 \<le> n" "h' = Some c"
proof -
  consider "conn = None" | c where "conn = Some c" by (cases conn) auto
  then show thesis
  proof cases
    case 1
    then show thesis using assms unchanged by (simp add: pg_acquire_def)
  next
    case (2 c)
    obtain b l1 where t: "try_advisory_lock c l = (b, l1)" by fastforce
    from try_lock_cases [OF t] show thesis
      using 2 t assms unchanged lost led
      by (cases reply) (auto simp: pg_acquire_def)
  qed
qed

lemma release_cases:
  assumes "pg_release reply (l, h) = (l', h')"
  shows "h' = None" and "l' = l \<or> (\<exists>c. h = Some c \<and> l' = advisory_unlock c l)"
  using assms by (auto simp: pg_release_def split: option.splits if_splits)

lemma unlock_some: "advisory_unlock c l = Some (h, n) \<Longrightarrow> \<exists>m. l = Some (h, m) \<and> (1 \<le> n \<or> m = n)"
  by (cases "(c, l)" rule: advisory_unlock.cases) (auto split: if_splits)

lemma sessions_step:
  assumes "lock_step losing e lw lw'" and "sessions_ok lw"
  shows "sessions_ok lw'"
  using assms(1)
proof cases
  case (acquire r conn reply leads l h)
  from acquire(5) show ?thesis
    by (cases rule: acquire_cases)
      (use assms(2) acquire(1-4) in \<open>auto simp: sessions_ok_def split: option.splits\<close>)
next
  case (release r reply l h)
  have h: "h = None" by (rule release_cases(1) [OF release(4)])
  have l: "\<exists>m. lw_lock lw = Some (c, m) \<and> (1 \<le> n \<or> m = n)" if "l = Some (c, n)" for c n
    using release_cases(2) [OF release(4)] unfolding that by (metis unlock_some)
  have "lw_sessions lw c \<noteq> None \<and> 1 \<le> n" if "l = Some (c, n)" for c n
    using l [OF that] assms(2) unfolding sessions_ok_def by blast
  then show ?thesis
    using assms(2) release(2) h by (simp add: sessions_ok_def)
qed (use assms(2) in \<open>auto simp: sessions_ok_def end_sessions_def free_sessions_def split: option.splits if_splits\<close>)

lemma leaders_step:
  assumes step: "lock_step False e lw lw'" and ok: "sessions_ok lw" "leaders_ok lw"
  shows "leaders_ok lw'"
  unfolding leaders_ok_def
proof (intro allI impI)
  fix q
  assume q: "lw_phase lw' q = Leading"
  have old: "\<exists>c. leads_with lw q c" if "lw_phase lw q = Leading"
    using ok(2) that unfolding leaders_ok_def by blast
  have live: "c < lw_next lw" if "leads_with lw q c" for c
    using ok(1) that by (auto simp: leads_with_def sessions_ok_def)
  from step show "\<exists>c. leads_with lw' q c"
  proof cases
    case (connect r)
    then obtain c where "leads_with lw q c" using q old by auto
    with live connect(2) show ?thesis by (intro exI [of _ c]) (auto simp: leads_with_def)
  next
    case (acquire r conn reply leads l h)
    from acquire(5) show ?thesis
    proof (cases rule: acquire_cases)
      case unchanged
      then obtain c where "leads_with lw q c" "q \<noteq> r" using q old acquire(2,3) by (auto split: if_splits)
      with unchanged acquire(2) show ?thesis by (auto simp: leads_with_def)
    next
      case (lost c n)
      then obtain c' where c': "leads_with lw q c'" "q \<noteq> r" using q old acquire(2,3) by (auto split: if_splits)
      have "c' = c \<or> l = lw_lock lw"
        using acquire(5) lost(2) c'(1)
        by (auto simp: pg_acquire_def leads_with_def split: reply.splits prod.splits if_splits)
      with c' lost acquire(2,4) show ?thesis by (auto simp: leads_with_def)
    next
      case (led c n)
      show ?thesis
      proof (cases "q = r")
        case True
        with led acquire(2,4) show ?thesis by (auto simp: leads_with_def)
      next
        case False
        then obtain c' where c': "leads_with lw q c'" using q old acquire(2) by auto
        have "c' = c"
          using acquire(5) led(1,2) c'
          by (auto simp: pg_acquire_def leads_with_def split: reply.splits prod.splits if_splits)
        with c' led acquire(4) False show ?thesis by (auto simp: leads_with_def)
      qed
    qed
  next
    case (release r reply l h)
    obtain c where r: "leads_with lw r c" using ok(2) release(3) by (auto simp: leaders_ok_def)
    have "q \<noteq> r" using q release(2) by auto
    then show ?thesis using q old release(2) leads_alone [OF r] by (auto split: if_splits)
  next
    case (panic r)
    then show ?thesis using q old ok(2) by (auto simp: leaders_ok_def leads_with_def split: if_splits)
  next
    case (disconnect c)
    then obtain c' where "leads_with lw q c'" using q old by (auto simp: end_sessions_def)
    with disconnect show ?thesis
      by (intro exI [of _ c']) (auto simp: leads_with_def end_sessions_def free_sessions_def)
  next
    case (crash r)
    then obtain c where "leads_with lw q c" "q \<noteq> r" using q old by (auto simp: end_sessions_def split: if_splits)
    with crash show ?thesis
      by (intro exI [of _ c]) (auto simp: leads_with_def end_sessions_def free_sessions_def)
  next
    case (restart r)
    then show ?thesis using q old by (auto simp: leads_with_def split: if_splits)
  qed
qed

lemma reachable_sessions: "lock_reachable losing lw \<Longrightarrow> sessions_ok lw"
  unfolding lock_reachable_def
  by (induction rule: rtranclp_induct) (auto simp: sessions_ok_def lock_start_def dest: sessions_step)

lemma reachable_leaders:
  assumes "lock_reachable False lw"
  shows "leaders_ok lw"
  using assms unfolding lock_reachable_def
proof (induction rule: rtranclp_induct)
  case base
  show ?case by (simp add: leaders_ok_def lock_start_def)
next
  case (step lw lw')
  from step(1) have "sessions_ok lw" by (intro reachable_sessions) (simp add: lock_reachable_def)
  with step show ?case by (auto intro: leaders_step)
qed

section \<open>An abandoned lock\<close>

text \<open>
  A session of \<open>r0\<close> has the lock more often than \<open>r0\<close> will give it back: after a panic, after an
  unlock that was not run, or after an acquisition whose answer was lost.
\<close>

definition abandoned :: "nat \<Rightarrow> nat \<Rightarrow> lock_world \<Rightarrow> bool" where
  "abandoned r0 c lw \<longleftrightarrow> lw_sessions lw c = Some r0 \<and>
     (\<exists>n. lw_lock lw = Some (c, n) \<and>
          (if lw_held lw r0 = Some c \<and> lw_phase lw r0 = Leading then 1 else 0) < n)"

lemma abandoned_alone:
  assumes "abandoned r0 c lw" and "leaders_ok lw" and "lw_phase lw r = Leading"
  shows "r = r0"
proof -
  obtain c' where "leads_with lw r c'" using assms(2,3) unfolding leaders_ok_def by blast
  then show ?thesis using assms(1) by (auto simp: abandoned_def leads_with_def)
qed

lemma abandoned_step:
  assumes step: "lock_step losing e lw lw'" and left: "abandoned r0 c lw"
    and ok: "sessions_ok lw" "leaders_ok lw" and e: "e \<noteq> Crash r0" "e \<noteq> Disconnect c"
  shows "abandoned r0 c lw'"
  using step
proof cases
  case (connect r)
  then show ?thesis using left ok(1) by (auto simp: abandoned_def sessions_ok_def)
next
  case (acquire r conn reply leads l h)
  obtain n where n: "lw_sessions lw c = Some r0" "lw_lock lw = Some (c, n)" "0 < n"
    using left by (auto simp: abandoned_def split: if_splits)
  have idle: "lw_held lw r = None" using ok(1) acquire(3) by (simp add: sessions_ok_def)
  have "(l = Some (c, n) \<and> \<not> leads) \<or> (l = Some (c, n + 1) \<and> r = r0)"
    using acquire(4,5) n
    by (auto simp: pg_acquire_def split: option.splits reply.splits prod.splits if_splits)
  then show ?thesis
  proof
    assume "l = Some (c, n) \<and> \<not> leads"
    then show ?thesis
      using left acquire(2,3) n by (auto simp: abandoned_def split: if_splits)
  next
    assume "l = Some (c, n + 1) \<and> r = r0"
    then show ?thesis using acquire(2) n by (auto simp: abandoned_def)
  qed
next
  case (release r reply l h)
  have "r = r0" by (rule abandoned_alone [OF left ok(2) release(3)])
  moreover obtain c' where "leads_with lw r c'" using ok(2) release(3) unfolding leaders_ok_def by blast
  ultimately have "lw_held lw r0 = Some c" "lw_phase lw r0 = Leading"
    using left release(3) by (auto simp: abandoned_def leads_with_def)
  then show ?thesis
    using left release(2,4) \<open>r = r0\<close>
    by (auto simp: abandoned_def pg_release_def split: if_splits)
next
  case (panic r)
  then show ?thesis using left by (auto simp: abandoned_def split: if_splits)
next
  case (disconnect c')
  then show ?thesis using left e by (auto simp: abandoned_def end_sessions_def free_sessions_def)
next
  case (crash r)
  then show ?thesis using left e by (auto simp: abandoned_def end_sessions_def free_sessions_def)
next
  case (restart r)
  then show ?thesis using left by (auto simp: abandoned_def split: if_splits)
qed

lemma abandoned_for_good:
  assumes "(\<lambda>a b. \<exists>e. e \<noteq> Crash r0 \<and> e \<noteq> Disconnect c \<and> lock_step False e a b)\<^sup>*\<^sup>* lw lw'"
    and "abandoned r0 c lw" and "lock_reachable False lw"
  shows "abandoned r0 c lw' \<and> lock_reachable False lw'"
  using assms(1)
proof (induction rule: rtranclp_induct)
  case base
  show ?case using assms(2,3) by simp
next
  case (step a b)
  then obtain e where e: "e \<noteq> Crash r0" "e \<noteq> Disconnect c" "lock_step False e a b" by blast
  have "lock_reachable False b" using step.IH e(3) by (blast intro: lock_reachable_step)
  with abandoned_step [OF e(3) _ _ _ e(1,2)] step.IH reachable_sessions reachable_leaders show ?case by blast
qed

section \<open>Recovery\<close>

lemma acquire_free:
  assumes "lw_phase lw r = Waiting" and "lw_held lw r = None" and "lw_sessions lw c = Some r"
    and "lw_lock lw = None \<or> (\<exists>n. lw_lock lw = Some (c, n))"
  shows "\<exists>lw'. lock_step losing (Acquire r) lw lw' \<and> lw_phase lw' r = Leading"
proof -
  obtain n where "try_advisory_lock c (lw_lock lw) = (True, Some (c, n))" using assms(4) by auto
  then have "pg_acquire (Some c) Answered (lw_lock lw, lw_held lw r) = (True, Some (c, n), Some c)"
    by (simp add: pg_acquire_def)
  with lock_step.acquire [OF assms(1) _ this] assms(2,3) show ?thesis by fastforce
qed

lemma after_crash:
  assumes ok: "sessions_ok lw" and r: "lw_phase lw r = Waiting" "lw_sessions lw c = Some r" "dead \<noteq> r"
    and holder: "\<And>c' n. lw_lock lw = Some (c', n) \<Longrightarrow> c' = c \<or> lw_sessions lw c' = Some dead"
  shows "\<exists>lw1 lw2. lock_step losing (Crash dead) lw lw1 \<and> lock_step losing (Acquire r) lw1 lw2 \<and>
    lw_phase lw2 r = Leading"
proof -
  let ?lw1 = "(end_sessions (\<lambda>x. lw_sessions lw x = Some dead) lw)
      \<lparr>lw_held := (lw_held lw)(dead := None), lw_phase := (lw_phase lw)(dead := Down)\<rparr>"
  have "lw_held lw r = None" using ok r(1) by (simp add: sessions_ok_def)
  moreover have "lw_lock ?lw1 = None \<or> (\<exists>n. lw_lock ?lw1 = Some (c, n))"
    using holder by (auto simp: end_sessions_def free_sessions_def split: option.split)
  ultimately have "\<exists>lw2. lock_step losing (Acquire r) ?lw1 lw2 \<and> lw_phase lw2 r = Leading"
    using r by (intro acquire_free) (simp_all add: end_sessions_def)
  with lock_step.crash show ?thesis by blast
qed

end
