(* ===== verification/Postgres_System.thy ===== *)
theory Postgres_System
  imports System Postgres_Jobs Leader_Lock
begin

text \<open>
  The server with PostgreSQL persistence (\<open>main.rs\<close> with \<open>DATABASE_URL\<close> set). The adapters that
  leave the process are those of \<open>Wiring\<close>; the use-case and system contracts are interpreted on
  the PostgreSQL repositories. Several replicas share one database, each with its own rate
  limiters and throttle.
\<close>

section \<open>The adapters\<close>

definition pg_out :: "'a out \<Rightarrow> (pg, 'a) port" where
  "pg_out m s = (case m (pg_calls s) of (r, cs) \<Rightarrow> (r, s\<lparr>pg_calls := pg_calls s @ cs\<rparr>))"

lemma pg_out_call_spec:
  assumes "\<And>h r cs. m h = (r, cs) \<Longrightarrow> P r cs"
  shows "call_spec pg_wf pg_abs (pg_out m) P"
  unfolding call_spec_def
proof (intro allI impI)
  fix s
  assume wf: "pg_wf s"
  obtain r cs where m: "m (pg_calls s) = (r, cs)" by fastforce
  have "pg_abs (s\<lparr>pg_calls := pg_calls s @ cs\<rparr>) = log_calls cs (pg_abs s)"
    by (simp add: pg_abs_def log_calls_def)
  then show "case pg_out m s of (r, s') \<Rightarrow>
      pg_wf s' \<and> (\<exists>cs. pg_abs s' = log_calls cs (pg_abs s) \<and> P r cs)"
    using assms [OF m] wf by (simp only: pg_out_def m prod.case pg_wf_clock) blast
qed

definition pg_services ::
  "pg_env \<Rightarrow> (f64 \<Rightarrow> f64 \<Rightarrow> f64) \<Rightarrow> runtime \<Rightarrow> net \<Rightarrow> app_config \<Rightarrow> (smtp_config \<Rightarrow> rstr option) \<Rightarrow>
   password_hasher \<Rightarrow> token_service \<Rightarrow> pg services" where
  "pg_services E fadd RT N cfg lettre_new H S =
     \<lparr>sv_users = pg_user_repo E, sv_jobs = pg_job_repo E fadd, sv_tokens = pg_token_repo E,
      sv_recurring = pg_search_repo E, sv_channels = pg_channel_repo E, sv_documents = pg_document_repo E,
      sv_audit = pg_audit E,
      sv_dispatch = (\<lambda>j urls. pg_out (app_dispatch RT N cfg j urls)),
      sv_digests = (\<lambda>url dg. pg_out (webhook_send RT N (app_webhook cfg) url dg)),
      sv_notify = (\<lambda>c dg. pg_out (app_notify lettre_new N cfg c dg)),
      sv_embed = (\<lambda>i name content. pg_out (app_embed RT N cfg i name content)),
      sv_hasher = H, sv_token_service = S, sv_ready = pg_ready E,
      sv_email_enabled = email_enabled lettre_new cfg, sv_internal_token = ac_internal_token cfg,
      sv_quota = word_of_nat (ac_daily_search_quota cfg),
      sv_refresh_ttl_days = ac_refresh_token_days cfg, sv_runtime = RT, sv_time_text = net_time_text N\<rparr>"

section \<open>The contracts\<close>

interpretation pg_jobs_out: job_dispatch_port
  "\<lambda>j urls. pg_out (app_dispatch RT N cfg j urls)" pg_wf pg_abs "app_dispatch_sent RT N cfg"
  for RT N cfg
  by unfold_locales (rule pg_out_call_spec, rule app_dispatch_sent)

interpretation pg_ingest: ingest_ports
  now_utc "pg_job_repo E fadd" "pg_search_repo E" "pg_channel_repo E"
  "\<lambda>url dg. pg_out (webhook_send RT N (app_webhook cfg) url dg)"
  "\<lambda>c dg. pg_out (app_notify lettre_new N cfg c dg)" pg_wf pg_abs fadd "pg_stored E"
  "app_hook_sent RT N cfg" "app_channel_sent lettre_new cfg" True
  for E fadd RT N cfg lettre_new
proof (unfold_locales, goal_cases)
  case (1 url dg)
  show ?case by (rule pg_out_call_spec) (simp add: app_hook_sent_def webhook_posted)
next
  case (2 c dg)
  show ?case by (rule pg_out_call_spec) (rule app_channel_sent)
qed simp_all

interpretation pg_account: account_ports now_utc "pg_user_repo E" "pg_token_repo E" "pg_audit E" pg_wf pg_abs
  for E
  by unfold_locales

interpretation pg_resource: resource_ports
  now_utc "pg_user_repo E" "pg_channel_repo E" "pg_token_repo E" "pg_job_repo E fadd" "pg_search_repo E"
  "pg_document_repo E" "\<lambda>i name content. pg_out (app_embed RT N cfg i name content)" pg_wf pg_abs fadd
  "pg_stored E" "app_embed_sent RT N cfg"
  for E fadd RT N cfg
  by unfold_locales (rule pg_out_call_spec, rule app_embed_sent)

interpretation pg_tick: tick_ports
  now_utc "pg_search_repo E" "pg_job_repo E fadd" "\<lambda>j urls. pg_out (app_dispatch RT N cfg j urls)" pg_wf pg_abs
  fadd "pg_stored E" "app_dispatch_sent RT N cfg" "pg_token_repo E" "pg_audit E"
  for E fadd RT N cfg
  by unfold_locales

interpretation pg_system: system_ports
  now_utc "pg_services E fadd RT N cfg lettre_new H S" pg_wf pg_abs fadd "pg_stored E"
  "app_dispatch_sent RT N cfg" "app_embed_sent RT N cfg" "app_hook_sent RT N cfg"
  "app_channel_sent lettre_new cfg" True
  for E fadd RT N cfg lettre_new H S
  by (rule system_ports.intro; unfold pg_services_def services.simps)
    (rule pg_account.account_ports_axioms pg_resource.resource_ports_axioms
      pg_ingest.ingest_ports_axioms pg_tick.tick_ports_axioms)+

section \<open>Replicas on one database\<close>

record deployment =
  dp_database :: pg
  dp_replicas :: "nat \<Rightarrow> pg server"
  dp_leader :: lock_world

definition deploy :: "(rstr \<Rightarrow> rstr option) \<Rightarrow> rate_limit_config \<Rightarrow> deployment" where
  "deploy open_url limits =
     \<lparr>dp_database = empty_pg, dp_replicas = (\<lambda>_. router_with_limits open_url limits empty_pg),
      dp_leader = lock_start\<rparr>"

definition on_replica :: "nat \<Rightarrow> (pg server \<Rightarrow> pg server) \<Rightarrow> deployment \<Rightarrow> deployment" where
  "on_replica i f d =
     (let srv = f ((dp_replicas d i)\<lparr>srv_store := dp_database d\<rparr>) in
      d\<lparr>dp_database := srv_store srv, dp_replicas := (dp_replicas d)(i := srv)\<rparr>)"

text \<open>
  What can happen: a replica serves a request; leadership changes hands, is lost or is given up;
  the leader does the work of a tick; a replica that was down starts again, with new limiters. A
  request is one step, and so is the work of a tick.
\<close>

inductive deploy_step ::
  "pg services \<Rightarrow> app_config \<Rightarrow> (rstr \<Rightarrow> rstr option) \<Rightarrow> rate_limit_config \<Rightarrow> (rstr \<Rightarrow> rstr + 32 word) \<Rightarrow>
   (request \<Rightarrow> response) \<Rightarrow> (std_duration \<Rightarrow> rstr + int) \<Rightarrow> time \<Rightarrow> bool \<Rightarrow> deployment \<Rightarrow> deployment \<Rightarrow> bool"
  for A cfg open_url limits incr fallback from_std utc_min losing where
  request: "lw_phase (dp_leader d) i \<noteq> Down \<Longrightarrow> fresh_request (sv_runtime A) q (pg_abs (dp_database d)) \<Longrightarrow>
    deploy_step A cfg open_url limits incr fallback from_std utc_min losing d
      (on_replica i (\<lambda>srv. snd (serve A incr fallback q srv)) d)"
| leadership: "lock_step losing e (dp_leader d) lw \<Longrightarrow>
    deploy_step A cfg open_url limits incr fallback from_std utc_min losing d (d\<lparr>dp_leader := lw\<rparr>)"
| tick: "lw_phase (dp_leader d) i = Leading \<Longrightarrow> fresh_tick dr (pg_abs (dp_database d)) \<Longrightarrow>
    deploy_step A cfg open_url limits incr fallback from_std utc_min losing d
      (d\<lparr>dp_database := snd (tick_work (sv_jobs A) (sv_recurring A) (sv_tokens A) (sv_audit A) (sv_dispatch A)
           cfg from_std utc_min dr (dp_database d))\<rparr>)"
| fresh_limits: "lw_phase (dp_leader d) i = Down \<Longrightarrow>
    deploy_step A cfg open_url limits incr fallback from_std utc_min losing d
      (d\<lparr>dp_replicas := (dp_replicas d)(i := router_with_limits open_url limits (dp_database d))\<rparr>)"

lemma deploy_step_kept:
  assumes step: "deploy_step (pg_services E fadd RT N cfg lettre_new H S) cfg open_url limits incr fallback
      from_std utc_min losing d d'"
    and ok: "store_ok pg_wf pg_abs (scheduler_quota cfg) (dp_database d)"
  shows "store_ok pg_wf pg_abs (scheduler_quota cfg) (dp_database d')"
proof -
  let ?A = "pg_services E fadd RT N cfg lettre_new H S"
  have quota: "sv_quota ?A = scheduler_quota cfg" by (simp add: pg_services_def scheduler_quota_def)
  from step show ?thesis
  proof cases
    case (request i q)
    let ?srv = "(dp_replicas d i)\<lparr>srv_store := dp_database d\<rparr>"
    have "store_ok pg_wf pg_abs (sv_quota ?A) (srv_store (snd (serve ?A incr fallback q ?srv)))"
      by (rule pg_system.serve_kept) (use ok quota request(3) in simp_all)
    then show ?thesis using quota request(1) by (simp add: on_replica_def Let_def)
  next
    case (tick i dr)
    from sat_run [OF pg_system.tick_good [OF _ tick(3) refl]] ok
    show ?thesis unfolding tick(1) by (simp add: store_ok_def)
  qed (use ok in simp_all)
qed

lemma empty_pg_wf: "pg_wf empty_pg"
  by (simp add: pg_wf_def empty_pg_def job_refs_ok_def)

lemma empty_pg_good: "good_world quota (pg_abs empty_pg)"
  by (simp add: good_world_def keyed_world_def keyed_def emails_unique_def tokens_inv_def quota_inv_def
      micros_ok_def quota_ok_def jobs_in_day_def cap_ok_def owned_searches_def links_ok_def attached_def
      chunks_ok_def journal_ok_def pg_abs_def empty_pg_def table_def)

lemma deploy_leader:
  "deploy_step A cfg open_url limits incr fallback from_std utc_min losing d d' \<Longrightarrow>
   dp_leader d' = dp_leader d \<or> (\<exists>e. lock_step losing e (dp_leader d) (dp_leader d'))"
  by (cases rule: deploy_step.cases, assumption) (auto simp: on_replica_def Let_def)

lemma deploy_reachable:
  assumes "(deploy_step (pg_services E fadd RT N cfg lettre_new H S) cfg open_url limits incr fallback
             from_std utc_min losing)\<^sup>*\<^sup>* (deploy open_url limits) d"
  shows "store_ok pg_wf pg_abs (scheduler_quota cfg) (dp_database d) \<and> lock_reachable losing (dp_leader d)"
  using assms
proof (induction rule: rtranclp_induct)
  case base
  show ?case by (simp add: deploy_def store_ok_def empty_pg_wf empty_pg_good)
next
  case (step d d')
  from deploy_leader [OF step(2)] step(3) have "lock_reachable losing (dp_leader d')"
    by (auto intro: lock_reachable_step)
  with deploy_step_kept [OF step(2)] step(3) show ?case by blast
qed

end
