(* ===== verification/Guarantees_Deployment.thy ===== *)
theory Guarantees_Deployment
  imports Postgres_System Guarantees_System
begin

text \<open>
  What holds of the backend in production: any number of replicas on one PostgreSQL database,
  whatever the database answers.
\<close>

section \<open>The shared store\<close>

text \<open>
  C2. With any number of replicas on one PostgreSQL database, requests and ticks in any order, any
  statement failing at any time and sessions ending, the database satisfies its constraints, no
  foreign key dangles, and what it stands for satisfies the invariants of the whole store: the
  ones of the in-memory server, from unique addresses to the daily quota and the lifecycle of jobs.
\<close>

theorem deployment_invariant:
  assumes "(deploy_step (pg_services E fadd RT N cfg lettre_new H S) cfg open_url limits incr fallback
             from_std utc_min losing)\<^sup>*\<^sup>* (deploy open_url limits) d"
  shows "pg_wf (dp_database d) \<and> good_world (scheduler_quota cfg) (pg_abs (dp_database d))"
  using deploy_reachable [OF assms] by (simp add: store_ok_def)

definition demo_pg_env :: pg_env where
  "demo_pg_env =
     \<lparr>pe_fault = (\<lambda>_. None), pe_order = (\<lambda>_. []), pe_message = (\<lambda>_. lit ''constraint''),
      pe_collate = (\<lambda>_. []), pe_jsonb = Some, pe_vector = (\<lambda>_. True),
      pe_nearest = (\<lambda>_ _ vs. Some [0..<length vs]), pe_double_range = (\<lambda>_ _. True), pe_uuid = word_of_nat\<rparr>"

definition demo_pg_services :: "pg services" where
  "demo_pg_services =
     pg_services demo_pg_env (+) demo_runtime demo_net demo_config (\<lambda>_. None) demo_hasher demo_tokens"

definition demo_deploy :: deployment where
  "demo_deploy = deploy (\<lambda>_. None) rate_limit_config_default"

abbreviation demo_deployed :: "deployment \<Rightarrow> deployment \<Rightarrow> bool" where
  "demo_deployed \<equiv> (deploy_step demo_pg_services demo_config (\<lambda>_. None) rate_limit_config_default
     (\<lambda>_. Inr 1) demo_fallback (\<lambda>_. Inr 0) 0 False)\<^sup>*\<^sup>*"

definition demo_join :: request where
  "demo_join = demo_register\<lparr>in_register := \<lparr>rgd_salt = [5], rgd_id = 7, rgd_now = 0\<rparr>\<rparr>"

definition demo_joined :: deployment where
  "demo_joined = on_replica 1 (\<lambda>srv. snd (serve demo_pg_services (\<lambda>_. Inr 1) demo_fallback demo_join srv)) demo_deploy"

lemma pg_abs_empty [simp]:
  "pg_users empty_pg = []" "pg_channels empty_pg = []" "pg_tokens empty_pg = []" "pg_jobs empty_pg = []"
  "pg_searches empty_pg = []" "pg_documents empty_pg = []" "table key conv [] = Map.empty"
  by (simp_all add: empty_pg_def table_def)

lemma demo_joined_reached: "demo_deployed demo_deploy demo_joined"
  unfolding demo_joined_def
  by (rule r_into_rtranclp, rule deploy_step.request)
    (simp_all add: demo_deploy_def deploy_def lock_start_def fresh_request_def fresh_hash_def
      fresh_search_id_def demo_join_def demo_register_def demo_request_def demo_launch_def)

lemma deployment_invariant_witness:
  "pg_wf (dp_database demo_joined) \<and> good_world 20 (pg_abs (dp_database demo_joined))"
  using deployment_invariant [OF demo_joined_reached [unfolded demo_pg_services_def demo_deploy_def]]
  by (simp add: scheduler_quota_def demo_config_def)

section \<open>Erasure\<close>



lemma demo_pg_runs [simp]:
  "pg_exec demo_pg_env [] op s = (case op (s\<lparr>pg_clock := pg_clock s + 1\<rparr>) of
      Inl e \<Rightarrow> (Inl (db_err (lit ''constraint'')), s\<lparr>pg_clock := pg_clock s + 1\<rparr>) | Inr (x, s') \<Rightarrow> (Inr x, s'))"
  by (simp add: pg_exec_def demo_pg_env_def Let_def split: sum.split)


lemma demo_pg_parts [simp]:
  "sv_users demo_pg_services = pg_user_repo demo_pg_env" "sv_runtime demo_pg_services = demo_runtime"
  "sv_hasher demo_pg_services = demo_hasher" "sv_token_service demo_pg_services = demo_tokens"
  by (simp_all add: demo_pg_services_def pg_services_def)

lemma demo_front [simp]:
  "srv_auth (dp_replicas demo_deploy i) = InMemoryLimiter (fixed_window_per_minute 10)"
  "srv_api (dp_replicas demo_deploy i) = InMemoryLimiter (fixed_window_per_minute 120)"
  "dp_database demo_deploy = empty_pg"
  by (simp_all add: demo_deploy_def deploy_def router_with_limits_def limiter_per_minute_def
      rate_limit_config_default_def)






section \<open>Rows\<close>

text \<open>
  C11. What is written to the database is read back: jobs, results, recurring searches, channels
  and documents come back from their rows as they were, every kind of status and mode included,
  up to the microseconds a timestamp keeps; a new job starts without spend.
\<close>

theorem rows_round_trip:
  "job_from_row (job_row_of j) =
     Inr (j\<lparr>job_usage := job_usage_default, job_created_at := now_utc (job_created_at j),
            job_completed_at := map_option now_utc (job_completed_at j)\<rparr>) \<and>
   result_from_row (result_row_of i raw r) =
     Inr (r\<lparr>sr_published_at := map_option now_utc (sr_published_at r), sr_raw := raw\<rparr>) \<and>
   recurring_from_row (search_row_of x) =
     x\<lparr>rs_created_at := now_utc (rs_created_at x), rs_last_run_at := map_option now_utc (rs_last_run_at x)\<rparr> \<and>
   channel_from_row (channel_row_of c) = c\<lparr>ch_created_at := now_utc (ch_created_at c)\<rparr> \<and>
   document_from_row (document_row_of d) = d\<lparr>doc_created_at := now_utc (doc_created_at d)\<rparr>"
  by (simp add: job_from_row_def job_row_of_def result_from_row_def result_row_of_def recurring_from_row_def
      search_row_of_def channel_from_row_def channel_row_of_def document_from_row_def document_row_of_def)

section \<open>Transactions\<close>

text \<open>
  C9. Storing the results of a job is all or nothing: when any of its statements fails, no row has
  changed; when it succeeds, the rows of the job are exactly the given results, in their order,
  and all other rows are what they were.
\<close>

theorem store_results_atomic:
  assumes "pg_store_results E i xs s = (r, s')"
  shows "case r of
      Inl e \<Rightarrow> s' = s\<lparr>pg_clock := pg_clock s'\<rparr>
    | Inr _ \<Rightarrow> \<exists>rows. s' = s\<lparr>pg_results := filter (\<lambda>r. sw_job_id r \<noteq> i) (pg_results s) @ rows,
                           pg_clock := pg_clock s'\<rparr> \<and>
                map result_from_row rows = map (\<lambda>x. Inr (pg_stored E x)) xs \<and>
                (\<forall>row \<in> set rows. sw_job_id row = i)"
proof (cases r)
  case (Inl e)
  then show ?thesis
    using assms by (auto simp: pg_store_results_def pg_transaction_def split: prod.splits sum.splits)
next
  case (Inr x)
  let ?m = "io_bind (pg_begin E) (\<lambda>_.
     io_bind (pg_exec E [] (\<lambda>s. Inr ((), s\<lparr>pg_results := filter (\<lambda>r. sw_job_id r \<noteq> i) (pg_results s)\<rparr>))) (\<lambda>_.
     io_bind (insert_results E i xs) (\<lambda>_. pg_commit E)))"
  have "?m s = (Inr x, s')"
    using assms Inr by (auto simp: pg_store_results_def pg_transaction_def split: prod.splits sum.splits)
  then show ?thesis
  proof (rule store_results_Inr)
    fix rows n
    assume rows: "\<forall>r \<in> set rows. sw_job_id r = i \<and> result_row_ok r"
      "map result_of rows = map (pg_stored E) xs"
      "s' = s\<lparr>pg_results := filter (\<lambda>r. sw_job_id r \<noteq> i) (pg_results s) @ rows, pg_clock := n\<rparr>"
    have "map result_from_row rows = map Inr (map result_of rows)"
      using rows(1) by (simp add: result_of_row)
    also have "\<dots> = map (\<lambda>x. Inr (pg_stored E x)) xs" unfolding rows(2) by simp
    finally show ?thesis using rows(1,3) Inr by auto
  qed
qed

definition demo_result :: "rstr \<Rightarrow> search_result" where
  "demo_result title =
     \<lparr>sr_title = title, sr_url = [117], sr_snippet = [], sr_published_at = None, sr_date_confidence = Unknown,
      sr_event_type = Other, sr_summary = None, sr_is_new = True, sr_raw = JNull\<rparr>"

lemma store_results_atomic_witness:
  "\<exists>e. fst (pg_store_results demo_pg_env 3 [demo_result [65], demo_result [0]] empty_pg) = Inl e \<and>
     (let s' = snd (pg_store_results demo_pg_env 3 [demo_result [65], demo_result [0]] empty_pg) in
      s' = empty_pg\<lparr>pg_clock := pg_clock s'\<rparr>)"
proof -
  let ?run = "pg_store_results demo_pg_env 3 [demo_result [65], demo_result [0]] empty_pg"
  have "?run = (fst ?run, snd ?run)" by simp
  note atomic = store_results_atomic [OF this]
  have "\<exists>e. fst ?run = Inl e"
    by (simp add: pg_store_results_def pg_transaction_def io_bind_def pg_begin_def pg_exec_def Let_def demo_pg_env_def
        insert_result_def demo_result_def jobs_of_def empty_pg_def opt_text_def)
  with atomic show ?thesis by (auto simp: Let_def)
qed

section \<open>Leadership\<close>

text \<open>
  C6. As long as no replica loses the session it leads with, at most one replica at a time does
  the work of a background tick: whatever else fails, crashes, or is answered late.
\<close>

theorem one_leader:
  assumes "(deploy_step (pg_services E fadd RT N cfg lettre_new H S) cfg open_url limits incr fallback
             from_std utc_min False)\<^sup>*\<^sup>* (deploy open_url limits) d"
    and "lw_phase (dp_leader d) i = Leading" and "lw_phase (dp_leader d) j = Leading"
  shows "i = j"
proof -
  have "leaders_ok (dp_leader d)" using deploy_reachable [OF assms(1)] by (simp add: reachable_leaders)
  then obtain c c' where "leads_with (dp_leader d) i c" "leads_with (dp_leader d) j c'"
    using assms(2,3) unfolding leaders_ok_def by blast
  then show ?thesis by (rule leads_alone)
qed

definition demo_connected :: lock_world where
  "demo_connected = lock_start\<lparr>lw_sessions := [0 \<mapsto> 4], lw_next := 1\<rparr>"

definition demo_led :: lock_world where
  "demo_led = demo_connected\<lparr>lw_lock := Some (0, 1), lw_held := (\<lambda>_. None)(4 := Some 0),
     lw_phase := (\<lambda>_. Waiting)(4 := Leading)\<rparr>"

lemma demo_leads: "lock_step losing (Connect 4) lock_start demo_connected"
  "lock_step losing (Acquire 4) demo_connected demo_led"
proof -
  show "lock_step losing (Connect 4) lock_start demo_connected"
    using lock_step.connect [of lock_start 4 losing]
    by (simp add: demo_connected_def lock_start_def)
  show "lock_step losing (Acquire 4) demo_connected demo_led"
    using lock_step.acquire [of demo_connected 4 "Some 0" Answered True "Some (0, 1)" "Some 0" losing]
    by (simp add: demo_led_def demo_connected_def lock_start_def pg_acquire_def)
qed

lemma one_leader_witness:
  "\<exists>d. demo_deployed demo_deploy d \<and> lw_phase (dp_leader d) 4 = Leading \<and>
     (\<forall>j. lw_phase (dp_leader d) j = Leading \<longrightarrow> 4 = j)"
proof -
  let ?d = "demo_deploy\<lparr>dp_leader := demo_led\<rparr>"
  have start: "dp_leader demo_deploy = lock_start" by (simp add: demo_deploy_def deploy_def)
  have "demo_deployed demo_deploy (demo_deploy\<lparr>dp_leader := demo_connected\<rparr>)"
    by (rule r_into_rtranclp, rule deploy_step.leadership) (unfold start, rule demo_leads)
  moreover have "deploy_step demo_pg_services demo_config (\<lambda>_. None) rate_limit_config_default (\<lambda>_. Inr 1)
      demo_fallback (\<lambda>_. Inr 0) 0 False (demo_deploy\<lparr>dp_leader := demo_connected\<rparr>) ?d"
    using deploy_step.leadership [where d = "demo_deploy\<lparr>dp_leader := demo_connected\<rparr>" and lw = demo_led]
      demo_leads(2) by fastforce
  ultimately have d: "demo_deployed demo_deploy ?d" by (rule rtranclp.rtrancl_into_rtrancl)
  have lead: "lw_phase (dp_leader ?d) 4 = Leading" by (simp add: demo_led_def)
  show ?thesis
    using d lead one_leader [OF d [unfolded demo_pg_services_def demo_deploy_def]
        lead [unfolded demo_deploy_def]]
    by (metis demo_deploy_def)
qed

text \<open>
  C7. Leadership recovers from a crash: when the process that has the lock dies, any other replica
  with a connection can lead from then on, at its next tick, provided the database answers.
\<close>

theorem leadership_recovers:
  assumes "lock_reachable losing lw" and "lw_lock lw = Some (c', n)" and "lw_sessions lw c' = Some dead"
    and "lw_phase lw r = Waiting" and "lw_sessions lw c = Some r" and "dead \<noteq> r"
  shows "\<exists>lw1 lw2. lock_step losing (Crash dead) lw lw1 \<and> lock_step losing (Acquire r) lw1 lw2 \<and>
           lw_phase lw2 r = Leading"
  by (rule after_crash [OF reachable_sessions [OF assms(1)] assms(4,5,6)]) (use assms(2,3) in simp)

definition demo_contended :: lock_world where
  "demo_contended = demo_led\<lparr>lw_sessions := [0 \<mapsto> 4, 1 \<mapsto> 5], lw_next := 2\<rparr>"

lemma demo_contended_step: "lock_step losing (Connect 5) demo_led demo_contended"
  using lock_step.connect [of demo_led 5 losing]
  by (simp add: demo_contended_def demo_led_def demo_connected_def lock_start_def numeral_2_eq_2)

lemma demo_contended_reached: "lock_reachable losing demo_contended"
  by (intro lock_reachable_step [OF _ demo_contended_step] lock_reachable_step [OF _ demo_leads(2)]
      lock_reachable_step [OF _ demo_leads(1)] lock_reachable_start)

lemma leadership_recovers_witness:
  "\<exists>lw1 lw2. lock_step True (Crash 4) demo_contended lw1 \<and> lock_step True (Acquire 5) lw1 lw2 \<and>
     lw_phase lw2 5 = Leading"
  by (rule leadership_recovers [OF demo_contended_reached, where c' = 0 and n = 1 and c = 1])
    (simp_all add: demo_contended_def demo_led_def demo_connected_def lock_start_def)

text \<open>
  C8. An abandoned lock is never given back: once a session of a live process has the lock more
  often than the process will release it, no other replica ever leads while that session lasts,
  whatever happens. A panic of the background loop abandons the lock, with the process still
  serving requests, and so does an unlock that fails: only its error is logged.
\<close>

theorem abandoned_lock_starves:
  assumes "lock_reachable False lw" and "abandoned r0 c lw"
    and "(\<lambda>a b. \<exists>e. e \<noteq> Crash r0 \<and> e \<noteq> Disconnect c \<and> lock_step False e a b)\<^sup>*\<^sup>* lw lw'"
    and "lw_phase lw' r = Leading"
  shows "r = r0"
  using abandoned_for_good [OF assms(3,2,1)] assms(4) reachable_leaders abandoned_alone by blast

definition demo_panicked :: lock_world where
  "demo_panicked = demo_contended\<lparr>lw_held := (\<lambda>_. None), lw_phase := (\<lambda>_. Waiting)(4 := Stopped)\<rparr>"

lemma demo_panic:
  "lock_step losing (Panic 4) demo_contended demo_panicked"
  using lock_step.panic [of demo_contended 4 losing]
  by (simp add: demo_panicked_def demo_contended_def demo_led_def demo_connected_def lock_start_def)

lemma abandoned_lock_starves_witness:
  "let lw = demo_panicked in
   abandoned 4 0 lw \<and> \<not> lock_step False (Acquire 5) lw
     (lw\<lparr>lw_held := (lw_held lw)(5 := Some 1), lw_phase := (lw_phase lw)(5 := Leading)\<rparr>)"
proof -
  let ?lw = "demo_panicked"
  let ?led = "?lw\<lparr>lw_held := (lw_held ?lw)(5 := Some 1), lw_phase := (lw_phase ?lw)(5 := Leading)\<rparr>"
  have reach: "lock_reachable False ?lw"
    by (rule lock_reachable_step [OF demo_contended_reached demo_panic])
  have left: "abandoned 4 0 ?lw"
    by (simp add: abandoned_def demo_panicked_def demo_contended_def demo_led_def demo_connected_def)
  have "\<not> lock_step False (Acquire 5) ?lw ?led"
  proof
    assume "lock_step False (Acquire 5) ?lw ?led"
    then have "(\<lambda>a b. \<exists>e. e \<noteq> Crash 4 \<and> e \<noteq> Disconnect 0 \<and> lock_step False e a b)\<^sup>*\<^sup>* ?lw ?led"
      by (intro r_into_rtranclp exI [of _ "Acquire 5"]) simp
    from abandoned_lock_starves [OF reach left this, of 5] show False by simp
  qed
  with left show ?thesis by (simp add: Let_def)
qed

text \<open>
  A lost session breaks the exclusion: when the connection of the leader ends during its tick,
  the lock is free although the tick goes on, and a second replica becomes leader beside it.
\<close>

lemma two_leaders:
  "\<exists>lw. lock_reachable True lw \<and> lw_phase lw 4 = Leading \<and> lw_phase lw 5 = Leading"
proof -
  let ?lost = "end_sessions (\<lambda>x. x = 0) demo_contended"
  have lost: "lock_step True (Disconnect 0) demo_contended ?lost" by (rule lock_step.disconnect) simp
  have phase: "lw_phase ?lost 4 = Leading" "lw_phase ?lost 5 = Waiting"
    by (simp_all add: end_sessions_def demo_contended_def demo_led_def)
  have "pg_acquire (Some 1) Answered (lw_lock ?lost, lw_held ?lost 5) = (True, Some (1, 1), Some 1)"
    by (simp add: pg_acquire_def end_sessions_def free_sessions_def demo_contended_def demo_led_def)
  from lock_step.acquire [OF phase(2) _ this, of True]
  obtain lw where lw: "lock_step True (Acquire 5) ?lost lw" "lw_phase lw 5 = Leading" "lw_phase lw 4 = Leading"
    using phase by (auto simp: end_sessions_def demo_contended_def demo_led_def)
  have "lock_reachable True lw"
    by (rule lock_reachable_step [OF lock_reachable_step [OF demo_contended_reached lost] lw(1)])
  with lw show ?thesis by blast
qed

end
