(* ===== verification/Auth.thy ===== *)
theory Auth
  imports Session Http_Base
begin

text \<open>
  \<open>adapters/auth/mod.rs\<close>: password hashes by Argon2 and access tokens as JWTs. The two libraries
  are the parameters; \<open>argon2_documented\<close> and \<open>jwt_documented\<close> are what their documentation says
  and the properties rely on.
\<close>

section \<open>Passwords\<close>

text \<open>
  Hashing takes a salt and bytes; a textual hash that parses gives the test of a password
  against it.
\<close>

record argon2_api =
  ar_hash :: "nat list \<Rightarrow> nat list \<Rightarrow> rstr + rstr"
  ar_parse :: "rstr \<Rightarrow> (nat list \<Rightarrow> bool) option"

definition argon2_hash :: "argon2_api \<Rightarrow> nat list \<Rightarrow> rstr \<Rightarrow> port_error + rstr" where
  "argon2_hash AR salt password =
     (case ar_hash AR salt (utf8 password) of
        Inl e \<Rightarrow> Inl (PortError (lit ''argon2 hashing failed: '' @ e))
      | Inr h \<Rightarrow> Inr h)"

definition argon2_verify :: "argon2_api \<Rightarrow> rstr \<Rightarrow> rstr \<Rightarrow> bool" where
  "argon2_verify AR password hash =
     (case ar_parse AR hash of None \<Rightarrow> False | Some verify \<Rightarrow> verify (utf8 password))"

definition argon2_hasher :: "argon2_api \<Rightarrow> password_hasher" where
  "argon2_hasher AR = \<lparr>ph_hash = argon2_hash AR, ph_verify = argon2_verify AR\<rparr>"

definition argon2_documented :: "argon2_api \<Rightarrow> bool" where
  "argon2_documented AR \<longleftrightarrow>
     (\<forall>salt password h. ar_hash AR salt password = Inr h \<longrightarrow>
        (\<exists>verify. ar_parse AR h = Some verify \<and> verify password))"

section \<open>Access tokens\<close>

record claims =
  cl_sub :: rstr
  cl_iat :: int
  cl_exp :: int

text \<open>\<open>jw_decode\<close> checks the signature and, at the instant given, the expiry.\<close>

record jwt_api =
  jw_encode :: "rstr \<Rightarrow> claims \<Rightarrow> rstr + rstr"
  jw_decode :: "time \<Rightarrow> rstr \<Rightarrow> rstr \<Rightarrow> claims option"
  jw_parse_uuid :: "rstr \<Rightarrow> uuid option"

record jwt_service =
  js_secret :: rstr
  js_ttl :: int

definition jwt_service_new :: "rstr \<Rightarrow> int \<Rightarrow> jwt_service" where
  "jwt_service_new secret ttl_minutes = \<lparr>js_secret = secret, js_ttl = minutes ttl_minutes\<rparr>"

definition timestamp :: "time \<Rightarrow> int" where
  "timestamp t = t div second"

definition jwt_issue :: "runtime \<Rightarrow> jwt_api \<Rightarrow> jwt_service \<Rightarrow> time \<Rightarrow> uuid \<Rightarrow> port_error + rstr" where
  "jwt_issue RT JW svc now user =
     (let claims = \<lparr>cl_sub = rt_uuid_display RT user, cl_iat = timestamp now,
                    cl_exp = timestamp (now + js_ttl svc)\<rparr> in
      case jw_encode JW (js_secret svc) claims of
        Inl e \<Rightarrow> Inl (PortError (lit ''jwt signing failed: '' @ e))
      | Inr token \<Rightarrow> Inr token)"

definition jwt_verify :: "jwt_api \<Rightarrow> jwt_service \<Rightarrow> time \<Rightarrow> rstr \<Rightarrow> uuid option" where
  "jwt_verify JW svc now token =
     Option.bind (jw_decode JW now (js_secret svc) token) (\<lambda>claims. jw_parse_uuid JW (cl_sub claims))"

definition jwt_token_service :: "runtime \<Rightarrow> jwt_api \<Rightarrow> jwt_service \<Rightarrow> token_service" where
  "jwt_token_service RT JW svc = \<lparr>ts_issue = jwt_issue RT JW svc, ts_verify = jwt_verify JW svc\<rparr>"

text \<open>
  The default validation accepts a token until 60 seconds after its expiry, in whole seconds since
  1970; a token is visible ASCII, and the canonical text of a UUID parses to it.
\<close>

definition jwt_documented :: "runtime \<Rightarrow> jwt_api \<Rightarrow> bool" where
  "jwt_documented RT JW \<longleftrightarrow>
     (\<forall>secret c token. jw_encode JW secret c = Inr token \<longrightarrow>
        list_all visible_ascii token \<and>
        (0 \<le> cl_exp c \<longrightarrow> (\<forall>now.
           jw_decode JW now secret token = (if timestamp now \<le> cl_exp c + 60 then Some c else None)))) \<and>
     (\<forall>u. jw_parse_uuid JW (rt_uuid_display RT u) = Some u)"

lemma verify_hashed:
  "argon2_documented AR \<Longrightarrow> argon2_hash AR salt password = Inr h \<Longrightarrow> argon2_verify AR password h"
  by (fastforce simp: argon2_documented_def argon2_hash_def argon2_verify_def split: sum.splits)

lemma verify_issued:
  assumes "jwt_documented RT JW" and "jwt_issue RT JW svc t user = Inr token"
  shows "list_all visible_ascii token"
    and "0 \<le> timestamp (t + js_ttl svc) \<Longrightarrow> jwt_verify JW svc now token =
      (if timestamp now \<le> timestamp (t + js_ttl svc) + 60 then Some user else None)"
proof -
  let ?c = "\<lparr>cl_sub = rt_uuid_display RT user, cl_iat = timestamp t, cl_exp = timestamp (t + js_ttl svc)\<rparr>"
  have enc: "jw_encode JW (js_secret svc) ?c = Inr token"
    using assms(2) by (simp add: jwt_issue_def split: sum.splits)
  then show "list_all visible_ascii token" using assms(1) by (simp add: jwt_documented_def)
  assume "0 \<le> timestamp (t + js_ttl svc)"
  then have "jw_decode JW now (js_secret svc) token = (if timestamp now \<le> cl_exp ?c + 60 then Some ?c else None)"
    using assms(1) enc unfolding jwt_documented_def by simp
  then show "jwt_verify JW svc now token =
      (if timestamp now \<le> timestamp (t + js_ttl svc) + 60 then Some user else None)"
    using assms(1) by (simp add: jwt_verify_def jwt_documented_def)
qed

section \<open>From a login to a guarded request\<close>

lemma login_found:
  assumes "login_user RT U H S T ttl d email password s = (Inr tokens, s')"
  obtains u s1 where "ur_find_by_email U (normalise_email RT email) s = (Inr (Some u), s1)"
    and "ph_verify H password (user_password_hash u)"
    and "ts_issue S (lgd_access d) (user_id u) = Inr (st_access_token tokens)"
  using assms
  by (auto simp: login_user_def io_defs Let_def split: prod.splits sum.splits option.splits if_splits)

lemma bearer_text:
  assumes "list_all visible_ascii token"
  shows "to_str (map word_of_nat (lit ''Bearer '' @ token)) = Some (lit ''Bearer '' @ token)"
  using assms by (intro to_str_bytes) (simp add: lit_def visible_ascii_def)

lemma auth_user_issued:
  assumes "jwt_documented RT JW" and "sv_token_service A = jwt_token_service RT JW svc"
    and "ts_issue (sv_token_service A) t user = Inr token"
    and "map_of hs (lit ''authorization'') = Some (map word_of_nat (lit ''Bearer '' @ token))"
    and "0 \<le> timestamp (t + js_ttl svc)"
  shows "auth_user A now hs =
    (if timestamp now \<le> timestamp (t + js_ttl svc) + 60 then Inr user
     else Inl (error_body 401 (lit ''invalid or missing access token'')))"
proof -
  have "jwt_issue RT JW svc t user = Inr token" using assms(2,3) by (simp add: jwt_token_service_def)
  note issued = verify_issued [OF assms(1) this]
  have "header_str hs (lit ''authorization'') = Some (lit ''Bearer '' @ token)"
    unfolding header_str_def assms(4) using bearer_text [OF issued(1)] by simp
  then show ?thesis
    by (simp add: auth_user_def assms(2) jwt_token_service_def strip_prefix_def issued(2) [OF assms(5)])
qed

end
