(* ===== verification/Guarantees_Auth.thy ===== *)
theory Guarantees_Auth
  imports Auth Guarantees_Deployment
begin

text \<open>
  What the adapters promise together: a password that registered logs in, the access token of a
  login authorises for its lifetime, and a callback delivered twice changes nothing the second
  time.
\<close>

section \<open>Passwords\<close>

lemma only_account:
  assumes "register_outcome RT H d email password w (Inr u) w1"
    and "aw_users w1 (user_id v) = Some v" and "user_email v = normalise_email RT email"
  shows "v = u"
proof (rule ccontr)
  assume "v \<noteq> u"
  have "aw_users w1 = (aw_users w)(user_id u \<mapsto> u)"
    and unused: "\<forall>v \<in> ran (aw_users w). user_email v \<noteq> normalise_email RT email"
    using assms(1) by (auto simp: register_outcome_def Let_def add_user_def)
  with assms(2) \<open>v \<noteq> u\<close> have "aw_users w (user_id v) = Some v" by (auto split: if_splits)
  then have "v \<in> ran (aw_users w)" by (rule ranI)
  with unused assms(3) show False by blast
qed

lemma login_after_register:
  assumes reg: "register_outcome RT H d email password w (Inr u) w1"
    and login: "login_outcome RT H S ttl g email' password w1 r w2"
    and "normalise_email RT email' = normalise_email RT email"
    and "ph_verify H password (user_password_hash u)"
  shows "case r of
           Inl e \<Rightarrow> \<exists>cause. e = LoginInfrastructure cause
         | Inr st \<Rightarrow> w2 = add_token (fst (issue RT (lgd_family g) (lgd_token g) (user_id u) ttl)) w1"
proof -
  note only = only_account [OF reg]
  have "u \<in> ran (aw_users w1)" "user_email u = normalise_email RT email"
    using reg by (auto simp: register_outcome_def Let_def add_user_def user_new_def intro!: ranI)
  with login assms(3,4) only show ?thesis
    by (cases r) (auto simp: login_outcome_def Let_def split: login_error.splits)
qed

text \<open>
  C19. On PostgreSQL with Argon2, whoever registered can log in with the same password and any
  spelling of the same address: the answer is never \<open>InvalidCredentials\<close>, and a login that
  succeeds stores one session of exactly the account that was created.
\<close>

theorem registered_user_logs_in:
  assumes "pg_wf s" and "argon2_documented AR"
    and "rgd_id d \<notin> dom (aw_users (pg_abs s))" and "td_id (lgd_token g) \<notin> dom (aw_tokens (pg_abs s))"
    and "register_user RT (pg_user_repo E) (argon2_hasher AR) d email password s = (Inr u, s1)"
    and "normalise_email RT email' = normalise_email RT email"
    and "login_user RT (pg_user_repo E) (argon2_hasher AR) S (pg_token_repo E) ttl g email' password s1 = (r, s2)"
  shows "case r of
           Inl e \<Rightarrow> \<exists>cause. e = LoginInfrastructure cause
         | Inr st \<Rightarrow> pg_abs s2 = add_token (fst (issue RT (lgd_family g) (lgd_token g) (user_id u) ttl)) (pg_abs s1)"
proof -
  note reg = satD [OF pg_account.register_sat [OF assms(3)] assms(1) refl assms(5)]
  then obtain h where "argon2_hash AR (rgd_salt d) password = Inr h" and "user_password_hash u = h"
    and added: "pg_abs s1 = add_user u (pg_abs s)"
    by (auto simp: register_outcome_def Let_def argon2_hasher_def user_new_def)
  then have verified: "ph_verify (argon2_hasher AR) password (user_password_hash u)"
    using verify_hashed [OF assms(2)] by (simp add: argon2_hasher_def)
  have "td_id (lgd_token g) \<notin> dom (aw_tokens (pg_abs s1))"
    using assms(4) by (simp add: added add_user_def)
  note login = satD [OF pg_account.login_sat [OF this] conjunct1 [OF reg] refl assms(7)]
  show ?thesis
    by (rule login_after_register [OF conjunct2 [OF reg] conjunct2 [OF login] assms(6) verified])
qed

definition demo_argon2 :: argon2_api where
  "demo_argon2 = \<lparr>ar_hash = (\<lambda>salt pw. Inr (salt @ pw)), ar_parse = (\<lambda>h. Some (\<lambda>pw. suffix pw h))\<rparr>"

lemma demo_argon2_documented: "argon2_documented demo_argon2"
  by (simp add: argon2_documented_def demo_argon2_def suffix_def)

definition demo_password :: rstr where
  "demo_password = [49, 50, 51, 52, 53, 54, 55, 56]"

definition demo_signup :: user where
  "demo_signup = user_new 7 0 [97, 64, 98] (5 # demo_password)"

definition demo_members :: pg where
  "demo_members = empty_pg\<lparr>pg_clock := 2, pg_users := [demo_signup]\<rparr>"

lemma demo_argon2_registered:
  "register_user demo_runtime (pg_user_repo demo_pg_env) (argon2_hasher demo_argon2) \<lparr>rgd_salt = [5], rgd_id = 7, rgd_now = 0\<rparr>
     [97, 64, 98] demo_password empty_pg = (Inr demo_signup, demo_members)"
  by (simp add: register_user_def demo_text pg_user_repo_def pg_find_by_email_def pg_user_insert_def io_defs
      argon2_hasher_def argon2_hash_def demo_argon2_def demo_password_def utf8_def utf8_char_def
      pg_query_def pg_exec_def demo_pg_env_def Let_def user_new_def users_of_def bound_user_def
      empty_pg_def demo_signup_def demo_members_def)

definition demo_login_draw :: login_draw where
  "demo_login_draw = \<lparr>lgd_family = 40, lgd_token = demo_token_draw, lgd_access = 0\<rparr>"

abbreviation demo_logged_in :: "token_service \<Rightarrow> (login_error + session_tokens) \<times> pg" where
  "demo_logged_in S \<equiv> login_user demo_runtime (pg_user_repo demo_pg_env) (argon2_hasher demo_argon2) S
     (pg_token_repo demo_pg_env) 30 demo_login_draw [32, 97, 64, 98] demo_password demo_members"

lemma registered_user_logs_in_witness:
  "case demo_logged_in demo_tokens of
     (r, s2) \<Rightarrow>
       (case r of
          Inl e \<Rightarrow> \<exists>cause. e = LoginInfrastructure cause
        | Inr st \<Rightarrow> pg_abs s2 = add_token (fst (issue demo_runtime 40 demo_token_draw 7 30)) (pg_abs demo_members))"
proof -
  have wf: "pg_wf empty_pg" by (simp add: pg_wf_def empty_pg_def job_refs_ok_def)
  have run: "demo_logged_in demo_tokens = (fst (demo_logged_in demo_tokens), snd (demo_logged_in demo_tokens))"
    by simp
  have email: "normalise_email demo_runtime [32, 97, 64, 98] = normalise_email demo_runtime [97, 64, 98]"
    by (simp add: normalise_email_def trim_def is_whitespace_def)
  have ids: "lgd_family demo_login_draw = 40" "lgd_token demo_login_draw = demo_token_draw" "user_id demo_signup = 7"
    by (simp_all add: demo_login_draw_def demo_signup_def user_new_def)
  show ?thesis
    unfolding split_def
    by (rule registered_user_logs_in [OF wf demo_argon2_documented _ _ demo_argon2_registered email run, unfolded ids])
      simp_all
qed

section \<open>Access tokens\<close>

text \<open>
  C21. The access token that a login returns authorises requests as the account that logged in,
  and for its lifetime only: fifteen minutes, and the sixty seconds of leeway the library grants,
  in whole seconds. Later it is answered with 401.
\<close>

theorem access_token_lifetime:
  assumes "jwt_documented RT JW" and "sv_token_service A = jwt_token_service RT JW (jwt_service_new secret 15)"
    and "login_user (sv_runtime A) (sv_users A) H (sv_token_service A) (sv_tokens A) ttl d email password s =
           (Inr tokens, s')"
    and "0 \<le> lgd_access d"
    and "map_of hs (lit ''authorization'') = Some (map word_of_nat (lit ''Bearer '' @ st_access_token tokens))"
  shows "\<exists>u s1. ur_find_by_email (sv_users A) (normalise_email (sv_runtime A) email) s = (Inr (Some u), s1) \<and>
           ph_verify H password (user_password_hash u) \<and>
           auth_user A now hs =
             (if timestamp now \<le> timestamp (lgd_access d) + 15 * 60 + 60 then Inr (user_id u)
              else Inl (error_body 401 (lit ''invalid or missing access token'')))"
proof -
  let ?svc = "jwt_service_new secret 15"
  obtain u s1 where u: "ur_find_by_email (sv_users A) (normalise_email (sv_runtime A) email) s = (Inr (Some u), s1)"
    "ph_verify H password (user_password_hash u)"
    "ts_issue (sv_token_service A) (lgd_access d) (user_id u) = Inr (st_access_token tokens)"
    by (rule login_found [OF assms(3)])
  have ttl: "timestamp (lgd_access d + js_ttl ?svc) = timestamp (lgd_access d) + 15 * 60"
    by (simp add: jwt_service_new_def timestamp_def minutes_def second_def)
  have "0 \<le> timestamp (lgd_access d + js_ttl ?svc)"
    using assms(4) unfolding ttl by (simp add: timestamp_def second_def pos_imp_zdiv_nonneg_iff)
  from auth_user_issued [OF assms(1,2) u(3) assms(5) this, of now] u(1,2) show ?thesis
    unfolding ttl by blast
qed

text \<open>A token that spells out its claims, and the numerals of the demo's ids.\<close>

definition demo_jwt :: jwt_api where
  "demo_jwt =
     \<lparr>jw_encode = (\<lambda>secret c.
        if 0 \<le> cl_exp c \<and> 0 \<le> cl_iat c \<and> list_all visible_ascii (cl_sub c)
        then Inr (show_nat (nat (cl_exp c)) @ 46 # show_nat (nat (cl_iat c)) @ 46 # cl_sub c)
        else Inl (lit ''claims'')),
      jw_decode = (\<lambda>now secret token.
        let exp = takeWhile is_digit token; rest = drop (length exp + 1) token;
            iat = takeWhile is_digit rest; sub = drop (length iat + 1) rest;
            c = \<lparr>cl_sub = sub, cl_iat = int (digits_value iat), cl_exp = int (digits_value exp)\<rparr>
        in if timestamp now \<le> cl_exp c + 60 then Some c else None),
      jw_parse_uuid = (\<lambda>t. map_option word_of_nat (parse_uint (2 ^ 128) t))\<rparr>"

lemma show_nat_run: "takeWhile is_digit (show_nat n @ 46 # xs) = show_nat n"
  using show_nat_digits [of n] by (simp add: takeWhile_append list_all_iff is_digit_def)

lemma show_nat_visible: "list_all visible_ascii (show_nat n)"
  using show_nat_digits [of n] by (auto simp: list_all_iff is_digit_def visible_ascii_def)

lemma demo_jwt_documented: "jwt_documented demo_runtime demo_jwt"
  unfolding jwt_documented_def
proof (intro conjI allI impI)
  fix secret c token
  assume "jw_encode demo_jwt secret c = Inr token"
  then have c: "0 \<le> cl_exp c" "0 \<le> cl_iat c" "list_all visible_ascii (cl_sub c)"
    and token: "token = show_nat (nat (cl_exp c)) @ 46 # show_nat (nat (cl_iat c)) @ 46 # cl_sub c"
    by (auto simp: demo_jwt_def split: if_splits)
  show "list_all visible_ascii token"
    using c(3) show_nat_visible by (simp add: token visible_ascii_def)
  fix now
  show "jw_decode demo_jwt now secret token = (if timestamp now \<le> cl_exp c + 60 then Some c else None)"
    using c show_nat_digits by (simp add: demo_jwt_def token show_nat_run Let_def)
next
  fix u :: uuid
  have "unat u < 2 ^ LENGTH(128)" by (rule unsigned_less)
  then have "unat u \<le> 2 ^ 128" by simp
  then show "jw_parse_uuid demo_jwt (rt_uuid_display demo_runtime u) = Some u"
    by (simp add: demo_jwt_def demo_runtime_def parse_uint_show)
qed

definition demo_jwt_tokens :: token_service where
  "demo_jwt_tokens = jwt_token_service demo_runtime demo_jwt (jwt_service_new [115] 15)"

definition demo_jwt_services :: "pg services" where
  "demo_jwt_services = demo_pg_services\<lparr>sv_token_service := demo_jwt_tokens\<rparr>"

lemma demo_jwt_parts [simp]:
  "sv_users demo_jwt_services = pg_user_repo demo_pg_env" "sv_runtime demo_jwt_services = demo_runtime"
  "sv_tokens demo_jwt_services = pg_token_repo demo_pg_env" "sv_token_service demo_jwt_services = demo_jwt_tokens"
  by (simp_all add: demo_jwt_services_def demo_pg_services_def pg_services_def)

lemma demo_jwt_issues:
  "ts_issue demo_jwt_tokens 0 7 = Inr (show_nat 900 @ 46 # show_nat 0 @ 46 # show_nat 7)"
  using show_nat_visible [of 7]
  by (simp add: demo_jwt_tokens_def jwt_token_service_def jwt_issue_def demo_jwt_def Let_def timestamp_def
      jwt_service_new_def minutes_def second_def demo_runtime_def del: show_nat.simps)

lemma demo_jwt_login: "\<exists>tokens s'. demo_logged_in demo_jwt_tokens = (Inr tokens, s')"
  by (simp add: login_user_def normalise_email_def trim_def is_whitespace_def demo_runtime_def to_lowercase_def
      ascii_lower_def io_defs pg_user_repo_def pg_find_by_email_def pg_query_def pg_exec_def demo_pg_env_def Let_def
      demo_members_def demo_signup_def user_new_def argon2_hasher_def argon2_verify_def demo_argon2_def
      demo_password_def utf8_char_def issue_def issue_in_family_def pg_token_repo_def pg_token_insert_def
      users_of_def demo_login_draw_def demo_token_draw_def suffix_def token_hash_def token_plaintext_def
      show_nat.simps hex_byte_def hex_digit_def demo_jwt_issues)


lemma access_token_lifetime_witness:
  "\<exists>tokens s'. demo_logged_in demo_jwt_tokens = (Inr tokens, s') \<and>
     (\<forall>now. auth_user demo_jwt_services now
        [(lit ''authorization'', map word_of_nat (lit ''Bearer '' @ st_access_token tokens))] =
        (if timestamp now \<le> 960 then Inr 7 else Inl (error_body 401 (lit ''invalid or missing access token''))))"
proof -
  obtain tokens s' where run: "demo_logged_in demo_jwt_tokens = (Inr tokens, s')"
    using demo_jwt_login by blast
  let ?hs = "[(lit ''authorization'', map word_of_nat (lit ''Bearer '' @ st_access_token tokens))]"
  have "login_user (sv_runtime demo_jwt_services) (sv_users demo_jwt_services) (argon2_hasher demo_argon2)
      (sv_token_service demo_jwt_services) (sv_tokens demo_jwt_services) 30 demo_login_draw [32, 97, 64, 98]
      demo_password demo_members = (Inr tokens, s')"
    using run by simp
  note lives = access_token_lifetime [OF demo_jwt_documented _ this, of "[115]" ?hs]
  have "ur_find_by_email (pg_user_repo demo_pg_env) (normalise_email demo_runtime [32, 97, 64, 98]) demo_members =
      (Inr (Some demo_signup), demo_members\<lparr>pg_clock := 3\<rparr>)"
    by (simp add: normalise_email_def demo_text pg_user_repo_def pg_find_by_email_def pg_query_def pg_exec_def
        demo_pg_env_def Let_def demo_members_def demo_signup_def user_new_def trim_def is_whitespace_def
        demo_runtime_def to_lowercase_def ascii_lower_def)
  with lives run show ?thesis
    by (auto simp: demo_jwt_tokens_def demo_login_draw_def timestamp_def demo_signup_def user_new_def)
qed

section \<open>Chunks\<close>

lemma delivery:
  assumes "pg_wf s" and "store_document_chunks (pg_document_repo E) i ns s = (Inr x, s')"
  shows "pg_wf s'"
    and "\<exists>d. aw_documents (pg_abs s) i = Some d \<and>
      pg_abs s' = (pg_abs s)\<lparr>aw_documents := (aw_documents (pg_abs s))(i \<mapsto> document_ready d),
        aw_chunks := {#c \<in># aw_chunks (pg_abs s). sc_document_id c \<noteq> i#} + mset (map (stored_chunk_of d) ns)\<rparr>"
proof -
  from assms(2) obtain r s1 where find: "dr_find (pg_document_repo E) i s = (Inr r, s1)"
    and rest: "(case r of None \<Rightarrow> io_throw DocumentNotFound
      | Some d \<Rightarrow> io_lift KnowledgeInfrastructure (dr_store_chunks (pg_document_repo E) d ns)) s1 = (Inr x, s')"
    unfolding store_document_chunks_def io_bind_Inr by (auto simp: io_lift_def split: prod.splits sum.splits)
  note found = port_specD [OF pg_document.document_find assms(1) find]
  from rest obtain d where d: "r = Some d" and store: "pg_store_chunks E d ns s1 = (Inr x, s')"
    by (auto simp: io_defs pg_document_repo_def split: option.splits prod.splits sum.splits)
  have known: "aw_documents (pg_abs s) i = Some d" "pg_abs s1 = pg_abs s" using found d by auto
  with assms(1) have id: "doc_id d = i" using pg_document.document_keyed by (auto simp: keyed_def)
  have "\<exists>n. pg_wf n \<and> n = s1" using found by auto
  then have wf: "pg_wf s1" by simp
  from store obtain rows n where rows: "new_rows d rows ns"
    "ns \<noteq> [] \<longrightarrow> doc_id d \<in> documents_of s1 \<and> doc_user_id d \<in> users_of s1"
    and s': "s' = s1\<lparr>pg_chunks := filter (\<lambda>c. kw_document_id c \<noteq> doc_id d) (pg_chunks s1) @ rows,
      pg_documents := update_row dw_id (doc_id d) row_ready (pg_documents s1), pg_clock := n\<rparr>"
    unfolding pg_store_chunks_def pg_transaction_def
    by (auto split: prod.splits sum.splits elim!: store_chunks_Inr)
  note stored = stored_chunks [OF wf rows, where m = n, folded s']
  show "pg_wf s'" by (rule stored(1))
  show "\<exists>d. aw_documents (pg_abs s) i = Some d \<and>
      pg_abs s' = (pg_abs s)\<lparr>aw_documents := (aw_documents (pg_abs s))(i \<mapsto> document_ready d),
        aw_chunks := {#c \<in># aw_chunks (pg_abs s). sc_document_id c \<noteq> i#} + mset (map (stored_chunk_of d) ns)\<rparr>"
    using stored(2) known by (simp add: id)
qed

lemma filter_then_add:
  "{#x \<in># N. P x#} = {#} \<Longrightarrow> {#x \<in># {#x \<in># M. P x#} + N. P x#} + N = {#x \<in># M. P x#} + N"
  unfolding filter_union_mset filter_filter_mset by simp

lemma redelivered:
  assumes "w' = w\<lparr>aw_documents := (aw_documents w)(i \<mapsto> document_ready d),
      aw_chunks := {#c \<in># aw_chunks w. sc_document_id c \<noteq> i#} + mset (map (stored_chunk_of d) ns)\<rparr>"
    and "doc_id d = i"
  shows "w'\<lparr>aw_documents := (aw_documents w')(i \<mapsto> document_ready (document_ready d)),
      aw_chunks := {#c \<in># aw_chunks w'. sc_document_id c \<noteq> i#} +
        mset (map (stored_chunk_of (document_ready d)) ns)\<rparr> = w'"
proof -
  let ?new = "mset (map (stored_chunk_of d) ns)"
  have same: "stored_chunk_of (document_ready d) = stored_chunk_of d" "document_ready (document_ready d) = document_ready d"
    by (simp_all add: stored_chunk_of_def document_ready_def fun_eq_iff)
  have parts: "aw_chunks w' = {#c \<in># aw_chunks w. sc_document_id c \<noteq> i#} + ?new"
    "aw_documents w' = (aw_documents w)(i \<mapsto> document_ready d)"
    by (simp_all add: assms(1))
  have "{#c \<in># ?new. sc_document_id c \<noteq> i#} = {#}"
    using assms(2) by (induction ns) (simp_all add: stored_chunk_of_def)
  then have chunks: "{#c \<in># aw_chunks w'. sc_document_id c \<noteq> i#} + ?new = aw_chunks w'"
    unfolding parts by (rule filter_then_add)
  have docs: "(aw_documents w')(i \<mapsto> document_ready d) = aw_documents w'"
    unfolding parts by simp
  show ?thesis unfolding same chunks docs by simp
qed

text \<open>
  C10. On PostgreSQL the worker may deliver the chunks of a document again: after one successful
  delivery the document is ready and its chunks are exactly the delivered ones, whatever was there
  before, and a second delivery of the same chunks leaves the store as it is.
\<close>

theorem chunks_delivered_once:
  assumes "pg_wf s" and "store_document_chunks (pg_document_repo E) i ns s = (Inr x, s1)"
    and "store_document_chunks (pg_document_repo E) i ns s1 = (Inr y, s2)"
  shows "\<exists>d. aw_documents (pg_abs s) i = Some d \<and>
           pg_abs s1 = (pg_abs s)\<lparr>aw_documents := (aw_documents (pg_abs s))(i \<mapsto> document_ready d),
             aw_chunks := {#c \<in># aw_chunks (pg_abs s). sc_document_id c \<noteq> i#} +
               mset (map (stored_chunk_of d) ns)\<rparr> \<and>
           pg_abs s2 = pg_abs s1"
proof -
  note first = delivery [OF assms(1,2)]
  then obtain d where d: "aw_documents (pg_abs s) i = Some d"
    and s1: "pg_abs s1 = (pg_abs s)\<lparr>aw_documents := (aw_documents (pg_abs s))(i \<mapsto> document_ready d),
      aw_chunks := {#c \<in># aw_chunks (pg_abs s). sc_document_id c \<noteq> i#} + mset (map (stored_chunk_of d) ns)\<rparr>"
    by blast
  have id: "doc_id d = i" using pg_document.document_keyed [OF assms(1)] d by (auto simp: keyed_def)
  from delivery(2) [OF first(1) assms(3)] have "pg_abs s2 = pg_abs s1"
    using redelivered [OF s1 id] by (simp add: s1)
  with d s1 show ?thesis by blast
qed

definition demo_chunk :: new_chunk where
  "demo_chunk = \<lparr>nc_seq = 0, nc_content = [99], nc_embedding = replicate EMBEDDING_DIMENSION 0\<rparr>"

definition demo_library :: pg where
  "demo_library = demo_members\<lparr>pg_documents :=
     [\<lparr>dw_id = 4, dw_user_id = 7, dw_name = [110], dw_status = lit ''pending'', dw_error = None, dw_created_at = 0\<rparr>]\<rparr>"

abbreviation demo_delivered :: "pg \<Rightarrow> (knowledge_error + unit) \<times> pg" where
  "demo_delivered \<equiv> store_document_chunks (pg_document_repo demo_pg_env) 4 [demo_chunk]"

lemma demo_library_wf: "pg_wf demo_library"
  by (simp add: pg_wf_def demo_library_def demo_members_def empty_pg_def job_refs_ok_def users_of_def demo_signup_def
      user_new_def)

lemma demo_pg_stores [simp]:
  "pg_exec demo_pg_env [[99]] op s = (case op (s\<lparr>pg_clock := pg_clock s + 1\<rparr>) of
      Inl e \<Rightarrow> (Inl (db_err (lit ''constraint'')), s\<lparr>pg_clock := pg_clock s + 1\<rparr>) | Inr (x, s') \<Rightarrow> (Inr x, s'))"
  by (simp add: pg_exec_def demo_pg_env_def Let_def split: sum.split)

lemma demo_delivers:
  assumes "map dw_id (pg_documents s) = [4]" and "map dw_user_id (pg_documents s) = [7]"
    and "pg_users s = [demo_signup]" and "\<forall>c \<in> set (pg_chunks s). kw_document_id c = 4"
  shows "\<exists>s'. demo_delivered s = (Inr (), s') \<and> map dw_id (pg_documents s') = [4] \<and>
    map dw_user_id (pg_documents s') = [7] \<and> pg_users s' = [demo_signup] \<and>
    (\<forall>c \<in> set (pg_chunks s'). kw_document_id c = 4)"
proof -
  have vec: "pe_vector demo_pg_env v" for v by (simp add: demo_pg_env_def)
  from assms show ?thesis
    by (auto simp: store_document_chunks_def io_defs pg_document_repo_def pg_document_find_def pg_query_def
        pg_store_chunks_def pg_transaction_def pg_begin_def pg_commit_def insert_chunk_def demo_chunk_def vec
        Let_def documents_of_def users_of_def demo_signup_def user_new_def document_from_row_def update_row_def
        row_ready_def chunk_row_of_def)
qed

lemma chunks_delivered_once_witness:
  "\<exists>s1 s2. demo_delivered demo_library = (Inr (), s1) \<and> demo_delivered s1 = (Inr (), s2) \<and>
     pg_abs s2 = pg_abs s1"
proof -
  obtain s1 where s1: "demo_delivered demo_library = (Inr (), s1)" "map dw_id (pg_documents s1) = [4]"
    "map dw_user_id (pg_documents s1) = [7]" "pg_users s1 = [demo_signup]"
    "\<forall>c \<in> set (pg_chunks s1). kw_document_id c = 4"
    using demo_delivers [of demo_library] by (auto simp: demo_library_def demo_members_def empty_pg_def)
  obtain s2 where s2: "demo_delivered s1 = (Inr (), s2)" using demo_delivers [OF s1(2-5)] by blast
  from chunks_delivered_once [OF demo_library_wf s1(1) s2] s1(1) s2 show ?thesis by blast
qed

end
