(* ===== verification/Interference.thy ===== *)
theory Interference
  imports System
begin

text \<open>
  Requests, ticks and replicas run concurrently: between two calls of its ports a use case sees
  whatever the others did to the store. \<open>amid\<close> lets one list of such effects happen, one before
  each call, and records the states the call leaves behind. A call of a port, one statement or
  one transaction, is the atomic step. The handlers are the ones of the sequential model: they
  are run on ports that are interfered with.
\<close>

section \<open>Calls amid the effects of others\<close>

record 's amid =
  am_store :: 's
  am_others :: "('s \<Rightarrow> 's) list"
  am_trace :: "'s list"

definition disturbed :: "'s amid \<Rightarrow> 's" where
  "disturbed w = (case am_others w of [] \<Rightarrow> am_store w | e # _ \<Rightarrow> e (am_store w))"

definition amid :: "('s, 'e, 'a) io \<Rightarrow> ('s amid, 'e, 'a) io" where
  "amid m w =
     (case m (disturbed w) of
        (r, s') \<Rightarrow> (r, \<lparr>am_store = s', am_others = tl (am_others w), am_trace = am_trace w @ [s']\<rparr>))"

definition users_amid :: "'s user_repo \<Rightarrow> 's amid user_repo" where
  "users_amid U =
     \<lparr>ur_insert = (\<lambda>u. amid (ur_insert U u)), ur_find_by_email = (\<lambda>e. amid (ur_find_by_email U e)),
      ur_find_by_id = (\<lambda>i. amid (ur_find_by_id U i)), ur_delete = (\<lambda>i. amid (ur_delete U i))\<rparr>"

definition channels_amid :: "'s channel_repo \<Rightarrow> 's amid channel_repo" where
  "channels_amid C =
     \<lparr>cr_insert = (\<lambda>c. amid (cr_insert C c)), cr_list_for_user = (\<lambda>u. amid (cr_list_for_user C u)),
      cr_delete = (\<lambda>u i. amid (cr_delete C u i)),
      cr_delete_all_for_user = (\<lambda>u. amid (cr_delete_all_for_user C u))\<rparr>"

definition tokens_amid :: "'s token_repo \<Rightarrow> 's amid token_repo" where
  "tokens_amid T =
     \<lparr>tr_insert = (\<lambda>t. amid (tr_insert T t)), tr_find_by_hash = (\<lambda>h. amid (tr_find_by_hash T h)),
      tr_mark_consumed = (\<lambda>i at. amid (tr_mark_consumed T i at)), tr_delete = (\<lambda>i. amid (tr_delete T i)),
      tr_delete_family = (\<lambda>f. amid (tr_delete_family T f)),
      tr_delete_all_for_user = (\<lambda>u. amid (tr_delete_all_for_user T u)),
      tr_delete_expired = (\<lambda>now. amid (tr_delete_expired T now))\<rparr>"

definition jobs_amid :: "'s job_repo \<Rightarrow> 's amid job_repo" where
  "jobs_amid J =
     \<lparr>jr_insert = (\<lambda>j. amid (jr_insert J j)), jr_update = (\<lambda>j. amid (jr_update J j)),
      jr_find = (\<lambda>i. amid (jr_find J i)), jr_list_for_user = (\<lambda>u. amid (jr_list_for_user J u)),
      jr_count_created_since = (\<lambda>u t. amid (jr_count_created_since J u t)),
      jr_list_unfinished_older_than = (\<lambda>t. amid (jr_list_unfinished_older_than J t)),
      jr_delete_finished_before = (\<lambda>t. amid (jr_delete_finished_before J t)),
      jr_delete_all_for_user = (\<lambda>u. amid (jr_delete_all_for_user J u)),
      jr_store_results = (\<lambda>i xs. amid (jr_store_results J i xs)),
      jr_results_for = (\<lambda>i. amid (jr_results_for J i)),
      jr_append_step = (\<lambda>i st. amid (jr_append_step J i st)), jr_steps_for = (\<lambda>i. amid (jr_steps_for J i)),
      jr_clear_steps = (\<lambda>i. amid (jr_clear_steps J i)), jr_add_usage = (\<lambda>i u. amid (jr_add_usage J i u)),
      jr_recent_urls_for_recurring = (\<lambda>r n. amid (jr_recent_urls_for_recurring J r n))\<rparr>"

definition searches_amid :: "'s recurring_repo \<Rightarrow> 's amid recurring_repo" where
  "searches_amid R =
     \<lparr>rr_insert = (\<lambda>x. amid (rr_insert R x)), rr_find = (\<lambda>i. amid (rr_find R i)),
      rr_list_for_user = (\<lambda>u. amid (rr_list_for_user R u)), rr_delete = (\<lambda>u i. amid (rr_delete R u i)),
      rr_delete_all_for_user = (\<lambda>u. amid (rr_delete_all_for_user R u)),
      rr_list_due = (\<lambda>now. amid (rr_list_due R now)), rr_mark_ran = (\<lambda>i at. amid (rr_mark_ran R i at))\<rparr>"

definition audit_amid :: "'s audit_port \<Rightarrow> 's amid audit_port" where
  "audit_amid A =
     \<lparr>au_record = (\<lambda>e. amid (au_record A e)), au_list_recent = (\<lambda>n. amid (au_list_recent A n)),
      au_delete_before = (\<lambda>t. amid (au_delete_before A t))\<rparr>"

definition documents_amid :: "'s document_repo \<Rightarrow> 's amid document_repo" where
  "documents_amid D =
     \<lparr>dr_insert = (\<lambda>d. amid (dr_insert D d)), dr_list_for_user = (\<lambda>u. amid (dr_list_for_user D u)),
      dr_find = (\<lambda>i. amid (dr_find D i)), dr_delete = (\<lambda>u i. amid (dr_delete D u i)),
      dr_store_chunks = (\<lambda>d ns. amid (dr_store_chunks D d ns)),
      dr_mark_failed = (\<lambda>i e. amid (dr_mark_failed D i e)),
      dr_retrieve = (\<lambda>u v k. amid (dr_retrieve D u v k)),
      dr_delete_all_for_user = (\<lambda>u. amid (dr_delete_all_for_user D u))\<rparr>"

definition services_amid :: "'s services \<Rightarrow> 's amid services" where
  "services_amid A =
     \<lparr>sv_users = users_amid (sv_users A), sv_jobs = jobs_amid (sv_jobs A), sv_tokens = tokens_amid (sv_tokens A),
      sv_recurring = searches_amid (sv_recurring A), sv_channels = channels_amid (sv_channels A),
      sv_documents = documents_amid (sv_documents A), sv_audit = audit_amid (sv_audit A),
      sv_dispatch = (\<lambda>j urls. amid (sv_dispatch A j urls)), sv_digests = (\<lambda>url dg. amid (sv_digests A url dg)),
      sv_notify = (\<lambda>c dg. amid (sv_notify A c dg)), sv_embed = (\<lambda>i n c. amid (sv_embed A i n c)),
      sv_hasher = sv_hasher A, sv_token_service = sv_token_service A,
      sv_ready = (\<lambda>w. sv_ready A (disturbed w)), sv_email_enabled = sv_email_enabled A,
      sv_internal_token = sv_internal_token A, sv_quota = sv_quota A,
      sv_refresh_ttl_days = sv_refresh_ttl_days A, sv_runtime = sv_runtime A, sv_time_text = sv_time_text A\<rparr>"

lemmas amid_defs = users_amid_def channels_amid_def tokens_amid_def jobs_amid_def searches_amid_def
  audit_amid_def documents_amid_def

section \<open>What calls and programs keep\<close>

text \<open>\<open>holds P m Q\<close>: \<open>m\<close> keeps \<open>P\<close>, and what it returns satisfies \<open>Q\<close>.\<close>

definition holds :: "('s \<Rightarrow> bool) \<Rightarrow> ('s, 'e, 'a) io \<Rightarrow> ('a \<Rightarrow> bool) \<Rightarrow> bool" where
  "holds P m Q \<longleftrightarrow> (\<forall>s. P s \<longrightarrow> P (snd (m s)) \<and> (\<forall>x. fst (m s) = Inr x \<longrightarrow> Q x))"

abbreviation keeps :: "('s \<Rightarrow> bool) \<Rightarrow> ('s, 'e, 'a) io \<Rightarrow> bool" where
  "keeps P m \<equiv> holds P m (\<lambda>_. True)"

named_theorems holding

lemma holds_ret [holding]: "Q x \<Longrightarrow> holds P (io_ret x) Q"
  by (simp add: holds_def io_ret_def)

lemma holds_throw [holding]: "holds P (io_throw e) Q"
  by (simp add: holds_def io_throw_def)

lemma holds_of: "(\<And>x. r = Inr x \<Longrightarrow> Q x) \<Longrightarrow> holds P (io_of r) Q"
  by (simp add: holds_def io_of_def)

lemma holds_lift: "holds P m Q \<Longrightarrow> holds P (io_lift conv m) Q"
  by (auto simp: holds_def io_lift_def split: prod.splits sum.splits)

lemma holds_result: "holds P m Q \<Longrightarrow> holds P (io_result m) (\<lambda>r. \<forall>x. r = Inr x \<longrightarrow> Q x)"
  by (auto simp: holds_def io_result_def split: prod.splits)

lemma holds_bind:
  assumes "holds P m R" and "\<And>x. R x \<Longrightarrow> holds P (f x) Q"
  shows "holds P (io_bind m f) Q"
  unfolding holds_def
proof (intro allI impI)
  fix s
  assume "P s"
  obtain r s1 where m: "m s = (r, s1)" by fastforce
  with assms(1) \<open>P s\<close> have "P s1" and "\<And>x. r = Inr x \<Longrightarrow> R x" by (auto simp: holds_def)
  with assms(2) show "P (snd (io_bind m f s)) \<and> (\<forall>x. fst (io_bind m f s) = Inr x \<longrightarrow> Q x)"
    by (cases r) (auto simp: io_bind_def m holds_def)
qed

lemma holds_if [holding]: "(b \<Longrightarrow> holds P m Q) \<Longrightarrow> (\<not> b \<Longrightarrow> holds P m' Q) \<Longrightarrow> holds P (if b then m else m') Q"
  by simp

lemma holds_option [holding]:
  "(x = None \<Longrightarrow> holds P m Q) \<Longrightarrow> (\<And>y. x = Some y \<Longrightarrow> holds P (f y) Q) \<Longrightarrow>
   holds P (case x of None \<Rightarrow> m | Some y \<Rightarrow> f y) Q"
  by (cases x) simp_all

lemma holds_sum [holding]:
  "(\<And>e. x = Inl e \<Longrightarrow> holds P (g e) Q) \<Longrightarrow> (\<And>y. x = Inr y \<Longrightarrow> holds P (f y) Q) \<Longrightarrow>
   holds P (case x of Inl e \<Rightarrow> g e | Inr y \<Rightarrow> f y) Q"
  by (cases x) simp_all

lemma holds_keeps: "holds P m Q \<Longrightarrow> keeps P m"
  by (simp add: holds_def)

lemma kept_keeps: "keeps P m \<Longrightarrow> P s \<Longrightarrow> kept P m s"
  by (simp add: holds_def kept_def)

definition calm :: "('s \<Rightarrow> bool) \<Rightarrow> 's amid \<Rightarrow> bool" where
  "calm P w \<longleftrightarrow>
     P (am_store w) \<and> (\<forall>e \<in> set (am_others w). \<forall>s. P s \<longrightarrow> P (e s)) \<and> (\<forall>s \<in> set (am_trace w). P s)"

lemma calm_disturbed: "calm P w \<Longrightarrow> P (disturbed w)"
  by (auto simp: calm_def disturbed_def split: list.split)

lemma holds_amid: "holds P m Q \<Longrightarrow> holds (calm P) (amid m) Q"
  unfolding holds_def [of "calm P"]
proof (intro allI impI)
  fix w
  assume "holds P m Q" and calm: "calm P w"
  moreover have "set (tl (am_others w)) \<subseteq> set (am_others w)" by (cases "am_others w") auto
  ultimately show "calm P (snd (amid m w)) \<and> (\<forall>x. fst (amid m w) = Inr x \<longrightarrow> Q x)"
    using calm_disturbed [OF calm] by (auto simp: amid_def holds_def calm_def split: prod.split)
qed

section \<open>From calls to handlers\<close>

text \<open>
  A property of the store that the calls of all ports keep, when what is written satisfies the
  invariants of the domain types; the jobs they return satisfy theirs.
\<close>

locale sound_ports =
  fixes A :: "'s services" and P :: "'s \<Rightarrow> bool"
  assumes users: "keeps P (ur_insert (sv_users A) u)" "keeps P (ur_find_by_email (sv_users A) e)"
      "keeps P (ur_find_by_id (sv_users A) i)" "keeps P (ur_delete (sv_users A) i)"
    and tokens: "keeps P (tr_insert (sv_tokens A) t)" "keeps P (tr_find_by_hash (sv_tokens A) h)"
      "keeps P (tr_mark_consumed (sv_tokens A) i at)" "keeps P (tr_delete (sv_tokens A) i)"
      "keeps P (tr_delete_family (sv_tokens A) i)" "keeps P (tr_delete_all_for_user (sv_tokens A) i)"
      "keeps P (tr_delete_expired (sv_tokens A) at)"
    and channels: "channel_wf c \<Longrightarrow> keeps P (cr_insert (sv_channels A) c)"
      "keeps P (cr_list_for_user (sv_channels A) i)" "keeps P (cr_delete (sv_channels A) i k)"
      "keeps P (cr_delete_all_for_user (sv_channels A) i)"
    and job_writes: "job_inv j \<Longrightarrow> keeps P (jr_insert (sv_jobs A) j)" "job_inv j \<Longrightarrow> keeps P (jr_update (sv_jobs A) j)"
    and job_found: "holds P (jr_find (sv_jobs A) i) (\<lambda>r. \<forall>j. r = Some j \<longrightarrow> job_inv j)"
      "holds P (jr_list_unfinished_older_than (sv_jobs A) at) (\<lambda>js. \<forall>j \<in> set js. job_inv j)"
    and jobs: "keeps P (jr_list_for_user (sv_jobs A) i)" "keeps P (jr_count_created_since (sv_jobs A) i at)"
      "keeps P (jr_delete_finished_before (sv_jobs A) at)" "keeps P (jr_delete_all_for_user (sv_jobs A) i)"
      "keeps P (jr_store_results (sv_jobs A) i xs)" "keeps P (jr_results_for (sv_jobs A) i)"
      "keeps P (jr_append_step (sv_jobs A) i st)" "keeps P (jr_steps_for (sv_jobs A) i)"
      "keeps P (jr_clear_steps (sv_jobs A) i)" "keeps P (jr_add_usage (sv_jobs A) i use)"
      "keeps P (jr_recent_urls_for_recurring (sv_jobs A) i n)"
    and searches: "recurring_wf x \<Longrightarrow> keeps P (rr_insert (sv_recurring A) x)" "keeps P (rr_find (sv_recurring A) i)"
      "keeps P (rr_list_for_user (sv_recurring A) i)" "keeps P (rr_delete (sv_recurring A) i k)"
      "keeps P (rr_delete_all_for_user (sv_recurring A) i)" "keeps P (rr_list_due (sv_recurring A) at)"
      "keeps P (rr_mark_ran (sv_recurring A) i at)"
    and audit: "keeps P (au_record (sv_audit A) ev)" "keeps P (au_list_recent (sv_audit A) lim)"
      "keeps P (au_delete_before (sv_audit A) at)"
    and documents: "document_wf doc \<Longrightarrow> keeps P (dr_insert (sv_documents A) doc)"
      "keeps P (dr_list_for_user (sv_documents A) i)" "keeps P (dr_find (sv_documents A) i)"
      "keeps P (dr_delete (sv_documents A) i k)" "keeps P (dr_store_chunks (sv_documents A) doc ns)"
      "keeps P (dr_mark_failed (sv_documents A) i e)" "keeps P (dr_retrieve (sv_documents A) i v lim)"
      "keeps P (dr_delete_all_for_user (sv_documents A) i)"
    and calls: "keeps P (sv_dispatch A j urls)" "keeps P (sv_digests A url dg)" "keeps P (sv_notify A ch dg)"
      "keeps P (sv_embed A i name content)"

lemma sound_amid:
  assumes "sound_ports A P"
  shows "sound_ports (services_amid A) (calm P)"
proof -
  note laws = sound_ports.users [OF assms] sound_ports.tokens [OF assms] sound_ports.channels [OF assms]
    sound_ports.job_writes [OF assms] sound_ports.job_found [OF assms] sound_ports.jobs [OF assms]
    sound_ports.searches [OF assms] sound_ports.audit [OF assms] sound_ports.documents [OF assms]
    sound_ports.calls [OF assms]
  show ?thesis
    by unfold_locales (simp_all add: services_amid_def amid_defs holds_amid laws)
qed

context sound_ports begin

lemmas ports = users tokens channels job_writes jobs searches audit documents calls

text \<open>A call followed by the rest, with the error converted or handed over.\<close>

lemma then_any [holding]: "keeps P m \<Longrightarrow> (\<And>x. holds P (f x) Q) \<Longrightarrow> holds P (io_bind m f) Q"
  by (rule holds_bind [where R = "\<lambda>_. True"])

lemma lifted [holding]: "keeps P m \<Longrightarrow> keeps P (io_lift conv m)"
  by (rule holds_lift)

lemma handed [holding]: "keeps P m \<Longrightarrow> keeps P (io_result m)"
  using holds_result holds_keeps by blast

lemma then_of: "(\<And>x. r = Inr x \<Longrightarrow> holds P (f x) Q) \<Longrightarrow> holds P (io_bind (io_lift conv (io_of r)) f) Q"
  by (rule holds_bind [where R = "\<lambda>x. r = Inr x"]) (simp_all add: holds_lift holds_of)

lemma then_found:
  "(\<And>r. \<forall>j. r = Some j \<longrightarrow> job_inv j \<Longrightarrow> holds P (f r) Q) \<Longrightarrow>
   holds P (io_bind (io_lift conv (jr_find (sv_jobs A) i)) f) Q"
  by (rule holds_bind [OF holds_lift [OF job_found(1)]])

lemma sound_reads:
  "keeps P (profile_view (sv_users A) (sv_channels A) user)" "keeps P (list_documents (sv_documents A) user)"
  "keeps P (search_list (sv_jobs A) user)" "keeps P (search_get (sv_jobs A) user i)"
  "keeps P (Resources.recurring_list (sv_recurring A) user)"
  "keeps P (retrieve_for_job (sv_documents A) (sv_jobs A) i v k)"
  unfolding profile_view_def list_documents_def search_list_def search_get_def Resources.recurring_list_def
    retrieve_for_job_def Let_def
  by (intro holding ports TrueI holds_keeps [OF job_found(1)])+

lemma sound_deletes:
  "keeps P (delete_account (sv_users A) (sv_jobs A) (sv_recurring A) (sv_tokens A) (sv_channels A)
     (sv_documents A) user)"
  "keeps P (recurring_delete (sv_recurring A) user i)" "keeps P (remove_channel (sv_channels A) user i)"
  "keeps P (delete_document (sv_documents A) user i)" "keeps P (revoke_session RT (sv_tokens A) presented)"
  unfolding delete_account_def recurring_delete_def remove_channel_def delete_document_def revoke_session_def
  by (intro holding ports TrueI)+

lemma find_job_sound: "holds P (find_job (sv_jobs A) i) job_inv"
  unfolding find_job_def by (intro then_found holding) simp_all

lemma then_job: "(\<And>j. job_inv j \<Longrightarrow> holds P (f j) Q) \<Longrightarrow> holds P (io_bind (find_job (sv_jobs A) i) f) Q"
  by (rule holds_bind [OF find_job_sound])

lemma notify_all_sound: "keeps P (notify_all (sv_notify A) dg cs)"
  by (induction cs) (simp_all, (intro holding ports TrueI)+)

lemma maybe_send_digest_sound:
  "keeps P (maybe_send_digest (sv_recurring A) (sv_digests A) (sv_channels A) (sv_notify A) job xs)"
  unfolding maybe_send_digest_def Let_def
  by (intro holding ports notify_all_sound TrueI)+

lemma seen_urls_sound: "keeps P (seen_urls_of (sv_jobs A) job)"
  unfolding seen_urls_of_def by (intro holding ports TrueI)

lemma owned_inv: "owned_by user found = Some j \<Longrightarrow> \<forall>j. found = Some j \<longrightarrow> job_inv j \<Longrightarrow> job_inv j"
  by (auto simp: owned_by_def split: option.splits if_splits)

lemma sound_callbacks:
  "keeps P (ingest_start (sv_jobs A) i)" "keeps P (ingest_fail (sv_jobs A) now i err)"
  "keeps P (ingest_request_input (sv_jobs A) i q)" "keeps P (record_step (sv_jobs A) i st)"
  "keeps P (record_usage (sv_jobs A) i u)"
  "keeps P (ingest_complete (sv_jobs A) (sv_recurring A) (sv_digests A) (sv_channels A) (sv_notify A) now i xs)"
  "keeps P (answer_clarification (sv_jobs A) (sv_dispatch A) now user i text)"
  "keeps P (store_document_chunks (sv_documents A) i ns)" "keeps P (mark_document_failed (sv_documents A) i err)"
  unfolding ingest_start_def ingest_fail_def ingest_request_input_def record_step_def record_usage_def
    ingest_complete_def answer_clarification_def store_document_chunks_def mark_document_failed_def Let_def
  subgoal by (intro then_job holding ports TrueI job_start_inv)
  subgoal by (intro then_job holding ports TrueI job_fail_inv)
  subgoal by (intro then_job then_of holding ports TrueI) (rule job_request_input_inv)
  subgoal by (intro then_job holding ports TrueI)
  subgoal by (intro then_job holding ports TrueI)
  subgoal by (intro then_job holding ports TrueI job_complete_inv maybe_send_digest_sound)
  subgoal
    by (intro then_found then_of holding ports seen_urls_sound TrueI job_fail_inv)
      (blast intro: owned_inv job_provide_answer_inv)+
  subgoal by (intro holding ports TrueI)
  subgoal by (intro holding ports TrueI)
  done

lemma sound_creates:
  "keeps P (register_user RT (sv_users A) H d email password)"
  "keeps P (login_user RT (sv_users A) H S (sv_tokens A) ttl g email password)"
  "keeps P (rotate_session RT (sv_tokens A) S (sv_audit A) ttl rd presented)"
  "keeps P (launch_search (sv_jobs A) (sv_dispatch A) quota ld user keyword mode)"
  "keeps P (recurring_create (sv_recurring A) i now user keyword mode n hook)"
  "keeps P (add_channel (sv_channels A) enabled i now user kind target secret)"
  "keeps P (upload_document (sv_documents A) (sv_embed A) i now user name content)"
  unfolding register_user_def login_user_def rotate_session_def launch_search_def recurring_create_def
    add_channel_def upload_document_def Let_def case_prod_beta
  subgoal by (intro then_of holding ports TrueI)
  subgoal by (intro then_of holding ports TrueI)
  subgoal by (intro then_of holding ports TrueI)
  subgoal by (intro then_of holding ports TrueI) (auto intro: job_inv_new job_fail_inv)
  subgoal by (intro then_of holding ports TrueI) (rule recurring_search_new_Inr)
  subgoal by (intro then_of holding ports TrueI) (rule notification_channel_new_Inr)
  subgoal by (intro then_of holding ports TrueI) (rule document_new_Inr)
  done

section \<open>Every handler\<close>

lemma sound_record: "P s \<Longrightarrow> P (record_security_event A ev s)"
  using audit(1) by (simp add: holds_def record_security_event_def)

lemma sound_logout: "P s \<Longrightarrow> kept P (http_logout A hs) s"
  using kept_keeps [OF sound_deletes(5)] by (simp add: kept_def http_logout_def split: option.split)

lemma sound_create_search: "P s \<Longrightarrow> kept P (http_create_search A ld ed now hs body) s"
  unfolding http_create_search_def
proof (intro keeping)
  fix u b
  assume ok: "P s"
  show "kept P (\<lambda>s. case launch_search (sv_jobs A) (sv_dispatch A) (sv_quota A) ld u
            (cs_keyword b) (cs_mode b) s of
         (Inr job, s) \<Rightarrow> (json_reply 202 (JObject [(lit ''job_id'', uuid_json A (job_id job))]), s)
       | (Inl (LaunchInvalidJob e), s) \<Rightarrow> (error_body 422 (job_error_msg e), s)
       | (Inl (LaunchQuotaExceeded q), s) \<Rightarrow>
           (error_body 429 (quota_exceeded_msg q),
            record_security_event A
              (security_event_new (ed_id ed) (ed_now ed) QuotaExceededEvent (Some u) (client_ip hs)
                (lit ''daily search quota'')) s)
       | (Inl LaunchDispatchFailed, s) \<Rightarrow> (error_body 502 (lit ''failed to reach the agent''), s)
       | (Inl (LaunchInfrastructure e), s) \<Rightarrow> (internal_error, s)) s"
    using kept_keeps [OF sound_creates(4) ok, of "sv_quota A" ld u "cs_keyword b" "cs_mode b"]
    by (auto simp: kept_def sound_record split: prod.splits sum.splits launch_error.splits)
qed

lemma sound_login:
  assumes "P s"
  shows "P (fst (snd (http_login A incr instant secs d ed hs body (s, throttle))))"
proof -
  have "P (snd (login_user (sv_runtime A) (sv_users A) (sv_hasher A) (sv_token_service A) (sv_tokens A)
      (sv_refresh_ttl_days A) d email password s))" for email password
    using kept_keeps [OF sound_creates(2) assms] by (simp add: kept_def)
  note logged_in = this [of "cr_email b" "cr_password b" for b]
  show ?thesis
  proof (cases body)
    case (Inr b)
    then show ?thesis using assms logged_in [of b]
      by (auto simp: http_login_def kept_def Let_def sound_record split: prod.splits sum.splits login_error.splits)
  qed (simp add: http_login_def assms)
qed

lemma sound_refresh: "P s \<Longrightarrow> kept P (http_refresh A rd hs) s"
  using kept_respond [OF kept_keeps [OF sound_creates(3)]]
  by (auto simp: kept_def http_refresh_def split: option.split)

lemma sound_create_channel: "P s \<Longrightarrow> kept P (http_create_channel A i created now hs body) s"
  unfolding http_create_channel_def
  by (intro keeping) (auto simp: kept_def split: option.split
    dest: kept_respond [OF kept_keeps [OF sound_creates(6)], unfolded kept_def])

lemma sound_store_handler:
  assumes "P s"
  shows "kept P (store_handler A e q) s"
proof -
  have ready: "kept P (http_readyz A) s" using assms by (simp add: kept_def http_readyz_def)
  note use_cases = sound_reads sound_deletes sound_callbacks sound_creates
  show ?thesis
    by (cases e)
      (simp_all add: kept_reply assms ready sound_logout sound_create_search sound_refresh sound_create_channel,
       (unfold plain_handlers, (intro keeping kept_keeps use_cases assms)+))
qed

lemma sound_handle: "P (srv_store srv) \<Longrightarrow> P (srv_store (snd (handle A incr q e srv)))"
  using sound_store_handler [of "srv_store srv" e q]
    sound_login [of "srv_store srv" incr "in_instant q" "in_secs q" "in_login q" "in_event q" "in_headers q"
      "in_credentials q" "srv_throttle srv"]
  by (cases "e = Login") (auto simp: handle_def on_store_def kept_def split: prod.splits)

lemma sound_serve:
  assumes "P (srv_store srv)"
  shows "P (srv_store (snd (serve A incr fallback q srv)))"
proof -
  have "P (srv_store (snd (route_request A incr fallback q srv)))"
  proof (cases A incr fallback q srv rule: route_request_cases)
    case (handled routes e srv1 r srv')
    then show ?thesis using sound_handle [of srv1 incr q e] assms by simp
  qed (use assms in simp_all)
  then show ?thesis by (simp add: serve_layers)
qed

section \<open>The tick\<close>

lemma reap_sound: "\<forall>j \<in> set js. job_inv j \<Longrightarrow> keeps P (reap (sv_jobs A) err clock n js)"
  by (induction js arbitrary: n) (simp_all, (intro holding ports TrueI job_fail_inv; simp)+)

lemma run_due_one_sound: "keeps P (run_due_one (sv_recurring A) (sv_jobs A) (sv_dispatch A) quota now d x)"
proof -
  have new: "job_inv j" if "recurring_job_new d x = Inr j" for j
    using that job_inv_new(2) by (auto simp: recurring_job_new_def split: sum.splits)
  show ?thesis
    unfolding run_due_one_def
    by (intro holding ports TrueI holds_bind [OF holds_of [where Q = job_inv]])
      (use new job_fail_inv in auto)
qed

lemma run_due_loop_sound:
  "keeps P (run_due_loop (sv_recurring A) (sv_jobs A) (sv_dispatch A) quota now draws k n xs)"
  by (induction xs arbitrary: k n) (simp_all, (intro holding run_due_one_sound TrueI; simp)+)

lemma sound_tick:
  "keeps P (tick_work (sv_jobs A) (sv_recurring A) (sv_tokens A) (sv_audit A) (sv_dispatch A) cfg from_std utc_min d)"
  unfolding tick_work_def fail_stale_jobs_def run_due_searches_def purge_jobs_def purge_events_def
  by (intro holding ports TrueI run_due_loop_sound holds_bind [OF job_found(2) reap_sound] holds_of)

end

end
