(* ===== verification/Sound_Rows.thy ===== *)
theory Sound_Rows
  imports Interference
begin

text \<open>
  The part of the invariant that survives concurrency: every row satisfies the invariant of its
  domain type, whatever statements of others come between the calls. What counts rows, the quota
  and the cap, does not. The contracts of the ports give it for most calls; a provider adds what
  it does with an id that is taken.
\<close>

definition sound_world :: "aworld \<Rightarrow> bool" where
  "sound_world w \<longleftrightarrow>
     (\<forall>j \<in> ran (aw_jobs w). job_inv j) \<and> (\<forall>x \<in> ran (aw_recurring w). recurring_wf x) \<and>
     (\<forall>c \<in> ran (aw_channels w). channel_wf c) \<and> (\<forall>d \<in> ran (aw_documents w). document_wf d)"

definition sound_store :: "('s \<Rightarrow> bool) \<Rightarrow> ('s \<Rightarrow> aworld) \<Rightarrow> 's \<Rightarrow> bool" where
  "sound_store invar \<alpha> s \<longleftrightarrow> invar s \<and> sound_world (\<alpha> s)"

text \<open>Every row of \<open>w'\<close> comes from a row of \<open>w\<close> under the same id.\<close>

definition rows_derive :: "aworld \<Rightarrow> aworld \<Rightarrow> bool" where
  "rows_derive w w' \<longleftrightarrow>
     derives job_rewrite (aw_jobs w) (aw_jobs w') \<and> derives search_rewrite (aw_recurring w) (aw_recurring w') \<and>
     derives (=) (aw_channels w) (aw_channels w') \<and> derives document_rewrite (aw_documents w) (aw_documents w')"

lemma rows_derive_refl [simp]: "rows_derive w w"
  by (simp add: rows_derive_def)

lemma rows_derive_ran:
  assumes "derives P m m'" and "\<And>v v'. P v v' \<Longrightarrow> Q v \<Longrightarrow> Q v'" and "\<forall>v \<in> ran m. Q v"
  shows "\<forall>v \<in> ran m'. Q v"
  using derives_ran [OF assms(1)] assms(2,3) by blast

lemma rows_derive_sound:
  assumes "rows_derive w w'" and "sound_world w"
  shows "sound_world w'"
  unfolding sound_world_def
proof (intro conjI)
  note rows = assms(1) [unfolded rows_derive_def] and ok = assms(2) [unfolded sound_world_def]
  show "\<forall>j \<in> ran (aw_jobs w'). job_inv j"
    by (rule rows_derive_ran [where P = job_rewrite and m = "aw_jobs w"]) (use rows ok in \<open>simp_all add: job_rewrite_def\<close>)
  show "\<forall>x \<in> ran (aw_recurring w'). recurring_wf x"
    by (rule rows_derive_ran [where P = search_rewrite and m = "aw_recurring w"])
      (use rows ok in \<open>simp_all add: search_rewrite_def\<close>)
  show "\<forall>c \<in> ran (aw_channels w'). channel_wf c"
    by (rule rows_derive_ran [where P = "(=)" and m = "aw_channels w"]) (use rows ok in simp_all)
  show "\<forall>d \<in> ran (aw_documents w'). document_wf d"
    by (rule rows_derive_ran [where P = document_rewrite and m = "aw_documents w"])
      (use rows ok in \<open>simp_all add: document_rewrite_def\<close>)
qed

lemma sound_ran:
  "sound_world w \<Longrightarrow> aw_jobs w i = Some j \<Longrightarrow> job_inv j"
  by (auto simp: sound_world_def intro: ranI)

lemma holds_port:
  assumes "port_spec invar \<alpha> m R"
    and "\<And>w x w'. sound_world w \<Longrightarrow> R w x w' \<Longrightarrow> rows_derive w w' \<and> Q x"
  shows "holds (sound_store invar \<alpha>) m Q"
  unfolding holds_def sound_store_def
proof (intro allI impI)
  fix s
  assume s: "invar s \<and> sound_world (\<alpha> s)"
  obtain r s' where m: "m s = (r, s')" by fastforce
  from port_specD [OF assms(1) conjunct1 [OF s] m] assms(2) [OF conjunct2 [OF s]] rows_derive_sound s
  show "(invar (snd (m s)) \<and> sound_world (\<alpha> (snd (m s)))) \<and> (\<forall>x. fst (m s) = Inr x \<longrightarrow> Q x)"
    unfolding m by (cases r) auto
qed

lemma keeps_port:
  "port_spec invar \<alpha> m R \<Longrightarrow> (\<And>w x w'. R w x w' \<Longrightarrow> rows_derive w w') \<Longrightarrow> keeps (sound_store invar \<alpha>) m"
  by (erule holds_port) simp

lemma keeps_call:
  assumes "call_spec invar \<alpha> m C"
  shows "keeps (sound_store invar \<alpha>) m"
  unfolding holds_def sound_store_def
proof (intro allI impI)
  fix s
  assume s: "invar s \<and> sound_world (\<alpha> s)"
  then show "(invar (snd (m s)) \<and> sound_world (\<alpha> (snd (m s)))) \<and> (\<forall>x. fst (m s) = Inr x \<longrightarrow> True)"
    using assms [unfolded call_spec_def, rule_format, of s] by (auto simp: sound_world_def split: prod.splits)
qed

lemma rows_derive_log [simp]: "rows_derive w (log_calls cs w') = rows_derive w w'"
  by (simp add: rows_derive_def)

lemma rows_derive_unlinked:
  assumes "derives search_rewrite (aw_recurring w) m" and "unlinked gone (aw_jobs w) js"
  shows "rows_derive w (w\<lparr>aw_recurring := m, aw_jobs := js\<rparr>)"
  using assms derives_unlinked by (simp add: rows_derive_def)

lemma mark_ran_rewrite: "search_rewrite x (mark_ran t x)"
  by (simp add: search_rewrite_def mark_ran_wf) (simp add: mark_ran_def)

lemma usage_rewrite: "job_rewrite j (j\<lparr>job_usage := u\<rparr>)"
  by (simp add: job_rewrite_def job_usage_inv)

lemmas rows_derive_simps = rows_derive_def drop_jobs_def set_results_def forget_steps_def derives_modify
  mark_ran_rewrite usage_rewrite document_rewrites

locale guarded_writes = system_ports +
  assumes user_write: "keeps (sound_store invar \<alpha>) (ur_insert (sv_users A) u)"
    and user_drop: "keeps (sound_store invar \<alpha>) (ur_delete (sv_users A) i)"
    and token_write: "keeps (sound_store invar \<alpha>) (tr_insert (sv_tokens A) t)"
    and channel_write: "channel_wf c \<Longrightarrow> keeps (sound_store invar \<alpha>) (cr_insert (sv_channels A) c)"
    and job_write: "job_inv j \<Longrightarrow> keeps (sound_store invar \<alpha>) (jr_insert (sv_jobs A) j)"
    and job_overwrite: "job_inv j \<Longrightarrow> keeps (sound_store invar \<alpha>) (jr_update (sv_jobs A) j)"
    and search_write: "recurring_wf x \<Longrightarrow> keeps (sound_store invar \<alpha>) (rr_insert (sv_recurring A) x)"
    and event_write: "keeps (sound_store invar \<alpha>) (au_record (sv_audit A) ev)"
    and document_write: "document_wf doc \<Longrightarrow> keeps (sound_store invar \<alpha>) (dr_insert (sv_documents A) doc)"
    and chunks_write: "keeps (sound_store invar \<alpha>) (dr_store_chunks (sv_documents A) doc ns)"
    and documents_drop: "keeps (sound_store invar \<alpha>) (dr_delete_all_for_user (sv_documents A) i)"
begin

lemma jobs_found:
  "holds (sound_store invar \<alpha>) (jr_find (sv_jobs A) i) (\<lambda>r. \<forall>j. r = Some j \<longrightarrow> job_inv j)"
  "holds (sound_store invar \<alpha>) (jr_list_unfinished_older_than (sv_jobs A) at) (\<lambda>js. \<forall>j \<in> set js. job_inv j)"
  by (rule holds_port [OF job_find], auto intro: sound_ran) (rule holds_port [OF job_stale], auto intro: sound_ran)

lemma searches_dropped:
  "keeps (sound_store invar \<alpha>) (rr_delete (sv_recurring A) i k)"
  "keeps (sound_store invar \<alpha>) (rr_delete_all_for_user (sv_recurring A) i)"
  by (rule keeps_port [OF recurring_delete], auto intro!: rows_derive_unlinked split: if_splits)
    (rule keeps_port [OF recurring_delete_all], auto intro!: rows_derive_unlinked)

lemma sound: "sound_ports A (sound_store invar \<alpha>)"
  by unfold_locales
    (((rule user_write user_drop token_write channel_write job_write job_overwrite search_write event_write
        document_write chunks_write documents_drop jobs_found searches_dropped keeps_call [OF dispatch]
        keeps_call [OF dispatch_embed] keeps_call [OF send_digest] keeps_call [OF notify]; assumption?) |
      (rule keeps_port [OF user_find_by_email] keeps_port [OF user_find_by_id] keeps_port [OF token_find]
        keeps_port [OF token_mark_consumed] keeps_port [OF token_delete] keeps_port [OF token_delete_family]
        keeps_port [OF token_delete_all] keeps_port [OF token_delete_expired] keeps_port [OF channel_list]
        keeps_port [OF channel_delete] keeps_port [OF channel_delete_all] keeps_port [OF job_list]
        keeps_port [OF job_count] keeps_port [OF job_purge] keeps_port [OF job_delete_all]
        keeps_port [OF job_store_results] keeps_port [OF job_results] keeps_port [OF job_append_step]
        keeps_port [OF job_steps] keeps_port [OF job_clear_steps] keeps_port [OF job_add_usage]
        keeps_port [OF job_recent_urls] keeps_port [OF recurring_find] keeps_port [OF recurring_list]
        keeps_port [OF recurring_due]
        keeps_port [OF recurring_mark_ran] keeps_port [OF audit_list] keeps_port [OF audit_purge]
        keeps_port [OF document_list] keeps_port [OF document_find] keeps_port [OF document_delete]
        keeps_port [OF document_mark_failed] keeps_port [OF document_retrieve];
       force simp: rows_derive_simps))+)

end

end
