(* ===== verification/Sound_Stores.thy ===== *)
theory Sound_Stores
  imports Sound_Rows Postgres_System
begin

text \<open>
  The laws of \<open>guarded_writes\<close> for the adapters of the program: a row is written as the domain
  type it came from, an update keeps the keyword of the job it finds, and no deletion alters
  what the invariants are about.
\<close>

section \<open>PostgreSQL\<close>

lemma sound_pg:
  assumes "pg_wf s"
  shows "sound_world (pg_abs s) \<longleftrightarrow>
     (\<forall>r \<in> set (pg_jobs s). job_inv (job_of r)) \<and> (\<forall>x \<in> set (pg_searches s). recurring_wf (recurring_from_row x)) \<and>
     (\<forall>c \<in> set (pg_channels s). channel_wf (channel_from_row c)) \<and>
     (\<forall>d \<in> set (pg_documents s). document_wf (document_from_row d))"
  using pg_wfD(6,11,14,16) [OF assms] by (simp add: sound_world_def ran_table)

lemma pg_exec_keeps:
  assumes "port_spec pg_wf pg_abs m R" and "m = pg_exec E texts op"
    and "\<And>s x s'. pg_wf s \<Longrightarrow> pg_wf s' \<Longrightarrow> sound_world (pg_abs s) \<Longrightarrow> op s = Inr (x, s') \<Longrightarrow> sound_world (pg_abs s')"
  shows "keeps (sound_store pg_wf pg_abs) m"
  unfolding holds_def sound_store_def assms(2)
proof (intro allI impI)
  fix s
  assume s: "pg_wf s \<and> sound_world (pg_abs s)"
  let ?t = "s\<lparr>pg_clock := pg_clock s + 1\<rparr>"
  obtain r s' where m: "pg_exec E texts op s = (r, s')" by fastforce
  note spec = port_specD [OF assms(1) [unfolded assms(2)] conjunct1 [OF s] m]
  have "sound_world (pg_abs s')"
  proof (cases r)
    case (Inl e)
    with spec s show ?thesis by simp
  next
    case (Inr x)
    have "pg_wf ?t" "sound_world (pg_abs ?t)" using s by simp_all
    moreover have "op ?t = Inr (x, s')" by (rule pg_exec_Inr [OF m [unfolded Inr]])
    ultimately show ?thesis using assms(3) [OF _ conjunct1 [OF spec]] by blast
  qed
  with spec m show "(pg_wf (snd (pg_exec E texts op s)) \<and> sound_world (pg_abs (snd (pg_exec E texts op s)))) \<and>
      (\<forall>x. fst (pg_exec E texts op s) = Inr x \<longrightarrow> True)" by simp
qed

lemma job_of_insert: "job_inv j \<Longrightarrow> job_inv (job_of (job_row_of j))"
  by (simp add: job_of_def job_from_row_def job_row_of_def job_inv_def job_is_finished_def)

lemma job_of_update:
  assumes "job_inv (job_of r)" and "job_inv j" and "job_row_ok r"
  shows "job_inv (job_of (job_row_update j r))"
  using assms
  by (auto simp: job_of_def job_from_row_def job_row_update_def job_inv_def job_is_finished_def job_row_ok_def
      split: sum.splits)

lemma job_inv_unlinked: "job_row_ok r \<Longrightarrow> job_inv (job_of r) \<Longrightarrow> job_inv (job_of (unlink_from gone r))"
  by (auto simp: job_of_def job_from_row_def unlink_from_def job_inv_def job_is_finished_def job_row_ok_def
      split: option.splits sum.splits)

lemma pg_job_rows_ok: "pg_wf s \<Longrightarrow> r \<in> set (pg_jobs s) \<Longrightarrow> job_row_ok r"
  using pg_wfD(7) by (simp add: job_refs_ok_def)

lemma search_of_insert: "recurring_wf x \<Longrightarrow> recurring_wf (recurring_from_row (search_row_of x))"
  by (simp add: recurring_from_row_def search_row_of_def recurring_wf_def)

lemma channel_of_insert: "channel_wf c \<Longrightarrow> channel_wf (channel_from_row (channel_row_of c))"
proof -
  have "channel_from_row (channel_row_of c) = c\<lparr>ch_created_at := now_utc (ch_created_at c)\<rparr>"
    by (simp add: channel_from_row_def channel_row_of_def)
  then show "channel_wf c \<Longrightarrow> channel_wf (channel_from_row (channel_row_of c))"
    by (cases "ch_kind c") (simp_all add: channel_wf_def)
qed

lemma document_of_insert: "document_wf d \<Longrightarrow> document_wf (document_from_row (document_row_of d))"
  by (simp add: document_from_row_def document_row_of_def document_wf_def)

lemma document_of_ready: "document_wf (document_from_row r) \<Longrightarrow> document_wf (document_from_row (row_ready r))"
  using document_rewrites(1) by (simp add: document_ready_row document_rewrite_def)

lemma update_row_set: "r' \<in> set (update_row key i f rows) \<Longrightarrow> r' \<in> set rows \<or> (\<exists>r \<in> set rows. r' = f r)"
  by (auto simp: update_row_def split: if_splits)

lemma drop_user_rows:
  "set (pg_searches (drop_user_row i s)) \<subseteq> set (pg_searches s)"
  "set (pg_channels (drop_user_row i s)) \<subseteq> set (pg_channels s)"
  "set (pg_documents (drop_user_row i s)) \<subseteq> set (pg_documents s)"
  "r \<in> set (pg_jobs (drop_user_row i s)) \<Longrightarrow> \<exists>r' gone. r' \<in> set (pg_jobs s) \<and> r = unlink_from gone r'"
  by (auto simp: drop_user_row_def drop_jobs_where_def drop_searches_where_def drop_documents_where_def Let_def)

lemma drop_document_rows:
  "set (pg_documents (drop_documents_where P s)) \<subseteq> set (pg_documents s)"
  "pg_jobs (drop_documents_where P s) = pg_jobs s" "pg_searches (drop_documents_where P s) = pg_searches s"
  "pg_channels (drop_documents_where P s) = pg_channels s"
  by (auto simp: drop_documents_where_def Let_def)

lemma pg_store_chunks_keeps: "keeps (sound_store pg_wf pg_abs) (pg_store_chunks E d ns)"
  unfolding holds_def sound_store_def
proof (intro allI impI)
  fix s
  assume s: "pg_wf s \<and> sound_world (pg_abs s)"
  obtain r s' where m: "pg_store_chunks E d ns s = (r, s')" by fastforce
  note spec = port_specD [OF pg_document.document_store_chunks [unfolded pg_document_repo_def document_repo.simps]
      conjunct1 [OF s] m]
  then have wf': "pg_wf s'" by simp
  have "sound_world (pg_abs s')"
  proof (cases r)
    case (Inl e)
    with spec s show ?thesis by simp
  next
    case (Inr x)
    with m have "\<exists>rows n. s' = s\<lparr>pg_chunks := filter (\<lambda>c. kw_document_id c \<noteq> doc_id d) (pg_chunks s) @ rows,
        pg_documents := update_row dw_id (doc_id d) row_ready (pg_documents s), pg_clock := n\<rparr>"
      unfolding pg_store_chunks_def pg_transaction_def
      by (auto split: prod.splits sum.splits elim!: store_chunks_Inr)
    with s wf' show ?thesis
      by (auto simp: sound_pg dest!: update_row_set intro!: document_of_ready)
  qed
  with wf' m show "(pg_wf (snd (pg_store_chunks E d ns s)) \<and> sound_world (pg_abs (snd (pg_store_chunks E d ns s)))) \<and>
      (\<forall>x. fst (pg_store_chunks E d ns s) = Inr x \<longrightarrow> True)" by simp
qed

lemmas pg_write_defs = pg_user_repo_def pg_user_insert_def pg_user_delete_def pg_token_repo_def
  pg_token_insert_def pg_channel_repo_def pg_channel_insert_def pg_job_repo_def pg_job_insert_def pg_job_update_def
  pg_search_repo_def pg_search_insert_def pg_audit_def pg_record_def pg_document_repo_def pg_document_insert_def
  pg_document_delete_all_def

interpretation pg_guarded: guarded_writes
  now_utc "pg_services E fadd RT N cfg lettre_new H S" pg_wf pg_abs fadd "pg_stored E"
  "app_dispatch_sent RT N cfg" "app_embed_sent RT N cfg" "app_hook_sent RT N cfg"
  "app_channel_sent lettre_new cfg" True
  for E fadd RT N cfg lettre_new H S
proof (rule guarded_writes.intro [OF pg_system.system_ports_axioms], unfold_locales,
    unfold pg_services_def services.simps, goal_cases)
  case (1 u)
  show ?case by (rule pg_exec_keeps [OF pg_user.user_insert], simp add: pg_write_defs)
      (auto simp: sound_pg split: if_splits)
next
  case (2 i)
  show ?case by (rule pg_exec_keeps [OF pg_user.user_delete], simp add: pg_write_defs)
      (auto simp: sound_pg dest!: drop_user_rows(4) dest: subsetD [OF drop_user_rows(1)]
        subsetD [OF drop_user_rows(2)] subsetD [OF drop_user_rows(3)] intro: job_inv_unlinked pg_job_rows_ok)
next
  case (3 t)
  show ?case by (rule pg_exec_keeps [OF pg_token.token_insert], simp add: pg_write_defs)
      (auto simp: sound_pg split: if_splits)
next
  case (4 c)
  then show ?case by (intro pg_exec_keeps [OF pg_channel.channel_insert], simp add: pg_write_defs)
      (auto simp: sound_pg channel_of_insert split: if_splits)
next
  case (5 j)
  then show ?case by (intro pg_exec_keeps [OF pg_job.job_insert], simp add: pg_write_defs)
      (auto simp: sound_pg job_of_insert split: if_splits)
next
  case (6 j)
  then show ?case by (intro pg_exec_keeps [OF pg_job.job_update], simp add: pg_write_defs)
      (auto simp: sound_pg dest!: update_row_set intro!: job_of_update intro: pg_job_rows_ok)
next
  case (7 x)
  then show ?case by (intro pg_exec_keeps [OF pg_recurring.recurring_insert], simp add: pg_write_defs)
      (auto simp: sound_pg search_of_insert split: if_splits)
next
  case (8 ev)
  show ?case by (rule pg_exec_keeps [OF pg_audit.audit_record], simp add: pg_write_defs)
      (auto simp: sound_pg split: if_splits)
next
  case (9 doc)
  then show ?case by (intro pg_exec_keeps [OF pg_document.document_insert], simp add: pg_write_defs)
      (auto simp: sound_pg document_of_insert split: if_splits)
next
  case (10 doc ns)
  show ?case using pg_store_chunks_keeps by (simp add: pg_document_repo_def)
next
  case (11 i)
  show ?case by (rule pg_exec_keeps [OF pg_document.document_delete_all], simp add: pg_write_defs)
      (auto simp: sound_pg delete_documents_def drop_document_rows dest: subsetD [OF drop_document_rows(1)])
qed

section \<open>In memory\<close>

lemma im_write_keeps:
  assumes "port_spec world_wf im_abs m R" and "m = (\<lambda>s. (Inr (g s), f s))"
    and "\<And>s. world_wf s \<Longrightarrow> sound_world (im_abs s) \<Longrightarrow> sound_world (im_abs (f s))"
  shows "keeps (sound_store world_wf im_abs) m"
  unfolding holds_def sound_store_def
proof (intro allI impI)
  fix s
  assume s: "world_wf s \<and> sound_world (im_abs s)"
  have "m s = (Inr (g s), f s)" by (simp add: assms(2))
  with port_specD [OF assms(1) conjunct1 [OF s] this] assms(3) s
  show "(world_wf (snd (m s)) \<and> sound_world (im_abs (snd (m s)))) \<and> (\<forall>x. fst (m s) = Inr x \<longrightarrow> True)"
    by simp
qed

lemma ran_put: "x \<in> ran (m(k \<mapsto> v)) \<Longrightarrow> x = v \<or> x \<in> ran m"
  by (auto simp: ran_def split: if_splits)

lemma job_usage_sound: "job_inv j \<Longrightarrow> job_inv (case m of None \<Rightarrow> j | Some e \<Rightarrow> j\<lparr>job_usage := f e\<rparr>)"
  by (cases m) (simp_all add: job_usage_inv)

lemma ran_kept: "x \<in> ran (map_keep K m) \<Longrightarrow> x \<in> ran m"
  by (auto simp: ran_def map_keep_def split: option.splits if_splits)

lemma ran_readied:
  "x \<in> ran (case m i of None \<Rightarrow> m | Some d \<Rightarrow> m(i \<mapsto> document_ready d)) \<Longrightarrow>
   \<forall>d \<in> ran m. document_wf d \<Longrightarrow> document_wf x"
  using document_rewrites(1) by (auto simp: document_rewrite_def ran_def split: option.splits if_splits)

lemma document_retained: "world_wf s \<Longrightarrow> hm_get (hm_retain K (m_documents s)) = map_keep K (hm_get (m_documents s))"
  by (rule hm_get_retain [of doc_id]) (simp add: world_wf_def)

interpretation im_guarded: guarded_writes
  "\<lambda>t. t" "app_services fadd F RT N cfg lettre_new H S" world_wf im_abs fadd "\<lambda>r. r"
  "app_dispatch_sent RT N cfg" "app_embed_sent RT N cfg" "app_hook_sent RT N cfg"
  "app_channel_sent lettre_new cfg" False
  for fadd F RT N cfg lettre_new H S
proof (rule guarded_writes.intro [OF app_system.system_ports_axioms], unfold_locales,
    unfold app_services_def services.simps, goal_cases)
  case (1 u)
  show ?case by (rule im_write_keeps [OF im_user.user_insert], simp add: im_users_def im_user_insert_def)
      (simp add: sound_world_def)
next
  case (2 i)
  show ?case by (rule im_write_keeps [OF im_user.user_delete], simp add: im_users_def im_user_delete_def)
      (simp add: sound_world_def)
next
  case (3 t)
  show ?case by (rule im_write_keeps [OF im_token.token_insert], simp add: im_tokens_def im_token_insert_def)
      (simp add: sound_world_def)
next
  case (4 c)
  show ?case by (rule im_write_keeps [OF im_channel.channel_insert], simp add: im_channels_def im_channel_insert_def)
      (use 4 in \<open>auto simp: sound_world_def hm_get_insert dest!: ran_put\<close>)
next
  case (5 j)
  show ?case by (rule im_write_keeps [OF im_job.job_insert], simp add: im_jobs_def im_job_insert_def)
      (use 5 in \<open>auto simp: sound_world_def hm_get_insert dest!: ran_put\<close>)
next
  case (6 j)
  show ?case by (rule im_write_keeps [OF im_job.job_update], simp add: im_jobs_def im_job_update_def Let_def)
      (use 6 in \<open>auto simp: sound_world_def hm_get_insert job_usage_sound dest!: ran_put\<close>)
next
  case (7 x)
  show ?case by (rule im_write_keeps [OF im_search.recurring_insert], simp add: im_searches_def im_search_insert_def)
      (use 7 in \<open>auto simp: sound_world_def hm_get_insert dest!: ran_put\<close>)
next
  case (8 ev)
  show ?case by (rule im_write_keeps [OF im_log.audit_record], simp add: im_audit_def im_record_def)
      (simp add: sound_world_def)
next
  case (9 doc)
  show ?case by (rule im_write_keeps [OF im_document.document_insert], simp add: im_documents_def im_document_insert_def)
      (use 9 in \<open>auto simp: sound_world_def hm_get_insert dest!: ran_put\<close>)
next
  case (10 doc ns)
  show ?case
    by (rule im_write_keeps [OF im_document.document_store_chunks], simp add: im_documents_def im_store_chunks_def)
      (auto simp: sound_world_def hm_get_modify dest: ran_readied)
next
  case (11 i)
  show ?case
    unfolding im_documents_def document_repo.simps im_document_delete_all_def Let_def
    by (rule im_write_keeps [OF im_document.document_delete_all
          [unfolded im_documents_def document_repo.simps im_document_delete_all_def Let_def] refl])
      (auto simp: sound_world_def document_retained dest: ran_kept)
qed

end
