(* ===== verification/Guarantees_Concurrency.thy ===== *)
theory Guarantees_Concurrency
  imports Sound_Stores Guarantees_Auth Guarantees_Accounts
begin

text \<open>
  What holds, and what does not, when others work on the store between the calls of a use case.
\<close>

section \<open>Invariants amid interference\<close>

text \<open>
  C3. Whatever others do to the database between two statements of a request or of a tick, as
  long as they keep its constraints and the well-formedness of its rows, every state that the
  request or the tick leaves behind, after each of its statements and at the end, keeps them too:
  unique ids and addresses, no dangling reference, and every job, recurring search, channel and
  document well-formed. So requests that run side by side keep them for each other.
\<close>

theorem concurrent_invariant:
  assumes "A = services_amid (pg_services E fadd RT N cfg lettre_new H S)"
    and "\<forall>e \<in> set (am_others (srv_store srv)). \<forall>s. sound_store pg_wf pg_abs s \<longrightarrow> sound_store pg_wf pg_abs (e s)"
    and "am_trace (srv_store srv) = []" and "sound_store pg_wf pg_abs (am_store (srv_store srv))"
    and "w = srv_store (snd (serve A incr fallback q srv)) \<or>
         w = snd (tick_work (sv_jobs A) (sv_recurring A) (sv_tokens A) (sv_audit A) (sv_dispatch A)
               cfg from_std utc_min d (srv_store srv))"
  shows "sound_store pg_wf pg_abs (am_store w) \<and> (\<forall>s \<in> set (am_trace w). sound_store pg_wf pg_abs s)"
proof -
  let ?calm = "calm (sound_store pg_wf pg_abs)"
  have ports: "sound_ports A ?calm"
    unfolding assms(1) by (rule sound_amid [OF pg_guarded.sound])
  have start: "?calm (srv_store srv)" using assms(2-4) by (simp add: calm_def)
  have "?calm w"
    using assms(5) sound_ports.sound_serve [OF ports, of srv, OF start]
      kept_keeps [OF sound_ports.sound_tick [OF ports] start]
    by (auto simp: kept_def)
  then show ?thesis by (simp add: calm_def)
qed

text \<open>Another registration of the same address, between the check and the insertion of ours.\<close>

definition demo_rival :: "pg \<Rightarrow> pg" where
  "demo_rival s = snd (register_user demo_runtime (pg_user_repo demo_pg_env) demo_hasher
     \<lparr>rgd_salt = [6], rgd_id = 9, rgd_now = 0\<rparr> [97, 64, 98] [49, 50, 51, 52, 53, 54, 55, 56] s)"

definition demo_crowd :: "pg amid server" where
  "demo_crowd = router_with_limits (\<lambda>_. None) rate_limit_config_default
     \<lparr>am_store = empty_pg, am_others = [\<lambda>s. s, demo_rival], am_trace = []\<rparr>"

lemma demo_rival_keeps: "sound_store pg_wf pg_abs s \<Longrightarrow> sound_store pg_wf pg_abs (demo_rival s)"
  using kept_keeps [OF sound_ports.sound_creates(1) [OF pg_guarded.sound]]
  by (fastforce simp: kept_def demo_rival_def pg_services_def)

lemma concurrent_invariant_witness:
  "let w = srv_store (snd (serve (services_amid demo_pg_services) (\<lambda>_. Inr 1) demo_fallback demo_join demo_crowd)) in
     sound_store pg_wf pg_abs (am_store w) \<and> (\<forall>s \<in> set (am_trace w). sound_store pg_wf pg_abs s)"
proof -
  have "sound_store pg_wf pg_abs empty_pg"
    by (simp add: sound_store_def sound_world_def empty_pg_wf)
  then show ?thesis
    unfolding Let_def
    by (intro concurrent_invariant [OF arg_cong [OF demo_pg_services_def, of services_amid] _ _ _ disjI1 [OF refl]])
      (simp_all add: demo_crowd_def router_with_limits_def demo_rival_keeps)
qed

section \<open>Erasure amid interference\<close>

lemma keeps_spec: "port_spec invar \<alpha> m R \<Longrightarrow> keeps invar m"
  using port_specD [of invar \<alpha> m R] by (auto simp: holds_def) (metis surjective_pairing)

lemma amid_run:
  assumes "amid m w = (Inr x, w')" and "keeps P m" and "calm P w"
  shows "calm P w'" and "m (disturbed w) = (Inr x, am_store w')"
proof -
  show "calm P w'" using holds_amid [OF assms(2)] assms(1,3) unfolding holds_def by (metis snd_conv)
  show "m (disturbed w) = (Inr x, am_store w')"
    using assms(1) by (auto simp: amid_def split: prod.splits)
qed

definition no_row_of :: "uuid \<Rightarrow> pg \<Rightarrow> bool" where
  "no_row_of u s \<longleftrightarrow>
     u \<notin> users_of s \<and> (\<forall>t \<in> set (pg_tokens s). rt_user_id t \<noteq> u) \<and> (\<forall>j \<in> set (pg_jobs s). jb_user_id j \<noteq> u) \<and>
     (\<forall>r \<in> set (pg_results s). \<exists>j \<in> set (pg_jobs s). jb_id j = sw_job_id r \<and> jb_user_id j \<noteq> u) \<and>
     (\<forall>r \<in> set (pg_steps s). \<exists>j \<in> set (pg_jobs s). jb_id j = sp_job_id r \<and> jb_user_id j \<noteq> u) \<and>
     (\<forall>x \<in> set (pg_searches s). sx_user_id x \<noteq> u) \<and> (\<forall>c \<in> set (pg_channels s). cw_user_id c \<noteq> u) \<and>
     (\<forall>d \<in> set (pg_documents s). dw_user_id d \<noteq> u) \<and> (\<forall>c \<in> set (pg_chunks s). kw_user_id c \<noteq> u) \<and>
     (\<forall>e \<in> set (pg_events s). se_user_id e \<noteq> Some u)"

lemma no_user_no_row:
  assumes "pg_wf s" and "u \<notin> users_of s"
  shows "no_row_of u s"
proof -
  note wf = pg_wfD [OF assms(1)]
  have jobs: "\<forall>j \<in> set (pg_jobs s). jb_user_id j \<noteq> u"
    using wf(7) assms(2) by (auto simp: job_refs_ok_def)
  have events: "\<forall>e \<in> set (pg_events s). se_user_id e \<noteq> Some u"
    using wf(13) assms(2) by (auto simp: event_ref_ok_def)
  have rest: "\<forall>t \<in> set (pg_tokens s). rt_user_id t \<noteq> u" "\<forall>x \<in> set (pg_searches s). sx_user_id x \<noteq> u"
    "\<forall>c \<in> set (pg_channels s). cw_user_id c \<noteq> u" "\<forall>d \<in> set (pg_documents s). dw_user_id d \<noteq> u"
    "\<forall>c \<in> set (pg_chunks s). kw_user_id c \<noteq> u"
    using wf(5,12,15,17,18) assms(2) by auto
  have owned: "\<exists>j \<in> set (pg_jobs s). jb_id j = i \<and> jb_user_id j \<noteq> u" if "i \<in> jobs_of s" for i
    using that jobs by (auto simp: jobs_of_def)
  show ?thesis
    unfolding no_row_of_def using assms(2) jobs events rest owned wf(8,10) by blast
qed

lemma user_row_gone: "u \<notin> users_of (drop_user_row u s)"
  by (auto simp: users_of_def drop_user_row_def Let_def)

text \<open>
  C5. Erasure in production does not depend on being alone: whatever others insert between the
  statements of the deletion, as long as they respect the constraints, when
  \<open>DELETE /api/account\<close> is answered with 204 no row of any table belongs to the caller. The last
  statement deletes the user, and the foreign keys take along what came in late.
\<close>

theorem erasure_amid_interference:
  assumes "A = services_amid (pg_services E fadd RT N cfg lettre_new H S)"
    and "\<forall>e \<in> set (am_others (srv_store srv)). \<forall>s. pg_wf s \<longrightarrow> pg_wf (e s)"
    and "am_trace (srv_store srv) = []" and "pg_wf (am_store (srv_store srv))"
    and "in_method q = DELETE" and "in_path q = [lit ''api'', lit ''account'']"
    and "serve A incr fallback q srv = (r, srv')" and "rsp_status r = 204"
  shows "\<exists>u. auth_user A (in_now q) (in_headers q) = Inr u \<and> no_row_of u (am_store (srv_store srv'))"
proof -
  obtain u where u: "auth_user A (in_now q) (in_headers q) = Inr u"
    and run: "delete_account (sv_users A) (sv_jobs A) (sv_recurring A) (sv_tokens A) (sv_channels A)
           (sv_documents A) u (srv_store srv) = (Inr (), srv_store srv')"
    by (rule delete_account_served [OF assms(5-8)])
  note parts = services_amid_def pg_services_def amid_defs
  from run obtain w1 w2 w3 w4 w5 x1 x2 x3 x4 x5 where
    "amid (rr_delete_all_for_user (pg_search_repo E) u) (srv_store srv) = (Inr x1, w1)"
    "amid (jr_delete_all_for_user (pg_job_repo E fadd) u) w1 = (Inr x2, w2)"
    "amid (tr_delete_all_for_user (pg_token_repo E) u) w2 = (Inr x3, w3)"
    "amid (cr_delete_all_for_user (pg_channel_repo E) u) w3 = (Inr x4, w4)"
    "amid (dr_delete_all_for_user (pg_document_repo E) u) w4 = (Inr x5, w5)"
    and last: "amid (ur_delete (pg_user_repo E) u) w5 = (Inr (), srv_store srv')"
    unfolding assms(1) delete_account_def io_bind_Inr by (simp add: parts) blast
  moreover have "calm pg_wf (srv_store srv)" using assms(2-4) by (simp add: calm_def)
  ultimately have "calm pg_wf w5"
    by (blast intro: amid_run(1) keeps_spec [OF pg_recurring.recurring_delete_all] keeps_spec [OF pg_job.job_delete_all]
      keeps_spec [OF pg_token.token_delete_all] keeps_spec [OF pg_channel.channel_delete_all]
      keeps_spec [OF pg_document.document_delete_all])
  note final = amid_run [OF last keeps_spec [OF pg_user.user_delete] this]
  then have "pg_wf (am_store (srv_store srv'))" by (simp add: calm_def)
  moreover have "u \<notin> users_of (am_store (srv_store srv'))"
    using final(2) by (auto simp: pg_user_repo_def pg_user_delete_def dest!: pg_exec_Inr)
      (metis user_row_gone)
  ultimately show ?thesis using no_user_no_row u by blast
qed

text \<open>A launch of the same user, after the deletion of the jobs.\<close>

definition demo_late :: "pg \<Rightarrow> pg" where
  "demo_late s = snd (jr_insert (pg_job_repo demo_pg_env (+)) demo_job s)"

definition demo_leaver :: "pg amid server" where
  "demo_leaver = router_with_limits (\<lambda>_. None) rate_limit_config_default
     \<lparr>am_store = demo_members, am_others = [\<lambda>s. s, \<lambda>s. s, demo_late], am_trace = []\<rparr>"

lemma demo_amid_tokens: "sv_token_service (services_amid demo_pg_services) = demo_tokens"
  by (simp add: services_amid_def)

lemma amid_total: "(\<And>s. \<not> isl (fst (m s))) \<Longrightarrow> \<not> isl (fst (amid m w))"
  by (simp add: amid_def split_beta)

lemma bind_total:
  assumes "\<And>s. \<not> isl (fst (m s))" and "\<And>x s. \<not> isl (fst (f x s))"
  shows "\<not> isl (fst (io_bind m f s))"
  using assms(1) [of s] assms(2) by (cases "m s") (auto simp: io_bind_def split: sum.split)

lemma demo_pg_deletes:
  "\<not> isl (fst (rr_delete_all_for_user (pg_search_repo demo_pg_env) u s))"
  "\<not> isl (fst (jr_delete_all_for_user (pg_job_repo demo_pg_env fadd) u s))"
  "\<not> isl (fst (tr_delete_all_for_user (pg_token_repo demo_pg_env) u s))"
  "\<not> isl (fst (cr_delete_all_for_user (pg_channel_repo demo_pg_env) u s))"
  "\<not> isl (fst (dr_delete_all_for_user (pg_document_repo demo_pg_env) u s))"
  "\<not> isl (fst (ur_delete (pg_user_repo demo_pg_env) u s))"
  by (simp_all add: pg_user_repo_def pg_user_delete_def pg_job_repo_def pg_job_delete_all_def
      pg_search_repo_def pg_search_delete_all_def pg_token_repo_def pg_token_delete_all_def pg_channel_repo_def
      pg_channel_delete_all_def pg_document_repo_def pg_document_delete_all_def split_beta)

lemma demo_amid_delete_total:
  "fst (delete_account (sv_users (services_amid demo_pg_services)) (sv_jobs (services_amid demo_pg_services))
     (sv_recurring (services_amid demo_pg_services)) (sv_tokens (services_amid demo_pg_services))
     (sv_channels (services_amid demo_pg_services)) (sv_documents (services_amid demo_pg_services)) u w) = Inr ()"
  (is "fst ?run = _")
proof -
  have "\<not> isl (fst ?run)"
    unfolding delete_account_def services_amid_def demo_pg_services_def pg_services_def amid_defs services.simps
      user_repo.simps job_repo.simps recurring_repo.simps token_repo.simps channel_repo.simps document_repo.simps
    by (intro bind_total amid_total demo_pg_deletes)
  then show ?thesis by (cases "fst ?run") auto
qed

lemma erasure_amid_interference_witness:
  "no_row_of 7 (am_store (srv_store (snd (serve (services_amid demo_pg_services) (\<lambda>_. Inr 1) demo_fallback
     demo_delete_account demo_leaver)))) \<and>
   pg_jobs (demo_late demo_members) \<noteq> []"
proof -
  have members: "pg_wf demo_members"
    by (simp add: pg_wf_def demo_members_def empty_pg_def job_refs_ok_def users_of_def)
  have late: "pg_wf s \<Longrightarrow> pg_wf (demo_late s)" for s
    using keeps_spec [OF pg_job.job_insert] by (auto simp: holds_def demo_late_def)
  let ?run = "serve (services_amid demo_pg_services) (\<lambda>_. Inr 1) demo_fallback demo_delete_account demo_leaver"
  have status: "rsp_status (fst ?run) = 204"
    using demo_amid_delete_total [of 7]
    by (auto simp: serve_layers demo_route demo_delete_account_def demo_request_def http_delete_account_def
      demo_leaver_def router_with_limits_def limiter_per_minute_def rate_limit_config_default_def authed_def
      auth_user_def header_str_def demo_bearer demo_amid_tokens respond_def clearing_cookie_def
      split: prod.split sum.split dest: arg_cong [where f = fst])
  have q: "in_method demo_delete_account = DELETE" "in_path demo_delete_account = [lit ''api'', lit ''account'']"
    "in_now demo_delete_account = 0"
    "in_headers demo_delete_account = [(lit ''authorization'', map (word_of_nat \<circ> of_char) ''Bearer 7'')]"
    by (simp_all add: demo_delete_account_def demo_request_def)
  have user: "auth_user (services_amid demo_pg_services) 0
      [(lit ''authorization'', map (word_of_nat \<circ> of_char) ''Bearer 7'')] = Inr 7"
    by (simp add: auth_user_def header_str_def demo_bearer services_amid_def)
  have run: "?run = (fst ?run, snd ?run)" by simp
  have "\<exists>u. auth_user (services_amid demo_pg_services) (in_now demo_delete_account) (in_headers demo_delete_account) = Inr u \<and>
      no_row_of u (am_store (srv_store (snd ?run)))"
    by (rule erasure_amid_interference [OF arg_cong [OF demo_pg_services_def, of services_amid] _ _ _ q(1,2) run status])
      (simp_all add: demo_leaver_def router_with_limits_def late members)
  then have "no_row_of 7 (am_store (srv_store (snd ?run)))" unfolding q user by simp
  moreover have "pg_jobs (demo_late demo_members) \<noteq> []"
    by (simp add: demo_late_def pg_job_repo_def pg_job_insert_def pg_exec_def demo_pg_env_def demo_job_def opt_text_def
      demo_members_def empty_pg_def users_of_def jobs_of_def demo_signup_def user_new_def Let_def)
  ultimately show ?thesis by blast
qed

section \<open>Checks that go stale\<close>





section \<open>The reaper and a late completion\<close>

text \<open>
  C15. The reaper writes back what it read: when the worker's completion of a stale job comes
  between the listing and the update, the completed job ends up failed with the timeout message,
  while its results stay stored: the guard of \<open>fail\<close> for completed jobs looks at the job that
  was read.
\<close>

theorem reaper_overwrites_completion:
  assumes "from_std timeout = Inr dur"
    and "jr_list_unfinished_older_than (pg_job_repo E fadd) (now - dur) s = (Inr [j], s1)"
    and "pg_wf s" and "pg_wf (e s1)" and "aw_jobs (pg_abs (e s1)) (job_id j) = Some (job_complete t j)"
    and "fail_stale_jobs (jobs_amid (pg_job_repo E fadd)) from_std timeout now clock
           \<lparr>am_store = s, am_others = [\<lambda>s. s, e], am_trace = []\<rparr> = (Inr n, w)"
  shows "n = 1 \<and>
         aw_jobs (pg_abs (am_store w)) (job_id j) =
           Some (job_fail (clock 0) (timeout_error timeout) j) \<and>
         aw_results (pg_abs (am_store w)) = aw_results (pg_abs (e s1))"
proof -
  let ?failed = "job_fail (clock 0) (timeout_error timeout) j"
  from assms(6) have update: "jr_update (pg_job_repo E fadd) ?failed (e s1) = (Inr (), am_store w)" and "n = 1"
    using assms(1,2)
    by (auto simp: fail_stale_jobs_def jobs_amid_def amid_def io_defs disturbed_def split: prod.splits sum.splits)
  have "stale (now_utc (now - dur)) j"
    using port_specD [OF pg_job.job_stale assms(3,2)] by auto
  then have same: "writes_back now_utc (job_complete t j) ?failed" "job_id ?failed = job_id j"
    by (auto simp: writes_back_def job_fail_def job_complete_def stale_def)
  from port_specD [OF pg_job.job_update assms(4) update] assms(5) same
  have "pg_abs (am_store w) = put_job ?failed (pg_abs (e s1))" by auto
  then show ?thesis
    using assms(5) same(2) \<open>n = 1\<close> by (simp add: put_job_known keep_usage_def job_fail_def job_complete_def)
qed

definition demo_queued :: pg where
  "demo_queued = demo_members\<lparr>pg_jobs := [job_row_of demo_job]\<rparr>"

text \<open>The completion of the same job by its worker: the results, then the new status.\<close>

definition demo_finish :: "pg \<Rightarrow> pg" where
  "demo_finish s =
     snd (jr_update (pg_job_repo demo_pg_env (+)) (job_complete 5 demo_job)
       (snd (jr_store_results (pg_job_repo demo_pg_env (+)) 1 [demo_result [65]] s)))"

lemma demo_row:
  "job_from_row (job_row_of demo_job) = Inr demo_job" "jb_id (job_row_of demo_job) = 1"
  "jb_user_id (job_row_of demo_job) = 7" "jb_status (job_row_of demo_job) = lit ''pending''"
  "jb_created_at (job_row_of demo_job) = 0" "jb_recurring_search_id (job_row_of demo_job) = None"
  "job_id demo_job = 1" "job_user_id demo_job = 7" "job_recurring_search_id demo_job = None"
proof -
  have "job_from_row (job_row_of j) = Inr j"
    if "job_usage j = job_usage_default" "now_utc (job_created_at j) = job_created_at j" "job_completed_at j = None" for j
    using that by (cases j) (simp add: job_from_row_def job_row_of_def)
  then show "job_from_row (job_row_of demo_job) = Inr demo_job" by (simp add: demo_job_def now_utc_def)
qed (simp_all add: job_row_of_def demo_job_def now_utc_def)

lemma demo_listed:
  "jr_list_unfinished_older_than (pg_job_repo demo_pg_env (+)) (hours 1 - minutes 15) demo_queued =
     (Inr [demo_job], demo_queued\<lparr>pg_clock := 3\<rparr>)"
proof -
  have "0 < now_utc (hours 1 - minutes 15)"
    by (simp add: hours_def minutes_def second_def now_utc_def microsecond_def)
  then show ?thesis
    by (simp add: demo_queued_def pg_job_repo_def pg_list_unfinished_def io_defs pg_query_def pg_exec_def
        demo_pg_env_def demo_members_def empty_pg_def Let_def scan_def demo_row)
qed

lemma demo_queued_wf: "pg_wf demo_queued"
proof -
  have "job_row_ok (job_row_of j)" if "job_completed_at j = None" for j
    using that by (simp add: job_row_ok_def job_row_of_def)
  then have "job_row_ok (job_row_of demo_job)" by (simp add: demo_job_def)
  then show ?thesis
    by (simp add: pg_wf_def demo_queued_def demo_members_def empty_pg_def job_refs_ok_def users_of_def demo_row
        demo_signup_def user_new_def)
qed

lemma demo_update_total: "fst (jr_update (pg_job_repo demo_pg_env (+)) j s) = Inr ()"
  if "\<forall>t \<in> set (opt_text (job_error j) @ opt_text (job_question j) @ opt_text (job_answer j)). 0 \<notin> set t"
  using that by (simp add: pg_job_repo_def pg_job_update_def pg_exec_def demo_pg_env_def Let_def)

lemma demo_stored:
  "fst (jr_store_results (pg_job_repo demo_pg_env (+)) 1 [demo_result [65]] (demo_queued\<lparr>pg_clock := n\<rparr>)) = Inr ()"
  by (simp add: pg_job_repo_def pg_store_results_def pg_transaction_def pg_begin_def pg_commit_def insert_result_def
      pg_exec_def io_defs demo_pg_env_def Let_def demo_result_def opt_text_def jobs_of_def demo_queued_def demo_row)

lemma demo_finished:
  fixes n
  defines "s \<equiv> demo_queued\<lparr>pg_clock := n\<rparr>"
  shows "pg_wf (demo_finish s)" and "aw_jobs (pg_abs (demo_finish s)) 1 = Some (job_complete 5 demo_job)"
    and "aw_results (pg_abs (demo_finish s)) 1 = [pg_stored demo_pg_env (demo_result [65])]"
proof -
  let ?J = "pg_job_repo demo_pg_env (+)"
  obtain s1 where store: "jr_store_results ?J 1 [demo_result [65]] s = (Inr (), s1)"
    using demo_stored [of n] by (cases "jr_store_results ?J 1 [demo_result [65]] s") (auto simp: s_def)
  obtain s2 where update: "jr_update ?J (job_complete 5 demo_job) s1 = (Inr (), s2)"
    using demo_update_total [of "job_complete 5 demo_job" s1]
    by (cases "jr_update ?J (job_complete 5 demo_job) s1") (auto simp: job_complete_def demo_job_def opt_text_def)
  have done': "demo_finish s = s2" by (simp add: demo_finish_def store update)
  have "aw_jobs (pg_abs s) 1 = Some demo_job"
    by (simp add: s_def pg_abs_def table_def demo_queued_def demo_row job_of_def)
  moreover have wf: "pg_wf s" by (simp add: s_def demo_queued_wf)
  note stored_spec = port_specD [OF pg_job.job_store_results wf store]
  ultimately have job: "aw_jobs (pg_abs s1) 1 = Some demo_job"
    and results: "aw_results (pg_abs s1) 1 = [pg_stored demo_pg_env (demo_result [65])]"
    using stored_spec by (simp_all add: set_results_def)
  have "writes_back now_utc demo_job (job_complete 5 demo_job)" "job_id (job_complete 5 demo_job) = 1"
    by (simp_all add: writes_back_def job_complete_def demo_job_def now_utc_def microsecond_def)
  then have "pg_wf s2 \<and> pg_abs s2 = put_job (job_complete 5 demo_job) (pg_abs s1)"
    using port_specD [OF pg_job.job_update conjunct1 [OF stored_spec] update] job by simp
  then show "pg_wf (demo_finish s)" "aw_jobs (pg_abs (demo_finish s)) 1 = Some (job_complete 5 demo_job)"
    "aw_results (pg_abs (demo_finish s)) 1 = [pg_stored demo_pg_env (demo_result [65])]"
    using job results
    by (simp_all add: done' put_job_known [of _ _ demo_job] job_complete_def demo_job_def keep_usage_def)
qed

lemma reaper_overwrites_completion_witness:
  "\<exists>w. fail_stale_jobs (jobs_amid (pg_job_repo demo_pg_env (+))) (\<lambda>_. Inr (minutes 15)) \<lparr>sd_secs = 900, sd_nanos = 0\<rparr>
      (hours 1) (\<lambda>_. 0) \<lparr>am_store = demo_queued, am_others = [\<lambda>s. s, demo_finish], am_trace = []\<rparr> = (Inr 1, w) \<and>
     map_option job_status (aw_jobs (pg_abs (am_store w)) 1) = Some Failed \<and>
     aw_results (pg_abs (am_store w)) 1 = [pg_stored demo_pg_env (demo_result [65])]"
proof -
  let ?J = "pg_job_repo demo_pg_env (+)" and ?t = "\<lparr>sd_secs = 900, sd_nanos = 0\<rparr> :: std_duration"
  let ?failed = "job_fail 0 (timeout_error ?t) demo_job"
  let ?e = "demo_finish (demo_queued\<lparr>pg_clock := 3\<rparr>)"
  let ?w = "\<lparr>am_store = demo_queued, am_others = [\<lambda>s. s, demo_finish], am_trace = []\<rparr>"
  have "0 \<notin> set (timeout_error ?t)" by code_simp
  then have "fst (jr_update ?J ?failed ?e) = Inr ()"
    using demo_update_total [of ?failed ?e] by (simp add: job_fail_def demo_job_def opt_text_def)
  then obtain s where last: "jr_update ?J ?failed ?e = (Inr (), s)" by (cases "jr_update ?J ?failed ?e") auto
  note wf = demo_queued_wf
  obtain w where run: "fail_stale_jobs (jobs_amid ?J) (\<lambda>_. Inr (minutes 15)) ?t (hours 1) (\<lambda>_. 0) ?w = (Inr 1, w)"
    by (simp add: fail_stale_jobs_def jobs_amid_def amid_def io_defs disturbed_def demo_listed last)
  have "aw_jobs (pg_abs ?e) (job_id demo_job) = Some (job_complete 5 demo_job)"
    using demo_finished(2) [of 3] by (simp add: demo_job_def)
  from reaper_overwrites_completion [OF refl demo_listed wf demo_finished(1) this run]
  show ?thesis
    using run demo_finished(3) [of 3] by (auto simp: demo_job_def job_fail_def job_complete_def)
qed

end
