(* ===== verification/Boot.thy ===== *)
theory Boot
  imports Auth Postgres_System
begin

text \<open>
  The start of the program in \<open>main.rs\<close>: the environment is parsed, the repositories are chosen,
  the services are put together and the server listens (the background loop is in \<open>Background\<close>, the
  counting decorator of the audit log in \<open>Metering\<close>). What the process runs on is the
  parameter: the libraries, the databases that can be reached, the addresses that can be bound.
\<close>

record platform =
  pl_runtime :: runtime
  pl_argon2 :: argon2_api
  pl_jwt :: jwt_api
  pl_net :: net
  pl_lettre_new :: "smtp_config \<Rightarrow> rstr option"
  pl_redis_open :: "rstr \<Rightarrow> rstr option"
  pl_pg :: pg_env
  pl_fadd :: "f64 \<Rightarrow> f64 \<Rightarrow> f64"
  pl_f32 :: f32_ops
  pl_database :: "rstr \<Rightarrow> pg option"
  pl_bind :: "rstr \<Rightarrow> bool"

text \<open>
  The process exits with the names of the missing variables, or panics because the database (its
  migrations included) or the address is not to be had.
\<close>

datatype startup_failure = MissingVariables "rstr list" | DatabasePanic | BindPanic

datatype app =
    Memory_App app_config "world services" "world server"
  | Postgres_App app_config "pg services" "pg server"

definition load_config :: "env \<Rightarrow> startup_failure + app_config" where
  "load_config env =
     (case from_lookup env of Inl missing \<Rightarrow> Inl (MissingVariables missing) | Inr cfg \<Rightarrow> Inr cfg)"

definition app_hasher :: "platform \<Rightarrow> password_hasher" where
  "app_hasher P = argon2_hasher (pl_argon2 P)"

definition app_tokens :: "platform \<Rightarrow> app_config \<Rightarrow> token_service" where
  "app_tokens P cfg = jwt_token_service (pl_runtime P) (pl_jwt P) (jwt_service_new (ac_jwt_secret cfg) 15)"

definition app_of :: "platform \<Rightarrow> app_config \<Rightarrow> startup_failure + app" where
  "app_of P cfg =
     (case ac_database_url cfg of
        Some url \<Rightarrow>
          (case pl_database P url of
             None \<Rightarrow> Inl DatabasePanic
           | Some db \<Rightarrow>
               Inr (Postgres_App cfg
                 (pg_services (pl_pg P) (pl_fadd P) (pl_runtime P) (pl_net P) cfg (pl_lettre_new P)
                    (app_hasher P) (app_tokens P cfg))
                 (router_with_limits (pl_redis_open P) (ac_rate_limits cfg) db)))
      | None \<Rightarrow>
          Inr (Memory_App cfg
            (app_services (pl_fadd P) (pl_f32 P) (pl_runtime P) (pl_net P) cfg (pl_lettre_new P)
               (app_hasher P) (app_tokens P cfg))
            (router_with_limits (pl_redis_open P) (ac_rate_limits cfg) empty_world)))"

definition boot :: "platform \<Rightarrow> env \<Rightarrow> startup_failure + app" where
  "boot P env =
     (case load_config env of
        Inl failure \<Rightarrow> Inl failure
      | Inr cfg \<Rightarrow>
          (case app_of P cfg of
             Inl failure \<Rightarrow> Inl failure
           | Inr app \<Rightarrow> if pl_bind P (ac_bind_addr cfg) then Inr app else Inl BindPanic))"

section \<open>What has started\<close>

lemma boot_Inr:
  "boot P env = Inr app \<longleftrightarrow>
     (\<exists>cfg. from_lookup env = Inr cfg \<and> app_of P cfg = Inr app \<and> pl_bind P (ac_bind_addr cfg))"
  by (auto simp: boot_def load_config_def split: sum.splits if_splits)

lemma boot_missing: "boot P env = Inl (MissingVariables missing) \<longleftrightarrow> from_lookup env = Inl missing"
  by (auto simp: boot_def load_config_def app_of_def split: sum.splits if_splits option.splits)

lemma app_of_Postgres:
  assumes "ac_database_url cfg = Some url" and "app_of P cfg = Inr app"
  obtains db A srv where "pl_database P url = Some db" and "app = Postgres_App cfg A srv"
    and "A = pg_services (pl_pg P) (pl_fadd P) (pl_runtime P) (pl_net P) cfg (pl_lettre_new P)
               (app_hasher P) (app_tokens P cfg)"
    and "srv = router_with_limits (pl_redis_open P) (ac_rate_limits cfg) db"
  using assms by (auto simp: app_of_def split: option.splits)

lemma production_values:
  assumes "env (lit ''APP_ENV'') = Some (lit ''production'')" and "from_lookup env = Inr cfg"
    and "name \<in> set REQUIRED_IN_PRODUCTION"
  obtains v where "env name = Some v" and "v \<noteq> []" and "v \<notin> set PLACEHOLDERS"
  using from_lookup_production(1) [OF assms(1,2)] assms(3) by (auto simp: usable_def)

lemma guarded_by_secret:
  assumes "sv_token_service A = app_tokens P cfg" and "auth_user A now hs = Inr u"
  shows "\<exists>token claims. header_str hs (lit ''authorization'') = Some (lit ''Bearer '' @ token) \<and>
           jw_decode (pl_jwt P) now (ac_jwt_secret cfg) token = Some claims \<and>
           jw_parse_uuid (pl_jwt P) (cl_sub claims) = Some u"
  using assms
  by (auto simp: auth_user_def app_tokens_def jwt_token_service_def jwt_verify_def jwt_service_new_def
      bind_eq_Some_conv strip_prefix_def prefix_def split: option.splits if_splits)

end
