(* ===== verification/Guarantees_Startup.thy ===== *)
theory Guarantees_Startup
  imports Boot Guarantees_Auth
begin

text \<open>What holds of a program that has started.\<close>

definition unusable :: "env \<Rightarrow> rstr list" where
  "unusable env = filter (\<lambda>name. \<not> usable env name) REQUIRED_IN_PRODUCTION"

lemma missing_unusable: "missing_required REQUIRED_IN_PRODUCTION env = unusable env"
  unfolding missing_required_def unusable_def
  by (rule filter_cong) (auto simp: usable_def split: option.split)

lemma production_config:
  assumes "env (lit ''APP_ENV'') = Some (lit ''production'')" and "from_lookup env = Inr cfg"
  shows "unusable env = []"
    and "\<exists>url. env (lit ''DATABASE_URL'') = Some url \<and> ac_database_url cfg = Some url"
    and "env (lit ''JWT_SECRET'') = Some (ac_jwt_secret cfg)"
    and "env (lit ''INTERNAL_API_TOKEN'') = Some (ac_internal_token cfg)"
    and "ac_jwt_secret cfg \<notin> set ([] # PLACEHOLDERS)" and "ac_internal_token cfg \<notin> set ([] # PLACEHOLDERS)"
proof -
  note vals = from_lookup_production [OF assms]
  have req: "lit ''JWT_SECRET'' \<in> set REQUIRED_IN_PRODUCTION" "lit ''INTERNAL_API_TOKEN'' \<in> set REQUIRED_IN_PRODUCTION"
    "lit ''DATABASE_URL'' \<in> set REQUIRED_IN_PRODUCTION"
    by (simp_all add: REQUIRED_IN_PRODUCTION_def)
  show "unusable env = []" using vals(1) by (simp add: unusable_def filter_empty_conv)
  show "env (lit ''JWT_SECRET'') = Some (ac_jwt_secret cfg)"
    "env (lit ''INTERNAL_API_TOKEN'') = Some (ac_internal_token cfg)"
    using vals(2,3) by simp_all
  show "\<exists>url. env (lit ''DATABASE_URL'') = Some url \<and> ac_database_url cfg = Some url"
    using vals(1,4) req(3) by (auto simp: usable_def)
  show "ac_jwt_secret cfg \<notin> set ([] # PLACEHOLDERS)" "ac_internal_token cfg \<notin> set ([] # PLACEHOLDERS)"
    using vals(1-3) req(1,2) unfolding usable_def by (metis list.set_intros(1) option.inject set_ConsD)+
qed

text \<open>
  C39. A production start with a required setting missing, empty or left at a placeholder ends with
  the names of exactly those settings. A start that succeeds runs on the PostgreSQL database that
  was configured, its internal callbacks take exactly the configured token, and every access
  token it accepts is one that the configured secret decodes; neither value is a placeholder.
\<close>

theorem production_startup:
  assumes "env (lit ''APP_ENV'') = Some (lit ''production'')"
  shows "case boot P env of
      Inl (MissingVariables names) \<Rightarrow> names = unusable env \<and> names \<noteq> []
    | Inl DatabasePanic \<Rightarrow> unusable env = [] \<and> Option.bind (env (lit ''DATABASE_URL'')) (pl_database P) = None
    | Inl BindPanic \<Rightarrow> unusable env = []
    | Inr (Memory_App _ _ _) \<Rightarrow> False
    | Inr (Postgres_App cfg A srv) \<Rightarrow>
        unusable env = [] \<and>
        Option.bind (env (lit ''DATABASE_URL'')) (pl_database P) = Some (srv_store srv) \<and>
        (\<exists>secret token.
           env (lit ''JWT_SECRET'') = Some secret \<and> secret \<notin> set ([] # PLACEHOLDERS) \<and>
           env (lit ''INTERNAL_API_TOKEN'') = Some token \<and> token \<notin> set ([] # PLACEHOLDERS) \<and>
           (\<forall>hs. check_internal_token A hs = None \<longleftrightarrow>
                  map_of hs (lit ''x-internal-token'') = Some (bytes_of token)) \<and>
           (\<forall>now hs u. auth_user A now hs = Inr u \<longrightarrow>
              (\<exists>bearer claims. header_str hs (lit ''authorization'') = Some (lit ''Bearer '' @ bearer) \<and>
                 jw_decode (pl_jwt P) now secret bearer = Some claims \<and>
                 jw_parse_uuid (pl_jwt P) (cl_sub claims) = Some u)))"
proof (cases "from_lookup env")
  case (Inl names)
  then have "names = unusable env \<and> names \<noteq> []"
    by (auto simp: from_lookup_Inl missing_unusable)
  moreover have "boot P env = Inl (MissingVariables names)" using Inl by (simp add: boot_missing)
  ultimately show ?thesis by auto
next
  case (Inr cfg)
  note vals = production_config [OF assms Inr]
  from vals(2) obtain url where url: "env (lit ''DATABASE_URL'') = Some url" "ac_database_url cfg = Some url" by blast
  show ?thesis
  proof (cases "pl_database P url")
    case None
    then have "boot P env = Inl DatabasePanic" by (simp add: boot_def load_config_def Inr app_of_def url)
    then show ?thesis using vals(1) None url by simp
  next
    case (Some db)
    let ?A = "pg_services (pl_pg P) (pl_fadd P) (pl_runtime P) (pl_net P) cfg (pl_lettre_new P)
      (app_hasher P) (app_tokens P cfg)"
    have boot: "boot P env = (if pl_bind P (ac_bind_addr cfg)
        then Inr (Postgres_App cfg ?A (router_with_limits (pl_redis_open P) (ac_rate_limits cfg) db)) else Inl BindPanic)"
      by (simp add: boot_def load_config_def Inr app_of_def url Some)
    have A: "sv_token_service ?A = app_tokens P cfg" "sv_internal_token ?A = ac_internal_token cfg"
      by (simp_all add: pg_services_def)
    show ?thesis
      unfolding boot using vals url Some check_internal_token_iff [of ?A] guarded_by_secret [OF A(1)]
      by (simp add: A(2) router_with_limits_def)
  qed
qed

definition demo_platform :: platform where
  "demo_platform =
     \<lparr>pl_runtime = demo_runtime, pl_argon2 = demo_argon2, pl_jwt = demo_jwt, pl_net = demo_net,
      pl_lettre_new = (\<lambda>_. None), pl_redis_open = (\<lambda>_. None), pl_pg = demo_pg_env, pl_fadd = (+), pl_f32 = demo_float,
      pl_database = (\<lambda>_. Some empty_pg), pl_bind = (\<lambda>_. True)\<rparr>"

definition demo_environment :: env where
  "demo_environment name = (if name = lit ''APP_ENV'' then Some (lit ''production'') else Some (lit ''s3cret''))"

lemma demo_boot: "\<exists>cfg A srv. boot demo_platform demo_environment = Inr (Postgres_App cfg A srv)"
proof -
  have "unusable demo_environment = []"
    by (simp add: unusable_def demo_environment_def usable_def REQUIRED_IN_PRODUCTION_def PLACEHOLDERS_def lit_def)
  then obtain cfg where cfg: "from_lookup demo_environment = Inr cfg"
    by (cases "from_lookup demo_environment") (auto simp: from_lookup_Inl missing_unusable)
  have "demo_environment (lit ''APP_ENV'') = Some (lit ''production'')" by (simp add: demo_environment_def)
  from production_config(2) [OF this cfg] show ?thesis
    by (auto simp: boot_def load_config_def cfg app_of_def demo_platform_def)
qed

lemma production_startup_witness:
  "\<exists>cfg A srv. boot demo_platform demo_environment = Inr (Postgres_App cfg A srv) \<and> srv_store srv = empty_pg \<and>
     check_internal_token A [(lit ''x-internal-token'', bytes_of (lit ''s3cret''))] = None \<and>
     check_internal_token A [(lit ''x-internal-token'', bytes_of (lit ''change-me''))] \<noteq> None"
proof -
  obtain cfg A srv where run: "boot demo_platform demo_environment = Inr (Postgres_App cfg A srv)"
    using demo_boot by blast
  have prod: "demo_environment (lit ''APP_ENV'') = Some (lit ''production'')" by (simp add: demo_environment_def)
  have token: "demo_environment (lit ''INTERNAL_API_TOKEN'') = Some (lit ''s3cret'')"
    and url: "demo_environment (lit ''DATABASE_URL'') = Some (lit ''s3cret'')"
    by (simp_all add: demo_environment_def lit_def)
  have db: "pl_database demo_platform = (\<lambda>_. Some empty_pg)" by (simp add: demo_platform_def)
  have other: "bytes_of (lit ''change-me'') \<noteq> bytes_of (lit ''s3cret'')" by code_simp
  from production_startup [where env = demo_environment and P = demo_platform, OF prod] show ?thesis
    unfolding run by (clarsimp simp: token url db other simp del: not_None_eq)
qed

end
