(* ===== verification/Metering.thy ===== *)
theory Metering
  imports Postgres_Ports In_Memory
begin

text \<open>
  \<open>adapters/security_metrics.rs\<close>: the decorator that counts every security event by its kind and
  hands it on to the store behind it. The counter belongs to the metrics library: its state is a
  type variable and \<open>add\<close> what counting one event of a kind does to it (nothing at all while no
  meter provider is installed).
\<close>

definition metered_record ::
  "(rstr \<Rightarrow> 'm \<Rightarrow> 'm) \<Rightarrow> 's audit_port \<Rightarrow> security_event \<Rightarrow> ('s \<times> 'm, unit) port" where
  "metered_record add A e = (\<lambda>(s, m).
     let m = add (se_kind e) m in
     case au_record A e s of (r, s) \<Rightarrow> (r, s, m))"

definition metered_list_recent :: "'s audit_port \<Rightarrow> int \<Rightarrow> ('s \<times> 'm, security_event list) port" where
  "metered_list_recent A limit = (\<lambda>(s, m). case au_list_recent A limit s of (r, s) \<Rightarrow> (r, s, m))"

definition metered_delete_before :: "'s audit_port \<Rightarrow> time \<Rightarrow> ('s \<times> 'm, nat) port" where
  "metered_delete_before A cutoff = (\<lambda>(s, m). case au_delete_before A cutoff s of (r, s) \<Rightarrow> (r, s, m))"

definition metered_audit :: "(rstr \<Rightarrow> 'm \<Rightarrow> 'm) \<Rightarrow> 's audit_port \<Rightarrow> ('s \<times> 'm) audit_port" where
  "metered_audit add A =
     \<lparr>au_record = metered_record add A, au_list_recent = metered_list_recent A,
      au_delete_before = metered_delete_before A\<rparr>"

lemmas metered_defs = metered_audit_def metered_record_def metered_list_recent_def metered_delete_before_def

section \<open>The contract survives the decorator\<close>

lemma metered_spec:
  assumes "port_spec invar \<alpha> m R" and "\<And>s c. (fst (m' (s, c)), fst (snd (m' (s, c)))) = m s"
  shows "port_spec (invar \<circ> fst) (\<alpha> \<circ> fst) m' R"
proof (rule port_specI)
  fix sc x sc'
  assume "(invar \<circ> fst) sc" and "m' sc = (Inr x, sc')"
  then show "(invar \<circ> fst) sc' \<and> R ((\<alpha> \<circ> fst) sc) x ((\<alpha> \<circ> fst) sc')"
    using assms(2) [of "fst sc" "snd sc"] port_specD [OF assms(1), of "fst sc" "Inr x" "fst sc'"] by simp
next
  fix sc e sc'
  assume "(invar \<circ> fst) sc" and "m' sc = (Inl e, sc')"
  then show "(invar \<circ> fst) sc' \<and> (\<alpha> \<circ> fst) sc' = (\<alpha> \<circ> fst) sc"
    using assms(2) [of "fst sc" "snd sc"] port_specD [OF assms(1), of "fst sc" "Inl e" "fst sc'"] by simp
qed

context audit_log
begin

lemma metered_log: "audit_log prec (metered_audit add A) (invar \<circ> fst) (\<alpha> \<circ> fst)"
proof unfold_locales
  fix e
  show "port_spec (invar \<circ> fst) (\<alpha> \<circ> fst) (au_record (metered_audit add A) e)
      (\<lambda>w _ w'. exact_event prec e \<longrightarrow> w' = w\<lparr>aw_events := aw_events w @ [e]\<rparr>)"
    by (rule metered_spec [OF audit_record]) (simp add: metered_defs Let_def split: prod.split)
next
  fix limit
  show "port_spec (invar \<circ> fst) (\<alpha> \<circ> fst) (au_list_recent (metered_audit add A) limit)
      (\<lambda>w r w'. w' = w \<and> mset r \<subseteq># mset (aw_events w) \<and>
         length r = min (nat limit) (length (aw_events w)))"
    by (rule metered_spec [OF audit_list]) (simp add: metered_defs split: prod.split)
next
  fix cutoff
  show "port_spec (invar \<circ> fst) (\<alpha> \<circ> fst) (au_delete_before (metered_audit add A) cutoff)
      (\<lambda>w n w'. w' = w\<lparr>aw_events := filter (\<lambda>e. prec cutoff \<le> se_created_at e) (aw_events w)\<rparr> \<and>
         n = length (filter (\<lambda>e. se_created_at e < prec cutoff) (aw_events w)))"
    by (rule metered_spec [OF audit_purge]) (simp add: metered_defs split: prod.split)
qed

end

interpretation im_metered: audit_log "\<lambda>t. t" "metered_audit add im_audit" "world_wf \<circ> fst" "im_abs \<circ> fst"
  by (rule im_log.metered_log)

interpretation pg_metered: audit_log now_utc "metered_audit add (pg_audit E)" "pg_wf \<circ> fst" "pg_abs \<circ> fst"
  by (rule pg_audit.metered_log)

section \<open>What is counted\<close>

text \<open>Recording a run of events the way the callers do, whose result they ignore.\<close>

fun record_all :: "'s audit_port \<Rightarrow> security_event list \<Rightarrow> 's \<Rightarrow> 's" where
  "record_all A [] s = s"
| "record_all A (e # es) s = record_all A es (snd (au_record A e s))"

text \<open>
  Every event is counted under its kind, whether the store takes it or not, and the store sees
  the same calls as without the decorator.
\<close>

lemma metered_record_all:
  "record_all (metered_audit add A) es (s, m) = (record_all A es s, fold (add \<circ> se_kind) es m)"
  by (induction es arbitrary: s m) (simp_all add: metered_defs Let_def split: prod.split)

lemma metered_results:
  "fst (au_record (metered_audit add A) e (s, m)) = fst (au_record A e s)"
  "au_list_recent (metered_audit add A) limit (s, m) = (r, s', m') \<longleftrightarrow>
     au_list_recent A limit s = (r, s') \<and> m' = m"
  "au_delete_before (metered_audit add A) cutoff (s, m) = (n, s', m') \<longleftrightarrow>
     au_delete_before A cutoff s = (n, s') \<and> m' = m"
  by (auto simp: metered_defs Let_def split: prod.splits)

end
