(* ===== verification/Probe.thy ===== *)
theory Probe
  imports Router Http_Facts Config
begin

text \<open>
  \<open>healthcheck.rs\<close> and \<open>bin/healthcheck.rs\<close>: the probe of the container image, a raw HTTP request
  for \<open>/healthz\<close> and an exit code. The TCP stream is the parameter: connecting, writing and
  reading to the end, each with the text of its error.
\<close>

record 'c tcp =
  tcp_connect :: "rstr \<Rightarrow> rstr + 'c"
  tcp_write_all :: "rstr \<Rightarrow> 'c \<Rightarrow> rstr + 'c"
  tcp_read_to_string :: "'c \<Rightarrow> rstr + rstr"

definition addr_from_env :: "env \<Rightarrow> rstr" where
  "addr_from_env env =
     (case env (lit ''HEALTHCHECK_ADDR'') of None \<Rightarrow> lit ''127.0.0.1:8000'' | Some addr \<Rightarrow> addr)"

definition crlf :: rstr where "crlf = [13, 10]"

definition probe_request :: rstr where
  "probe_request =
     lit ''GET /healthz HTTP/1.1'' @ crlf @ lit ''Host: localhost'' @ crlf @ lit ''Connection: close'' @ crlf @ crlf"

text \<open>\<open>response.lines().next()\<close>: a line ends with \<open>\n\<close> or \<open>\r\n\<close>.\<close>

definition first_line :: "rstr \<Rightarrow> rstr option" where
  "first_line t =
     (if t = [] then None
      else let l = takeWhile (\<lambda>c. c \<noteq> 10) t in
           Some (if 10 \<in> set t \<and> l \<noteq> [] \<and> last l = 13 then butlast l else l))"

definition check :: "'c tcp \<Rightarrow> rstr \<Rightarrow> rstr + unit" where
  "check T addr =
     (case tcp_connect T addr of
        Inl e \<Rightarrow> Inl (lit ''cannot connect to '' @ addr @ lit '': '' @ e)
      | Inr stream \<Rightarrow>
          (case tcp_write_all T probe_request stream of
             Inl e \<Rightarrow> Inl (lit ''cannot send request: '' @ e)
           | Inr stream \<Rightarrow>
               (case tcp_read_to_string T stream of
                  Inl e \<Rightarrow> Inl (lit ''cannot read response: '' @ e)
                | Inr response \<Rightarrow>
                    if prefix (lit ''HTTP/1.1 200'') response then Inr ()
                    else Inl (lit ''unexpected response: '' @
                              (case first_line response of None \<Rightarrow> lit ''<empty>'' | Some l \<Rightarrow> l)))))"

text \<open>The exit code and what is printed to standard error.\<close>

definition healthcheck_main :: "env \<Rightarrow> 'c tcp \<Rightarrow> int \<times> rstr option" where
  "healthcheck_main env T =
     (case check T (addr_from_env env) of
        Inl reason \<Rightarrow> (1, Some (lit ''healthcheck failed: '' @ reason))
      | Inr _ \<Rightarrow> (0, None))"

section \<open>When the probe is satisfied\<close>

lemma check_Inr:
  "check T addr = Inr () \<longleftrightarrow>
     (\<exists>c c' rest. tcp_connect T addr = Inr c \<and> tcp_write_all T probe_request c = Inr c' \<and>
        tcp_read_to_string T c' = Inr (lit ''HTTP/1.1 200'' @ rest))"
  by (auto simp: check_def prefix_def split: sum.splits)

lemma probe_exit: "fst (healthcheck_main env T) = 0 \<longleftrightarrow> check T (addr_from_env env) = Inr ()"
  "fst (healthcheck_main env T) \<noteq> 0 \<longleftrightarrow> snd (healthcheck_main env T) \<noteq> None"
  by (auto simp: healthcheck_main_def split: sum.splits)

lemma first_line_status:
  assumes "10 \<notin> set l" and "13 \<notin> set l"
  shows "first_line (l @ crlf @ rest) = Some l"
proof -
  have "takeWhile (\<lambda>c. c \<noteq> 10) (l @ crlf @ rest) = l @ [13]"
    using assms(1) by (subst takeWhile_append2) (auto simp: crlf_def)
  then show ?thesis by (simp add: first_line_def crlf_def)
qed

section \<open>The probe and the server\<close>

text \<open>
  A server behind the stream: what is read is the response to the request that was written, in
  the form of HTTP/1.1, whose status line begins with the version and the status.
\<close>

definition wired :: "'c tcp \<Rightarrow> rstr \<Rightarrow> response \<Rightarrow> bool" where
  "wired T addr r \<longleftrightarrow>
     (\<exists>c c' reason rest. tcp_connect T addr = Inr c \<and> tcp_write_all T probe_request c = Inr c' \<and>
        10 \<notin> set reason \<and> 13 \<notin> set reason \<and>
        tcp_read_to_string T c' =
          Inr (lit ''HTTP/1.1 '' @ show_nat (rsp_status r) @ lit '' '' @ reason @ crlf @ rest))"

lemma healthz_served:
  assumes "in_method q = GET" and "in_path q = [lit ''healthz'']"
  shows "rsp_status (fst (serve A incr fallback q srv)) = 200 \<and> snd (serve A incr fallback q srv) = srv"
  by (simp add: assms serve_layers route_request_def knows_path_def auth_routes_def api_routes_def other_routes_def
      sgs_def serve_routes_def find_endpoint_def method_matches_def handle_def on_store_def http_healthz_def
      text_reply_def)

text \<open>The container is healthy while the server answers, whatever its store and its limiters say.\<close>

lemma probe_succeeds:
  assumes "in_method q = GET" and "in_path q = [lit ''healthz'']"
    and "wired T (addr_from_env env) (fst (serve A incr fallback q srv))"
  shows "healthcheck_main env T = (0, None)"
proof -
  have "show_nat 200 = lit ''200''" by code_simp
  then have "check T (addr_from_env env) = Inr ()"
    using assms(3) healthz_served [OF assms(1,2), of A incr fallback srv]
    by (fastforce simp: wired_def check_Inr lit_def)
  then show ?thesis by (simp add: healthcheck_main_def)
qed

lemma show_status:
  assumes "100 \<le> n" and "n < 1000"
  shows "show_nat n = [48 + n div 100, 48 + n div 10 mod 10, 48 + n mod 10]"
proof -
  have "\<not> n < 10" "\<not> n div 10 < 10" "n div 10 div 10 < 10" using assms by simp_all
  then show ?thesis using assms by (simp add: show_nat.simps div_mult2_eq [symmetric])
qed

lemma digits_of: "n = 100 * (n div 100) + 10 * (n div 10 mod 10) + n mod 10" for n :: nat
proof -
  have "n div 10 div 10 = n div 100" by (simp add: div_mult2_eq [symmetric])
  then show ?thesis
    using div_mult_mod_eq [of n 10] div_mult_mod_eq [of "n div 10" 10] by linarith
qed

text \<open>Any other status is reported with its status line.\<close>

lemma probe_fails:
  assumes "wired T addr r" and "rsp_status r \<noteq> 200" and "100 \<le> rsp_status r" and "rsp_status r < 1000"
  shows "\<exists>reason. check T addr =
    Inl (lit ''unexpected response: HTTP/1.1 '' @ show_nat (rsp_status r) @ lit '' '' @ reason)"
proof -
  obtain c c' reason rest where
    io: "tcp_connect T addr = Inr c" "tcp_write_all T probe_request c = Inr c'"
    and line: "10 \<notin> set reason" "13 \<notin> set reason"
    and read: "tcp_read_to_string T c' =
      Inr (lit ''HTTP/1.1 '' @ show_nat (rsp_status r) @ lit '' '' @ reason @ crlf @ rest)"
    using assms(1) by (auto simp: wired_def)
  let ?n = "rsp_status r" and ?l = "lit ''HTTP/1.1 '' @ show_nat (rsp_status r) @ lit '' '' @ reason"
  note digits = show_status [OF assms(3,4)]
  have "\<not> (?n div 100 = 2 \<and> ?n div 10 mod 10 = 0 \<and> ?n mod 10 = 0)"
    using assms(2) digits_of [of ?n] by auto
  then have other: "\<not> prefix (lit ''HTTP/1.1 200'') (?l @ crlf @ rest)"
    by (simp add: lit_def digits)
  have "first_line (?l @ crlf @ rest) = Some ?l"
    by (rule first_line_status) (auto simp: lit_def digits line)
  then show ?thesis using other io read by (auto simp: check_def lit_def)
qed

end
