(* ===== verification/Spec2Isabelle.thy ===== *)
theory Spec2Isabelle
  imports Guarantees_Searches Guarantees_Accounts Guarantees_Resources Guarantees_Edges Guarantees_Http
    Guarantees_System Guarantees_Deployment Guarantees_Auth Guarantees_Concurrency Guarantees_Startup Metering Probe
begin

text \<open>
  A model of the Rust backend under \<open>src/backend/src\<close> and the properties that make it correct.

  \<^bold>\<open>The program.\<close> A hexagonal HTTP service. A user registers, logs in (access token plus rotating
  refresh cookie) and launches research jobs, once or on a schedule. A job is handed to an agent
  over HTTP, which reports back through token-guarded callbacks: started, journal steps, a question
  for the user, spend, results, failure. New results of a scheduled search go to a signed webhook
  and to the user's channels (Slack, Telegram, e-mail). A background loop fails stale jobs, launches
  due searches and purges old data. Documents are embedded by the agent and ground later jobs.

  \<^bold>\<open>How code becomes a definition.\<close> A struct is a \<open>record\<close>, an enum a \<open>datatype\<close>; a \<open>String\<close> is a
  list of Unicode scalar values (\<open>rstr\<close>), an instant an integer number of nanoseconds, a UUID a
  128-bit word, an \<open>f64\<close> or \<open>f32\<close> its bit pattern with arithmetic as a parameter, counters words of
  their width. A method that may fail and works on shared state is of type \<open>('s, 'e, 'a) io\<close>: a
  function from the state to a result \<open>'e + 'a\<close> and the next state. Fresh values (ids, clock
  readings, salts) are arguments, the draws. A \<open>?\<close> is \<open>io_bind\<close>, a conversion of errors \<open>io_lift\<close>,
  a result that is inspected rather than propagated \<open>io_result\<close>.

  \<^bold>\<open>Theories and code.\<close>
  \<^item> \<open>Prelude\<close>: strings (\<open>trim\<close>, \<open>split\<close>, \<open>split_once\<close>, UTF-8), time, JSON, hash maps.
    \<open>Effects\<close>: the \<open>io\<close> type, the calls to the outside world, the judgement \<open>sat\<close> (below).
  \<^item> \<open>Job\<close>, \<open>Search_Result\<close>, \<open>Accounts\<close>, \<open>Recurring\<close>, \<open>Channel\<close>, \<open>Document\<close>: \<open>domain/*.rs\<close>. \<open>Job\<close> has
    the lifecycle as a step relation \<open>job_step\<close> and its reachable states.
  \<^item> \<open>Ports\<close>: \<open>domain/ports.rs\<close>. Each trait is a record of operations, and a locale of what each
    operation promises on an abstract world of finite maps (\<open>aworld\<close>), up to the precision to which
    a store keeps instants.
  \<^item> \<open>Launch\<close>, \<open>Run_Due\<close>, \<open>Ingest\<close>, \<open>Session\<close>, \<open>Resources\<close>: \<open>application/*.rs\<close>, one definition per use
    case; their contracts (\<open>*_outcome\<close>) are proved inside locales that extend those of \<open>Ports\<close>.
  \<^item> \<open>In_Memory\<close>: \<open>adapters/persistence/in_memory.rs\<close>; every port locale is interpreted on it.
  \<^item> \<open>Postgres_Tables\<close>, \<open>Postgres_State\<close>, \<open>Postgres\<close>: \<open>adapters/persistence/postgres.rs\<close>. The tables of
    \<open>migrations/*.sql\<close> are lists of rows, a statement is a step on them that the database may refuse
    or fail to run (\<open>pg_env\<close> is what PostgreSQL decides), deletions follow the foreign keys, and
    \<open>pg_wf\<close> is what the constraints guarantee. \<open>Postgres_Ports\<close>, \<open>Postgres_Jobs\<close>: the same port
    locales, interpreted on these repositories with the precision of microseconds.
  \<^item> \<open>Leader_Lock\<close>: \<open>PostgresLeaderLock\<close>, the session advisory lock by which replicas choose the one
    that runs the background loop, as a step relation with lost answers, crashes and ended sessions.
  \<^item> \<open>Address\<close>, \<open>Outbound\<close>: the SSRF guard, webhooks (\<open>adapters/digest.rs\<close>), the agent client
    (\<open>adapters/dispatch\<close>) and the channels (\<open>adapters/notify.rs\<close>); a connection is recorded with the
    addresses it may go to.
  \<^item> \<open>Rate_Limit\<close>: \<open>adapters/http/rate_limit.rs\<close>. \<open>Config\<close>: \<open>config.rs\<close>.
  \<^item> \<open>Wiring\<close>, \<open>Background\<close>: \<open>main.rs\<close>, the choice of adapters and a tick of the background loop; the
    locales of the use cases are interpreted on the program's own adapters here.
  \<^item> \<open>Http_Base\<close>, \<open>Http_Public\<close>, \<open>Http_Internal\<close>, \<open>Router\<close>, \<open>Sse\<close>: \<open>adapters/http\<close>. Guards, cookies and
    middlewares; one definition \<open>http_<name>\<close> per handler; the route table, the limiters around the
    groups of routes and \<open>serve\<close>, which takes a request through all layers; the stream of updates.
  \<^item> \<open>Demo\<close>, \<open>Http_Facts\<close>: a concrete environment, and lemmas on requests shared by the properties.
  \<^item> \<open>Good_World\<close>, \<open>System\<close>: the invariant of the whole store (\<open>good_world\<close>), the relation of worlds
    that only lose or rewrite rows (\<open>evolves\<close>), and the proof from the contracts that every handler
    and every tick keeps the invariant; \<open>app_step\<close> is a step of the running server.
    \<open>Postgres_System\<close>: the same for PostgreSQL; \<open>deploy_step\<close> is a step of a deployment, any number
    of replicas on one database.
  \<^item> \<open>Auth\<close>: \<open>adapters/auth/mod.rs\<close>, passwords and access tokens. \<open>Metering\<close>:
    \<open>adapters/security_metrics.rs\<close>, the port locale interpreted on the decorated audit log.
    \<open>Boot\<close>: \<open>main.rs\<close>, from the environment to a listening server or a failure to start.
    \<open>Probe\<close>: \<open>healthcheck.rs\<close>, against the model of the server.
  \<^item> \<open>Interference\<close>: every port run amid others (\<open>amid\<close>): before each call on the store anything may
    happen to it, a finite script of interferences that is a parameter. \<open>sound_ports\<close> says that the
    ports keep a predicate; from it every use case, handler and tick is shown to keep it after each
    of its calls. \<open>Sound_Rows\<close>, \<open>Sound_Stores\<close>: the predicate \<open>sound_store\<close> (the constraints of
    the store, and every row well-formed), kept by the ports of both persistences.
  \<^item> \<open>Guarantees_*\<close>: the properties, each with a concrete instance.

  \<^bold>\<open>What the lemmas show.\<close> \<open>sat invar \<alpha> m w Q\<close> says: run on any concrete state that satisfies
  \<open>invar\<close> and represents \<open>w\<close>, the operation \<open>m\<close> keeps \<open>invar\<close> and ends in a result and an abstract
  world related by \<open>Q\<close>. Its rules (\<open>sat_flow\<close>, \<open>sat_bind_port\<close>, ...) walk through a use case, one port
  call at a time, error branches included. The outcome predicates are the abstract specifications;
  the \<open>*_sat\<close> lemmas are the refinements; the \<open>*_quota\<close>, \<open>*_inv\<close>, \<open>*_cap\<close>, \<open>*_kept\<close> lemmas are
  invariants of the outcomes. \<open>answers\<close> collects what a handler may answer in any state.

  \<^bold>\<open>Bounds.\<close> Loops are structural recursions on the lists the code iterates over. The stream of
  updates is a partial function that is proved total when clocks do not run backwards. The counters
  of the rate limiter are 32-bit words, so its bounds ask for fewer than \<open>2 ^ 32\<close> requests.

  \<^bold>\<open>Parameters.\<close> Library code is an argument: SHA-256, lower-casing and the text of a UUID
  (\<open>runtime\<close>); Argon2 (\<open>argon2_api\<close>) and JWT (\<open>jwt_api\<close>), with what their documentation says as the
  hypotheses \<open>argon2_documented\<close> and \<open>jwt_documented\<close>; URL parsing, DNS, HTTP, SMTP, HMAC and JSON
  text (\<open>net\<close>); Redis (\<open>incr\<close>); what the web framework makes of a path or a body, and its answer to
  an unknown route (\<open>fallback\<close>); the TCP stream of the probe (\<open>tcp\<close>); the reachable databases and
  addresses at the start (\<open>platform\<close>). The use cases take any \<open>password_hasher\<close> and \<open>token_service\<close>.

  \<^bold>\<open>Atomicity.\<close> The invariants of \<open>System\<close> and \<open>Postgres_System\<close> are about arbitrary sequences of
  whole requests, ticks, stream reads and changes of leadership. What they say of the rows one by
  one, and the completeness of an erasure, also hold between the statements of requests that run
  side by side (\<open>Guarantees_Concurrency\<close>); what relies on a check made earlier (quota, cap,
  rotation, the reaper) does not, and the same theory says how it fails.

  \<^bold>\<open>Not modelled.\<close> Of PostgreSQL: the migrations, a statement that commits although its answer is
  lost, and ranges of the database's timestamps. Logging, tracing, the exporters of telemetry and
  the choice of the TLS provider, which only call libraries; the signals that end the process; the
  attributes of the OpenAPI document; the Python agent and the frontend, other programs. The
  services of \<open>pg_services\<close> and \<open>app_services\<close> hold the audit log without its counting decorator,
  which changes no result and no store (\<open>metered_record_all\<close>, \<open>metered_results\<close>).
\<close>

end
